(* ===== verification/Prelude.thy ===== *)
theory Prelude
  imports Main "HOL-Library.Word" "HOL-Library.Finite_Map" "HOL-Library.Multiset"
    "HOL-Library.List_Lexorder" "HOL-Library.Char_ord"
begin

text \<open>
  Shared vocabulary of the development: the theorem collections the component theories extend,
  the names of the model's scalar types, the generic lemmas on finite maps, finite sets, lists
  and options that the component proofs rest on, and three interfaces that several components
  provide: a system with an inductive invariant, a system that comes to an end, and a bounded queue
  with a non-blocking send.
\<close>

section \<open>Collections and type names\<close>

named_theorems wire_simps \<open>big-endian fields and frames\<close>
named_theorems room_simps \<open>operations of the room service\<close>
named_theorems session_simps \<open>operations of the session service\<close>
named_theorems server_simps \<open>operations of the roomserver\<close>
named_theorems gw_simps \<open>operations of the gateway\<close>

type_synonym byte = "8 word"
type_synonym bytes = "byte list"
type_synonym uint32 = "32 word"
type_synonym uint64 = "64 word"

text \<open>Identifiers are Go strings. A Go string is a sequence of bytes, as a HOL string is.\<close>

type_synonym user_id = string
type_synonym room_id = string
type_synonym gateway_id = string

section \<open>Finite maps and finite sets\<close>

lemma fmlookup_drop_if [simp]:
  "fmlookup (fmdrop k m) j = (if j = k then None else fmlookup m j)"
  by simp

lemma fmdom_iff_lookup: "k |\<in>| fmdom m \<longleftrightarrow> fmlookup m k \<noteq> None"
  by (auto simp: fmlookup_dom_iff)

lemma fmupd_same: "fmlookup m k = Some v \<Longrightarrow> fmupd k v m = m"
  by (rule fmap_ext) auto

lemma fmdrop_fmupd_undo: "fmlookup m k = None \<Longrightarrow> fmdrop k (fmupd k v m) = m"
  by (rule fmap_ext) simp

lemma fminus_finsert_undo: "x |\<notin>| A \<Longrightarrow> finsert x A |-| {|x|} = A"
  by auto

lemma fcard_fmdom_fmupd:
  "fcard (fmdom (fmupd k v m)) = (if fmlookup m k = None then Suc (fcard (fmdom m)) else fcard (fmdom m))"
  by (simp add: fcard_finsert_if fmdom_iff_lookup)

lemma fcard_fmdom_fmdrop:
  "fcard (fmdom (fmdrop k m)) = (if fmlookup m k = None then fcard (fmdom m) else fcard (fmdom m) - 1)"
  by (simp add: fcard_fminus_fsingleton_if fmdom_iff_lookup)

lemma fcard_fmdom_pos: "fmlookup m k = Some v \<Longrightarrow> 0 < fcard (fmdom m)"
  by (metis bot_nat_0.not_eq_extremum fcard_0_eq fempty_iff fmdomI)

lemma int_fcard_fmdrop:
  "fmlookup m k = Some v \<Longrightarrow> int (fcard (fmdom m |-| {|k|})) = int (fcard (fmdom m)) - 1"
  using fcard_fmdom_pos [of m k v] by (simp add: fcard_fminus_fsingleton_if fmdom_iff_lookup of_nat_diff)

section \<open>Lists\<close>

lemma distinct_concat_map:
  assumes "distinct xs" and "\<And>x. distinct (f x)"
    and "\<And>x y. x \<in> set xs \<Longrightarrow> y \<in> set xs \<Longrightarrow> x \<noteq> y \<Longrightarrow> set (f x) \<inter> set (f y) = {}"
  shows "distinct (concat (map f xs))"
  using assms by (induction xs) (simp_all, blast)

lemma foldl_snoc [simp]: "foldl (\<lambda>result x. result @ [x]) acc xs = acc @ xs"
  by (induction xs arbitrary: acc) simp_all

lemma fold_fold_concat: "fold (\<lambda>x. fold f (g x)) xs s = fold f (concat (map g xs)) s"
  by (induction xs arbitrary: s) simp_all

lemma fold_max_ge: "e \<in> set es \<or> e \<le> x \<Longrightarrow> (e :: 'a :: linorder) \<le> fold max es x"
proof (induction es arbitrary: x)
  case Nil
  then show ?case by simp
next
  case (Cons a es)
  then have "e \<in> set es \<or> e \<le> max a x" by (auto simp: le_max_iff_disj)
  then show ?case using Cons.IH by simp
qed

section \<open>The iteration order of a Go map\<close>

text \<open>
  \<open>for k := range m\<close> visits every key of \<open>m\<close> once, in an order the language leaves open. Every
  operation that ranges over a map takes that order as an argument: a function from the set of
  keys to the list in which they are visited. \<open>go_range\<close> says what the language promises of it.
\<close>

type_synonym range_order = "string fset \<Rightarrow> string list"

definition go_range :: "range_order \<Rightarrow> bool" where
  "go_range ord \<longleftrightarrow> (\<forall>S. distinct (ord S) \<and> fset_of_list (ord S) = S)"

lemma go_range_distinct [simp, intro]: "go_range ord \<Longrightarrow> distinct (ord S)"
  by (simp add: go_range_def)

lemma go_range_set [simp]: "go_range ord \<Longrightarrow> set (ord S) = fset S"
  by (metis fset_of_list.rep_eq go_range_def)

lemma go_range_empty [simp]: "go_range ord \<Longrightarrow> ord {||} = []"
  by (metis bot_fset.rep_eq go_range_set set_empty)

lemma go_range_Nil_iff [simp]: "go_range ord \<Longrightarrow> ord S = [] \<longleftrightarrow> S = {||}"
  by (metis bot_fset.rep_eq fset_inject go_range_set set_empty)

lemma go_range_length: "go_range ord \<Longrightarrow> length (ord S) = fcard S"
  by (metis distinct_card fcard.rep_eq go_range_distinct go_range_set)

lemma go_range_single [simp]: "go_range ord \<Longrightarrow> ord {|x|} = [x]"
proof -
  assume r: "go_range ord"
  have "set (ord {|x|}) = {x}" and "length (ord {|x|}) = 1"
    using r by (simp_all add: go_range_length fcard_finsert_if fcard_fempty)
  then show ?thesis
    by (metis One_nat_def length_0_conv length_Suc_conv list.set_intros(1) singletonD)
qed

text \<open>Visiting the keys in ascending order is one such order; the witnesses use it.\<close>

lemma go_range_sorted: "go_range sorted_list_of_fset"
  by (simp add: go_range_def) (simp add: sorted_list_of_fset.rep_eq)

section \<open>Systems with an inductive invariant\<close>

text \<open>
  A system has a set of start states and a step relation. An invariant that holds at the start
  and is kept by every step holds in every reachable state. The server models interpret this
  interface with their own step relations.
\<close>

inductive reachable_by :: "('s \<Rightarrow> bool) \<Rightarrow> ('s \<Rightarrow> 's \<Rightarrow> bool) \<Rightarrow> 's \<Rightarrow> bool"
  for init :: "'s \<Rightarrow> bool" and step :: "'s \<Rightarrow> 's \<Rightarrow> bool"
where
  reachable_init: "init s \<Longrightarrow> reachable_by init step s"
| reachable_step: "reachable_by init step s \<Longrightarrow> step s t \<Longrightarrow> reachable_by init step t"

locale inductive_invariant =
  fixes init :: "'s \<Rightarrow> bool"
    and step :: "'s \<Rightarrow> 's \<Rightarrow> bool"
    and inv :: "'s \<Rightarrow> bool"
  assumes inv_init: "init s \<Longrightarrow> inv s"
    and inv_step: "inv s \<Longrightarrow> step s t \<Longrightarrow> inv t"
begin

lemma inv_reachable: "reachable_by init step s \<Longrightarrow> inv s"
  by (induction rule: reachable_by.induct) (auto intro: inv_init inv_step)

end

section \<open>Systems that come to an end\<close>

text \<open>
  A system whose every step uses up work has no infinite run, and from every state it can only be
  run into a state without a successor.
\<close>

locale terminating =
  fixes step :: "'s \<Rightarrow> 's \<Rightarrow> bool"
    and work :: "'s \<Rightarrow> nat"
  assumes work_decreases: "step s t \<Longrightarrow> work t < work s"
begin

lemma run_length: "(\<And>k. k < n \<Longrightarrow> step (f k) (f (Suc k))) \<Longrightarrow> n + work (f n) \<le> work (f 0)"
proof (induction n)
  case 0
  then show ?case by simp
next
  case (Suc n)
  then have "n + work (f n) \<le> work (f 0)" by simp
  moreover have "work (f (Suc n)) < work (f n)" using Suc.prems [of n] by (simp add: work_decreases)
  ultimately show ?case by simp
qed

lemma no_infinite_run: "\<not> (\<forall>k. step (f k) (f (Suc k)))"
  using run_length [of "Suc (work (f 0))" f] by fastforce

lemma reaches_end: "\<exists>t. rtranclp step s t \<and> (\<forall>u. \<not> step t u)"
proof (induction "work s" arbitrary: s rule: less_induct)
  case less
  show ?case
  proof (cases "\<exists>u. step s u")
    case True
    then obtain u where u: "step s u" by blast
    then obtain t where "rtranclp step u t" "\<forall>v. \<not> step t v" using less work_decreases by blast
    with u show ?thesis by (meson converse_rtranclp_into_rtranclp)
  next
    case False
    then show ?thesis by blast
  qed
qed

end

section \<open>Bounded queues with a non-blocking send\<close>

text \<open>
  A buffered channel that is written in a \<open>select\<close> with a \<open>default\<close> branch: the message is
  appended when there is room and is dropped otherwise. Four components send this way; each
  provides \<open>content\<close> (the messages queued), \<open>capacity\<close> and \<open>send\<close>.
\<close>

locale bounded_queue =
  fixes content :: "'q \<Rightarrow> 'm list"
    and capacity :: "'q \<Rightarrow> nat"
    and send :: "'q \<Rightarrow> 'm \<Rightarrow> 'q"
  assumes content_send:
      "content (send q m) = (if length (content q) < capacity q then content q @ [m] else content q)"
    and capacity_send: "capacity (send q m) = capacity q"
begin

lemma capacity_sends: "capacity (foldl send q ms) = capacity q"
  by (induction ms arbitrary: q) (simp_all add: capacity_send)

text \<open>Any sequence of sends keeps a prefix of it, in order, and drops the rest.\<close>

lemma content_sends:
  "content (foldl send q ms) = content q @ take (capacity q - length (content q)) ms"
proof (induction ms arbitrary: q)
  case Nil
  then show ?case by simp
next
  case (Cons m ms)
  show ?case
  proof (cases "length (content q) < capacity q")
    case True
    then have "capacity q - length (content q) = Suc (capacity q - Suc (length (content q)))"
      by simp
    with True show ?thesis by (simp add: Cons content_send capacity_send)
  next
    case False
    then show ?thesis by (simp add: Cons content_send capacity_send)
  qed
qed

lemma within_capacity:
  "length (content q) \<le> capacity q \<Longrightarrow> length (content (foldl send q ms)) \<le> capacity q"
  by (simp add: content_sends)

lemma nothing_dropped:
  "length (content q) + length ms \<le> capacity q \<Longrightarrow> content (foldl send q ms) = content q @ ms"
  by (simp add: content_sends)

end

end
