(* ===== verification/Go_Runtime.thy ===== *)
theory Go_Runtime
  imports Prelude
begin

text \<open>
  What the sources use of the Go language and its standard library: run-time faults, buffered
  channels, \<open>time\<close>, \<open>encoding/binary\<close>, \<open>strconv.Itoa\<close>, iteration over the runes of a string,
  \<open>hash/crc32\<close> and \<open>sort.Search\<close>. None of it is code of the repository; the component theories
  build on it.
\<close>

unbundle bit_operations_syntax

section \<open>Faults\<close>

text \<open>
  A goroutine that panics or that waits for a lock its own call stack holds does not go on. A
  computation that can end this way returns \<open>Inl\<close> of the fault.
\<close>

datatype fault = Panic string | Deadlock string

type_synonym 'a go = "fault + 'a"

definition go_bind :: "'a go \<Rightarrow> ('a \<Rightarrow> 'b go) \<Rightarrow> 'b go" where
  "go_bind m f = (case m of Inl e \<Rightarrow> Inl e | Inr a \<Rightarrow> f a)"

lemma go_bind_simps [simp]: "go_bind (Inl e) f = Inl e" "go_bind (Inr a) f = f a"
  by (simp_all add: go_bind_def)

lemma go_bind_Inr_iff: "go_bind m f = Inr b \<longleftrightarrow> (\<exists>a. m = Inr a \<and> f a = Inr b)"
  by (cases m) simp_all

fun go_fold :: "('a \<Rightarrow> 's \<Rightarrow> 's go) \<Rightarrow> 'a list \<Rightarrow> 's \<Rightarrow> 's go" where
  "go_fold f [] s = Inr s"
| "go_fold f (x # xs) s = go_bind (f x s) (go_fold f xs)"

lemma go_fold_append: "go_fold f (xs @ ys) s = go_bind (go_fold f xs s) (go_fold f ys)"
proof (induction xs arbitrary: s)
  case Nil
  then show ?case by (simp add: go_bind_def)
next
  case (Cons x xs)
  then show ?case by (cases "f x s") (simp_all add: go_bind_def)
qed

section \<open>Channels\<close>

text \<open>
  A buffered channel: the queued values, oldest first, its capacity, and whether it was closed.
  \<open>try_send\<close> is the send case of a \<open>select\<close> with a \<open>default\<close> branch: it returns whether the
  value was queued. Sending on a closed channel and closing it twice panic.
\<close>

record 'a chan =
  buf :: "'a list"
  cap :: nat
  shut :: bool

definition make_chan :: "nat \<Rightarrow> 'a chan" where
  "make_chan n = \<lparr>buf = [], cap = n, shut = False\<rparr>"

definition try_send :: "'a \<Rightarrow> 'a chan \<Rightarrow> ('a chan \<times> bool) go" where
  "try_send x c =
     (if shut c then Inl (Panic ''send on closed channel'')
      else if length (buf c) < cap c then Inr (c\<lparr>buf := buf c @ [x]\<rparr>, True)
      else Inr (c, False))"

definition close_chan :: "'a chan \<Rightarrow> 'a chan go" where
  "close_chan c = (if shut c then Inl (Panic ''close of closed channel'') else Inr (c\<lparr>shut := True\<rparr>))"

section \<open>Time\<close>

text \<open>
  An instant is an integer number of nanoseconds relative to the Unix epoch. The zero
  \<open>time.Time\<close> is the start of year 1. \<open>time.Since\<close> saturates at the bounds of a 64-bit
  \<open>time.Duration\<close>. The current instant is an argument of every operation that reads the clock.
\<close>

type_synonym instant = int
type_synonym duration = int

definition zero_time :: instant where
  "zero_time = - 62135596800000000000"

definition max_duration :: duration where
  "max_duration = 9223372036854775807"

definition min_duration :: duration where
  "min_duration = - 9223372036854775808"

definition time_since :: "instant \<Rightarrow> instant \<Rightarrow> duration" where
  "time_since now t = max min_duration (min max_duration (now - t))"

abbreviation second :: duration where
  "second \<equiv> 1000000000"

abbreviation millisecond :: duration where
  "millisecond \<equiv> 1000000"

section \<open>encoding/binary: big-endian integers\<close>

definition PutUint32 :: "uint32 \<Rightarrow> bytes" where
  "PutUint32 v = [ucast (drop_bit 24 v), ucast (drop_bit 16 v), ucast (drop_bit 8 v), ucast v]"

definition Uint32 :: "bytes \<Rightarrow> uint32" where
  "Uint32 b = ucast (b ! 3) OR push_bit 8 (ucast (b ! 2)) OR push_bit 16 (ucast (b ! 1))
     OR push_bit 24 (ucast (b ! 0))"

definition PutUint64 :: "uint64 \<Rightarrow> bytes" where
  "PutUint64 v = [ucast (drop_bit 56 v), ucast (drop_bit 48 v), ucast (drop_bit 40 v),
     ucast (drop_bit 32 v), ucast (drop_bit 24 v), ucast (drop_bit 16 v), ucast (drop_bit 8 v), ucast v]"

definition Uint64 :: "bytes \<Rightarrow> uint64" where
  "Uint64 b = ucast (b ! 7) OR push_bit 8 (ucast (b ! 6)) OR push_bit 16 (ucast (b ! 5))
     OR push_bit 24 (ucast (b ! 4)) OR push_bit 32 (ucast (b ! 3)) OR push_bit 40 (ucast (b ! 2))
     OR push_bit 48 (ucast (b ! 1)) OR push_bit 56 (ucast (b ! 0))"

section \<open>strconv and strings\<close>

definition digit :: "nat \<Rightarrow> char" where
  "digit d = char_of (48 + d)"

fun decimal :: "nat \<Rightarrow> string" where
  "decimal n = (if n < 10 then [digit n] else decimal (n div 10) @ [digit (n mod 10)])"

declare decimal.simps [simp del]

definition Itoa :: "int \<Rightarrow> string" where
  "Itoa i = (if i < 0 then CHR ''-'' # decimal (nat (- i)) else decimal (nat i))"

text \<open>
  \<open>for _, c := range s\<close> decodes UTF-8: \<open>utf8_size\<close> is the length the first byte announces (0 for
  a byte that starts no sequence), \<open>utf8_accept\<close> the range of the second byte, and an ill-formed
  prefix yields U+FFFD and advances by one byte.
\<close>

definition rune_error :: nat where
  "rune_error = 65533"

definition utf8_size :: "nat \<Rightarrow> nat" where
  "utf8_size b =
     (if b < 128 then 1 else if b < 194 then 0 else if b < 224 then 2 else if b < 240 then 3
      else if b < 245 then 4 else 0)"

definition utf8_accept :: "nat \<Rightarrow> nat \<Rightarrow> bool" where
  "utf8_accept b c \<longleftrightarrow>
     (if b = 224 then 160 else if b = 240 then 144 else 128) \<le> c \<and>
     c \<le> (if b = 237 then 159 else if b = 244 then 143 else 191)"

definition utf8_cont :: "nat \<Rightarrow> bool" where
  "utf8_cont c \<longleftrightarrow> 128 \<le> c \<and> c \<le> 191"

fun DecodeRune :: "nat list \<Rightarrow> nat \<times> nat" where
  "DecodeRune [] = (rune_error, 0)"
| "DecodeRune (b # bs) =
     (let n = utf8_size b in
      if n = 1 then (b, 1)
      else if n = 0 \<or> length (b # bs) < n \<or> \<not> utf8_accept b (bs ! 0) then (rune_error, 1)
      else if n = 2 then ((b mod 32) * 64 + bs ! 0 mod 64, 2)
      else if \<not> utf8_cont (bs ! 1) then (rune_error, 1)
      else if n = 3 then ((b mod 16) * 4096 + (bs ! 0 mod 64) * 64 + bs ! 1 mod 64, 3)
      else if \<not> utf8_cont (bs ! 2) then (rune_error, 1)
      else ((b mod 8) * 262144 + (bs ! 0 mod 64) * 4096 + (bs ! 1 mod 64) * 64 + bs ! 2 mod 64, 4))"

lemma DecodeRune_width: "bs \<noteq> [] \<Longrightarrow> 0 < snd (DecodeRune bs)"
  by (cases bs) (simp_all add: Let_def)

function runes_of :: "nat list \<Rightarrow> nat list" where
  "runes_of bs = (if bs = [] then [] else fst (DecodeRune bs) # runes_of (drop (snd (DecodeRune bs)) bs))"
  by pat_completeness auto
termination
  by (relation "measure length") (auto simp: DecodeRune_width)

declare runes_of.simps [simp del]

definition runes :: "string \<Rightarrow> nat list" where
  "runes s = runes_of (map of_char s)"

section \<open>hash/crc32 with the IEEE polynomial\<close>

definition crc_poly :: uint32 where
  "crc_poly = 0xEDB88320"

definition crc_bit :: "uint32 \<Rightarrow> uint32" where
  "crc_bit c = (if c AND 1 = 1 then drop_bit 1 c XOR crc_poly else drop_bit 1 c)"

definition crc_byte :: "uint32 \<Rightarrow> uint32 \<Rightarrow> uint32" where
  "crc_byte c b = (crc_bit ^^ 8) (c XOR b)"

definition ChecksumIEEE :: "string \<Rightarrow> uint32" where
  "ChecksumIEEE s = NOT (foldl crc_byte (NOT 0) (map of_char s))"

section \<open>sort.Search\<close>

function search_loop :: "(nat \<Rightarrow> bool) \<Rightarrow> nat \<Rightarrow> nat \<Rightarrow> nat" where
  "search_loop f i j =
     (if i < j then
        (let h = (i + j) div 2 in if \<not> f h then search_loop f (h + 1) j else search_loop f i h)
      else i)"
  by pat_completeness auto
termination
  by (relation "measure (\<lambda>(f, i, j). j - i)") auto

declare search_loop.simps [simp del]

definition Search :: "nat \<Rightarrow> (nat \<Rightarrow> bool) \<Rightarrow> nat" where
  "Search n f = search_loop f 0 n"

section \<open>Lemmas\<close>

lemma length_PutUint [simp]: "length (PutUint32 v) = 4" "length (PutUint64 w) = 8"
  by (simp_all add: PutUint32_def PutUint64_def)

text \<open>Each byte of an encoded integer carries eight bits of it.\<close>

lemma bit_field32:
  "k \<le> 24 \<Longrightarrow> bit (push_bit k (ucast (ucast (drop_bit k (v :: uint32)) :: byte)) :: uint32) n
     \<longleftrightarrow> k \<le> n \<and> n < k + 8 \<and> bit v n"
  by (auto simp: bit_simps dest: bit_imp_le_length)

lemma bit_field64:
  "k \<le> 56 \<Longrightarrow> bit (push_bit k (ucast (ucast (drop_bit k (v :: uint64)) :: byte)) :: uint64) n
     \<longleftrightarrow> k \<le> n \<and> n < k + 8 \<and> bit v n"
  by (auto simp: bit_simps dest: bit_imp_le_length)

lemma bit_low_field:
  "bit (ucast (ucast (v :: uint32) :: byte) :: uint32) n \<longleftrightarrow> n < 8 \<and> bit v n"
  "bit (ucast (ucast (w :: uint64) :: byte) :: uint64) n \<longleftrightarrow> n < 8 \<and> bit w n"
  by (auto simp: bit_simps dest: bit_imp_le_length)

lemma Uint32_PutUint32 [simp]: "Uint32 (PutUint32 v) = v"
proof (rule bit_word_eqI)
  fix n assume "n < LENGTH(32)"
  then have "n < 32" by simp
  then show "bit (Uint32 (PutUint32 v)) n = bit v n"
    unfolding Uint32_def PutUint32_def
    by (simp add: bit_or_iff bit_field32 bit_low_field) linarith
qed

lemma Uint64_PutUint64 [simp]: "Uint64 (PutUint64 v) = v"
proof (rule bit_word_eqI)
  fix n assume "n < LENGTH(64)"
  then have "n < 64" by simp
  then show "bit (Uint64 (PutUint64 v)) n = bit v n"
    unfolding Uint64_def PutUint64_def
    by (simp add: bit_or_iff bit_field64 bit_low_field) linarith
qed

lemma PutUint32_Uint32: "length b = 4 \<Longrightarrow> PutUint32 (Uint32 b) = b"
proof -
  assume "length b = 4"
  then have "length b = Suc (Suc (Suc (Suc 0)))" by simp
  then obtain b0 b1 b2 b3 where b: "b = [b0, b1, b2, b3]"
    by (auto simp: length_Suc_conv)
  have "ucast (drop_bit 24 (Uint32 b)) = b0" "ucast (drop_bit 16 (Uint32 b)) = b1"
    "ucast (drop_bit 8 (Uint32 b)) = b2" "ucast (Uint32 b) = b3"
    by (rule bit_word_eqI; auto simp: b Uint32_def bit_simps dest: bit_imp_le_length)+
  then show ?thesis by (simp add: PutUint32_def b)
qed

lemma PutUint64_Uint64: "length b = 8 \<Longrightarrow> PutUint64 (Uint64 b) = b"
proof -
  assume "length b = 8"
  then have "length b = Suc (Suc (Suc (Suc (Suc (Suc (Suc (Suc 0)))))))" by simp
  then obtain b0 b1 b2 b3 b4 b5 b6 b7 where b: "b = [b0, b1, b2, b3, b4, b5, b6, b7]"
    by (auto simp: length_Suc_conv)
  have "ucast (drop_bit 56 (Uint64 b)) = b0" "ucast (drop_bit 48 (Uint64 b)) = b1"
    "ucast (drop_bit 40 (Uint64 b)) = b2" "ucast (drop_bit 32 (Uint64 b)) = b3"
    "ucast (drop_bit 24 (Uint64 b)) = b4" "ucast (drop_bit 16 (Uint64 b)) = b5"
    "ucast (drop_bit 8 (Uint64 b)) = b6" "ucast (Uint64 b) = b7"
    by (rule bit_word_eqI; auto simp: b Uint64_def bit_simps dest: bit_imp_le_length)+
  then show ?thesis by (simp add: PutUint64_def b)
qed

text \<open>
  Binary search finds the least index at which a monotone predicate holds, and the length when
  it holds nowhere.
\<close>

lemma search_loop_least:
  assumes "i \<le> j" and "j \<le> n" and mono: "\<And>a b. a \<le> b \<Longrightarrow> b < n \<Longrightarrow> f a \<Longrightarrow> f b"
    and "\<And>h. h < i \<Longrightarrow> \<not> f h" and "\<And>h. j \<le> h \<Longrightarrow> h < n \<Longrightarrow> f h"
  shows "search_loop f i j \<le> n \<and> (\<forall>h < search_loop f i j. \<not> f h)
    \<and> (search_loop f i j < n \<longrightarrow> f (search_loop f i j))"
  using assms
proof (induction f i j rule: search_loop.induct)
  case (1 f i j)
  show ?case
  proof (cases "i < j")
    case False
    then have "search_loop f i j = i" by (subst search_loop.simps) simp
    with False "1.prems" show ?thesis by (auto simp: not_less)
  next
    case True
    define h where "h = (i + j) div 2"
    have h: "i \<le> h" "h < j" using True by (auto simp: h_def)
    show ?thesis
    proof (cases "f h")
      case True
      have "search_loop f i j = search_loop f i h"
        using \<open>i < j\<close> True by (subst search_loop.simps) (simp add: h_def Let_def)
      moreover have "search_loop f i h \<le> n \<and> (\<forall>k < search_loop f i h. \<not> f k)
          \<and> (search_loop f i h < n \<longrightarrow> f (search_loop f i h))"
        using \<open>i < j\<close> True h "1.prems" by (intro "1.IH"(2) [OF _ h_def]) (auto intro: "1.prems"(3))
      ultimately show ?thesis by simp
    next
      case False
      have "search_loop f i j = search_loop f (h + 1) j"
        using \<open>i < j\<close> False by (subst search_loop.simps) (simp add: h_def Let_def)
      moreover have "\<not> f k" if "k < h + 1" for k
        using that False h "1.prems"(2,3) by (metis Suc_eq_plus1 le_trans less_Suc_eq_le less_le_trans)
      then have "search_loop f (h + 1) j \<le> n \<and> (\<forall>k < search_loop f (h + 1) j. \<not> f k)
          \<and> (search_loop f (h + 1) j < n \<longrightarrow> f (search_loop f (h + 1) j))"
        using \<open>i < j\<close> False h "1.prems" by (intro "1.IH"(1) [OF _ h_def]) auto
      ultimately show ?thesis by simp
    qed
  qed
qed

lemma Search_least:
  assumes "\<forall>a b. a \<le> b \<longrightarrow> b < n \<longrightarrow> f a \<longrightarrow> f b"
  shows "Search n f \<le> n \<and> (\<forall>h < Search n f. \<not> f h) \<and> (Search n f < n \<longrightarrow> f (Search n f))"
  unfolding Search_def using assms by (intro search_loop_least) auto

text \<open>On ASCII text the runes of a string are its bytes.\<close>

lemma runes_of_ascii: "list_all (\<lambda>b. b < 128) bs \<Longrightarrow> runes_of bs = bs"
proof (induction bs)
  case Nil
  then show ?case by (simp add: runes_of.simps)
next
  case (Cons b bs)
  then show ?case by (subst runes_of.simps) (simp add: utf8_size_def Let_def)
qed

text \<open>The published check value of CRC-32/IEEE.\<close>

lemma crc_byte_unfold:
  "crc_byte c b = crc_bit (crc_bit (crc_bit (crc_bit (crc_bit (crc_bit (crc_bit (crc_bit (c XOR b))))))))"
  by (simp add: crc_byte_def eval_nat_numeral)

lemmas crc_eval = ChecksumIEEE_def crc_byte_unfold crc_bit_def crc_poly_def

lemma ChecksumIEEE_check: "ChecksumIEEE ''123456789'' = 0xCBF43926"
  by (simp add: crc_eval)

end
