(* ===== verification/Protocol.thy ===== *)
theory Protocol
  imports Go_Runtime
begin

text \<open>
  The vocabulary of \<open>internal/protocol\<close>: message types, priorities and states
  (\<open>message.go\<close>), error codes and their texts (\<open>errors.go\<close>), the structs that gateway and
  roomserver exchange (\<open>internal_msg.go\<close>), and the msgpack codec (\<open>codec.go\<close>). The codec is a
  third-party package: it is an argument (a record of functions) of every definition that
  encodes or decodes, and \<open>codec_ok\<close> states what the code relies on.
\<close>

section \<open>Message types (message.go)\<close>

definition MsgTypeAuth :: uint32 where "MsgTypeAuth = 0x0001"
definition MsgTypeJoinRoom :: uint32 where "MsgTypeJoinRoom = 0x0002"
definition MsgTypeLeaveRoom :: uint32 where "MsgTypeLeaveRoom = 0x0003"
definition MsgTypeResume :: uint32 where "MsgTypeResume = 0x0004"
definition MsgTypeBizRequest :: uint32 where "MsgTypeBizRequest = 0x0010"
definition MsgTypeHeartbeat :: uint32 where "MsgTypeHeartbeat = 0x00FF"

definition MsgTypeAuthResp :: uint32 where "MsgTypeAuthResp = 0x1001"
definition MsgTypeJoinRoomResp :: uint32 where "MsgTypeJoinRoomResp = 0x1002"
definition MsgTypeLeaveRoomResp :: uint32 where "MsgTypeLeaveRoomResp = 0x1003"
definition MsgTypeResumeResp :: uint32 where "MsgTypeResumeResp = 0x1004"
definition MsgTypePushMessage :: uint32 where "MsgTypePushMessage = 0x1010"
definition MsgTypeBizResponse :: uint32 where "MsgTypeBizResponse = 0x1011"
definition MsgTypeHeartbeatResp :: uint32 where "MsgTypeHeartbeatResp = 0x10FF"

definition InternalMsgJoinRoom :: uint32 where "InternalMsgJoinRoom = 0x2001"
definition InternalMsgLeaveRoom :: uint32 where "InternalMsgLeaveRoom = 0x2002"
definition InternalMsgResume :: uint32 where "InternalMsgResume = 0x2003"
definition InternalMsgBatchReSync :: uint32 where "InternalMsgBatchReSync = 0x2004"
definition InternalMsgGatewayInfo :: uint32 where "InternalMsgGatewayInfo = 0x2005"
definition InternalMsgBatchLeave :: uint32 where "InternalMsgBatchLeave = 0x2006"
definition InternalMsgReSyncComplete :: uint32 where "InternalMsgReSyncComplete = 0x2007"
definition InternalMsgDisconnect :: uint32 where "InternalMsgDisconnect = 0x2008"

definition InternalMsgJoinRoomAck :: uint32 where "InternalMsgJoinRoomAck = 0x3001"
definition InternalMsgBroadcast :: uint32 where "InternalMsgBroadcast = 0x3002"
definition InternalMsgUnicast :: uint32 where "InternalMsgUnicast = 0x3003"
definition InternalMsgEpochNotify :: uint32 where "InternalMsgEpochNotify = 0x3004"
definition InternalMsgRoomClose :: uint32 where "InternalMsgRoomClose = 0x3005"
definition InternalMsgMulticast :: uint32 where "InternalMsgMulticast = 0x3006"

lemmas client_msg_types =
  MsgTypeAuth_def MsgTypeJoinRoom_def MsgTypeLeaveRoom_def MsgTypeResume_def
  MsgTypeBizRequest_def MsgTypeHeartbeat_def MsgTypeAuthResp_def MsgTypeJoinRoomResp_def
  MsgTypeLeaveRoomResp_def MsgTypeResumeResp_def MsgTypePushMessage_def MsgTypeBizResponse_def
  MsgTypeHeartbeatResp_def

lemmas internal_msg_types =
  InternalMsgJoinRoom_def InternalMsgLeaveRoom_def InternalMsgResume_def
  InternalMsgBatchReSync_def InternalMsgGatewayInfo_def InternalMsgBatchLeave_def
  InternalMsgReSyncComplete_def InternalMsgDisconnect_def InternalMsgJoinRoomAck_def
  InternalMsgBroadcast_def InternalMsgUnicast_def InternalMsgEpochNotify_def
  InternalMsgRoomClose_def InternalMsgMulticast_def

text \<open>\<open>MessagePriority\<close> is an \<open>int\<close> and is compared as one: a larger number is less urgent.\<close>

type_synonym MessagePriority = int

definition PriorityCritical :: MessagePriority where "PriorityCritical = 0"
definition PriorityHigh :: MessagePriority where "PriorityHigh = 1"
definition PriorityNormal :: MessagePriority where "PriorityNormal = 2"
definition PriorityLow :: MessagePriority where "PriorityLow = 3"

lemmas priority_defs = PriorityCritical_def PriorityHigh_def PriorityNormal_def PriorityLow_def

datatype JoinState = JoinStateInit | JoinStatePending | JoinStateConfirmed

datatype MemberStatus = MemberStatusOnline | MemberStatusDisconnected

datatype ServerStatus = ServerStatusRecovering | ServerStatusReady

section \<open>Error codes (errors.go)\<close>

definition ErrCodeSuccess :: int where "ErrCodeSuccess = 0"
definition ErrCodeInternalError :: int where "ErrCodeInternalError = 1"
definition ErrCodeInvalidRequest :: int where "ErrCodeInvalidRequest = 2"
definition ErrCodeAuthFailed :: int where "ErrCodeAuthFailed = 1001"
definition ErrCodeTokenExpired :: int where "ErrCodeTokenExpired = 1002"
definition ErrCodeRoomNotFound :: int where "ErrCodeRoomNotFound = 2001"
definition ErrCodeUserNotInRoom :: int where "ErrCodeUserNotInRoom = 2002"
definition ErrCodeRoomClosed :: int where "ErrCodeRoomClosed = 2003"
definition ErrCodeRoomMismatch :: int where "ErrCodeRoomMismatch = 2004"
definition ErrCodeOwnerUnavailable :: int where "ErrCodeOwnerUnavailable = 3001"
definition ErrCodeHeartbeatMismatch :: int where "ErrCodeHeartbeatMismatch = 4001"
definition ErrCodeHeartbeatNotInRoom :: int where "ErrCodeHeartbeatNotInRoom = 4002"
definition ErrCodeServiceRecovering :: int where "ErrCodeServiceRecovering = 5001"
definition ErrCodeServiceDegraded :: int where "ErrCodeServiceDegraded = 5002"
definition ErrCodeServiceOverloaded :: int where "ErrCodeServiceOverloaded = 5003"

lemmas err_codes =
  ErrCodeSuccess_def ErrCodeInternalError_def ErrCodeInvalidRequest_def ErrCodeAuthFailed_def
  ErrCodeTokenExpired_def ErrCodeRoomNotFound_def ErrCodeUserNotInRoom_def ErrCodeRoomClosed_def
  ErrCodeRoomMismatch_def ErrCodeOwnerUnavailable_def ErrCodeHeartbeatMismatch_def
  ErrCodeHeartbeatNotInRoom_def ErrCodeServiceRecovering_def ErrCodeServiceDegraded_def
  ErrCodeServiceOverloaded_def

definition ErrCodeMessage_table :: "(int \<times> string) list" where
  "ErrCodeMessage_table =
    [(ErrCodeSuccess, ''success''), (ErrCodeInternalError, ''internal_error''),
     (ErrCodeInvalidRequest, ''invalid_request''), (ErrCodeAuthFailed, ''auth_failed''),
     (ErrCodeTokenExpired, ''token_expired''), (ErrCodeRoomNotFound, ''room_not_found''),
     (ErrCodeUserNotInRoom, ''user_not_in_room''), (ErrCodeRoomClosed, ''room_closed''),
     (ErrCodeRoomMismatch, ''room_mismatch''), (ErrCodeOwnerUnavailable, ''owner_unavailable''),
     (ErrCodeHeartbeatMismatch, ''heartbeat_mismatch''),
     (ErrCodeHeartbeatNotInRoom, ''heartbeat_not_in_room''),
     (ErrCodeServiceRecovering, ''service_recovering''),
     (ErrCodeServiceDegraded, ''service_degraded''),
     (ErrCodeServiceOverloaded, ''service_overloaded'')]"

text \<open>A lookup in a Go map yields the empty string for a code that has no entry.\<close>

definition ErrCodeMessage :: "int \<Rightarrow> string" where
  "ErrCodeMessage code = (case map_of ErrCodeMessage_table code of Some m \<Rightarrow> m | None \<Rightarrow> '''')"

section \<open>Messages between gateway and roomserver (internal\_msg.go)\<close>

record JoinRoomRequest =
  jr_UserID :: user_id
  jr_RoomID :: room_id
  jr_GatewayID :: gateway_id

record LeaveRoomRequest =
  lr_UserID :: user_id
  lr_RoomID :: room_id

record ResumeRequest =
  rr_UserID :: user_id
  rr_RoomID :: room_id
  rr_GatewayID :: gateway_id

record UserRoomPair =
  up_UserID :: user_id
  up_RoomID :: room_id

record BatchReSync =
  br_GatewayID :: gateway_id
  br_Users :: "UserRoomPair list"

record ReSyncComplete =
  rc_GatewayID :: gateway_id
  rc_TotalUsers :: nat

record DisconnectNotify =
  dn_UserID :: user_id
  dn_RoomID :: room_id
  dn_GatewayID :: gateway_id
  dn_Timestamp :: instant

record GatewayInfo =
  gi_GatewayID :: gateway_id
  gi_Addr :: string
  gi_Connections :: nat

record JoinRoomAck =
  ja_UserID :: user_id
  ja_RoomID :: room_id
  ja_Success :: bool
  ja_Code :: int
  ja_Message :: string

record BroadcastMessage =
  bm_RoomID :: room_id
  bm_Seq :: uint64
  bm_Payload :: bytes

record UnicastMessage =
  um_UserID :: user_id
  um_Payload :: bytes

record MulticastMessage =
  mm_RoomID :: room_id
  mm_UserIDs :: "user_id list"
  mm_Payload :: bytes

record EpochNotify =
  en_ServerID :: string
  en_Epoch :: uint64
  en_Timestamp :: int

record RoomCloseNotify =
  rn_RoomID :: room_id
  rn_Reason :: string

text \<open>The gRPC envelope of \<open>api/proto\<close>.\<close>

record Envelope =
  env_MsgType :: uint32
  env_Payload :: bytes

section \<open>The codec (codec.go)\<close>

text \<open>
  \<open>Encode\<close> takes any of the structs above or one of the anonymous structs of the gateway's
  responses, which are the constructors here. It returns the bytes, or nothing on an error.
  Each \<open>Decode\<close> target type has a function of its own.
\<close>

datatype wire =
    WJoinRoomRequest JoinRoomRequest
  | WLeaveRoomRequest LeaveRoomRequest
  | WResumeRequest ResumeRequest
  | WBatchReSync BatchReSync
  | WReSyncComplete ReSyncComplete
  | WDisconnectNotify DisconnectNotify
  | WGatewayInfo GatewayInfo
  | WJoinRoomAck JoinRoomAck
  | WBroadcastMessage BroadcastMessage
  | WUnicastMessage UnicastMessage
  | WMulticastMessage MulticastMessage
  | WEpochNotify EpochNotify
  | WRoomCloseNotify RoomCloseNotify
  | WCodeResp bool int string
  | WLeaveResp bool
  | WAuthResp bool user_id gateway_id int string
  | WPush string room_id user_id uint64 bytes

record codec =
  Marshal :: "wire \<Rightarrow> bytes option"
  decJoinRoomRequest :: "bytes \<Rightarrow> JoinRoomRequest option"
  decLeaveRoomRequest :: "bytes \<Rightarrow> LeaveRoomRequest option"
  decResumeRequest :: "bytes \<Rightarrow> ResumeRequest option"
  decBatchReSync :: "bytes \<Rightarrow> BatchReSync option"
  decReSyncComplete :: "bytes \<Rightarrow> ReSyncComplete option"
  decDisconnectNotify :: "bytes \<Rightarrow> DisconnectNotify option"
  decGatewayInfo :: "bytes \<Rightarrow> GatewayInfo option"
  decJoinRoomAck :: "bytes \<Rightarrow> JoinRoomAck option"
  decBroadcastMessage :: "bytes \<Rightarrow> BroadcastMessage option"
  decUnicastMessage :: "bytes \<Rightarrow> UnicastMessage option"
  decMulticastMessage :: "bytes \<Rightarrow> MulticastMessage option"
  decEpochNotify :: "bytes \<Rightarrow> EpochNotify option"
  decRoomCloseNotify :: "bytes \<Rightarrow> RoomCloseNotify option"
  decRoomReq :: "bytes \<Rightarrow> room_id option"
  decAuthReq :: "bytes \<Rightarrow> (string \<times> user_id) option"

text \<open>\<open>payload, _ := protocol.Encode(v)\<close>: the error is discarded and the payload is then nil.\<close>

definition Encode :: "codec \<Rightarrow> wire \<Rightarrow> bytes" where
  "Encode c v = (case Marshal c v of Some b \<Rightarrow> b | None \<Rightarrow> [])"

text \<open>
  What the code relies on: \<open>Unmarshal\<close> into the struct type that was marshalled gives the struct
  back. Stated for the messages between gateway and roomserver.
\<close>

definition codec_ok :: "codec \<Rightarrow> bool" where
  "codec_ok c \<longleftrightarrow>
     (\<forall>m. decJoinRoomRequest c (Encode c (WJoinRoomRequest m)) = Some m) \<and>
     (\<forall>m. decLeaveRoomRequest c (Encode c (WLeaveRoomRequest m)) = Some m) \<and>
     (\<forall>m. decResumeRequest c (Encode c (WResumeRequest m)) = Some m) \<and>
     (\<forall>m. decBatchReSync c (Encode c (WBatchReSync m)) = Some m) \<and>
     (\<forall>m. decReSyncComplete c (Encode c (WReSyncComplete m)) = Some m) \<and>
     (\<forall>m. decDisconnectNotify c (Encode c (WDisconnectNotify m)) = Some m) \<and>
     (\<forall>m. decGatewayInfo c (Encode c (WGatewayInfo m)) = Some m) \<and>
     (\<forall>m. decJoinRoomAck c (Encode c (WJoinRoomAck m)) = Some m) \<and>
     (\<forall>m. decBroadcastMessage c (Encode c (WBroadcastMessage m)) = Some m) \<and>
     (\<forall>m. decUnicastMessage c (Encode c (WUnicastMessage m)) = Some m) \<and>
     (\<forall>m. decMulticastMessage c (Encode c (WMulticastMessage m)) = Some m) \<and>
     (\<forall>m. decEpochNotify c (Encode c (WEpochNotify m)) = Some m) \<and>
     (\<forall>m. decRoomCloseNotify c (Encode c (WRoomCloseNotify m)) = Some m)"

lemma codec_okD [simp]:
  assumes "codec_ok c"
  shows "decJoinRoomRequest c (Encode c (WJoinRoomRequest m1)) = Some m1"
    and "decLeaveRoomRequest c (Encode c (WLeaveRoomRequest m2)) = Some m2"
    and "decResumeRequest c (Encode c (WResumeRequest m3)) = Some m3"
    and "decBatchReSync c (Encode c (WBatchReSync m4)) = Some m4"
    and "decReSyncComplete c (Encode c (WReSyncComplete m5)) = Some m5"
    and "decDisconnectNotify c (Encode c (WDisconnectNotify m6)) = Some m6"
    and "decGatewayInfo c (Encode c (WGatewayInfo m7)) = Some m7"
    and "decJoinRoomAck c (Encode c (WJoinRoomAck m8)) = Some m8"
    and "decBroadcastMessage c (Encode c (WBroadcastMessage m9)) = Some m9"
    and "decUnicastMessage c (Encode c (WUnicastMessage m10)) = Some m10"
    and "decMulticastMessage c (Encode c (WMulticastMessage m11)) = Some m11"
    and "decEpochNotify c (Encode c (WEpochNotify m12)) = Some m12"
    and "decRoomCloseNotify c (Encode c (WRoomCloseNotify m13)) = Some m13"
  using assms by (simp_all add: codec_ok_def)

end
