(* ===== verification/SessionService.thy ===== *)
theory SessionService
  imports Protocol
begin

text \<open>
  The session service of the roomserver (\<open>internal/roomserver/session_service.go\<close>): the
  user-side view of who is in which room on which gateway, kept in 256 shards that are selected
  by an FNV-1a hash of the user id. The theory shows that the sharded store behaves as one map
  from users to sessions, and that the enumeration and the count visit every session once.
  An instant argument \<open>now\<close> is the value \<open>time.Now()\<close> returns in the call.
\<close>

unbundle bit_operations_syntax

section \<open>State\<close>

definition SessionShardCount :: nat where
  "SessionShardCount = 256"

record Session =
  s_UserID :: user_id
  s_RoomID :: room_id
  s_GatewayID :: gateway_id
  s_Status :: MemberStatus
  s_ConnectedAt :: instant
  s_DisconnectedAt :: instant

record sessionShard =
  sessions :: "(user_id, Session) fmap"

record SessionService =
  shards :: "sessionShard list"

definition NewSessionService :: SessionService where
  "NewSessionService = \<lparr>shards = replicate SessionShardCount \<lparr>sessions = fmempty\<rparr>\<rparr>"

section \<open>Shard selection\<close>

definition fnv_step :: "uint32 \<Rightarrow> char \<Rightarrow> uint32" where
  "fnv_step h c = (h XOR of_char c) * 16777619"

definition fnvHash :: "string \<Rightarrow> uint32" where
  "fnvHash s = foldl fnv_step 2166136261 s"

definition shard_index :: "user_id \<Rightarrow> nat" where
  "shard_index userID = unat (fnvHash userID mod of_nat SessionShardCount)"

definition getShard :: "user_id \<Rightarrow> SessionService \<Rightarrow> sessionShard" where
  "getShard userID ss = shards ss ! shard_index userID"

text \<open>The writes of the service, under the lock of the user's shard.\<close>

definition put_session :: "user_id \<Rightarrow> Session \<Rightarrow> SessionService \<Rightarrow> SessionService" where
  "put_session userID session ss =
     ss\<lparr>shards := (shards ss)[shard_index userID :=
       \<lparr>sessions = fmupd userID session (sessions (getShard userID ss))\<rparr>]\<rparr>"

definition del_session :: "user_id \<Rightarrow> SessionService \<Rightarrow> SessionService" where
  "del_session userID ss =
     ss\<lparr>shards := (shards ss)[shard_index userID :=
       \<lparr>sessions = fmdrop userID (sessions (getShard userID ss))\<rparr>]\<rparr>"

section \<open>Operations\<close>

definition GetSession :: "user_id \<Rightarrow> SessionService \<Rightarrow> Session option" where
  "GetSession userID ss = fmlookup (sessions (getShard userID ss)) userID"

definition GetUserRoom :: "user_id \<Rightarrow> SessionService \<Rightarrow> room_id" where
  "GetUserRoom userID ss = (case GetSession userID ss of None \<Rightarrow> '''' | Some s \<Rightarrow> s_RoomID s)"

definition GetUserGateway :: "user_id \<Rightarrow> SessionService \<Rightarrow> gateway_id" where
  "GetUserGateway userID ss = (case GetSession userID ss of None \<Rightarrow> '''' | Some s \<Rightarrow> s_GatewayID s)"

definition new_session :: "user_id \<Rightarrow> room_id \<Rightarrow> gateway_id \<Rightarrow> instant \<Rightarrow> Session" where
  "new_session userID roomID gatewayID now =
     \<lparr>s_UserID = userID, s_RoomID = roomID, s_GatewayID = gatewayID, s_Status = MemberStatusOnline,
      s_ConnectedAt = now, s_DisconnectedAt = zero_time\<rparr>"

definition CreateSession ::
  "user_id \<Rightarrow> room_id \<Rightarrow> gateway_id \<Rightarrow> instant \<Rightarrow> SessionService \<Rightarrow> SessionService" where
  "CreateSession userID roomID gatewayID now ss =
     put_session userID (new_session userID roomID gatewayID now) ss"

definition UpdateSession ::
  "user_id \<Rightarrow> room_id \<Rightarrow> gateway_id \<Rightarrow> instant \<Rightarrow> SessionService \<Rightarrow> SessionService" where
  "UpdateSession userID roomID gatewayID now ss =
     (case GetSession userID ss of
        Some session \<Rightarrow>
          put_session userID
            (session\<lparr>s_RoomID := roomID, s_GatewayID := gatewayID,
               s_Status := MemberStatusOnline, s_DisconnectedAt := zero_time\<rparr>) ss
      | None \<Rightarrow> put_session userID (new_session userID roomID gatewayID now) ss)"

definition SetDisconnected :: "user_id \<Rightarrow> instant \<Rightarrow> SessionService \<Rightarrow> SessionService" where
  "SetDisconnected userID now ss =
     (case GetSession userID ss of
        Some session \<Rightarrow>
          put_session userID
            (session\<lparr>s_Status := MemberStatusDisconnected, s_DisconnectedAt := now\<rparr>) ss
      | None \<Rightarrow> ss)"

definition DeleteSession :: "user_id \<Rightarrow> SessionService \<Rightarrow> SessionService" where
  "DeleteSession userID ss = del_session userID ss"

definition CheckAndLeaveOldRoom :: "user_id \<Rightarrow> SessionService \<Rightarrow> room_id" where
  "CheckAndLeaveOldRoom userID ss =
     (case GetSession userID ss of None \<Rightarrow> '''' | Some s \<Rightarrow> s_RoomID s)"

definition IsUserOnline :: "user_id \<Rightarrow> SessionService \<Rightarrow> bool" where
  "IsUserOnline userID ss =
     (case GetSession userID ss of None \<Rightarrow> False | Some s \<Rightarrow> s_Status s = MemberStatusOnline)"

definition IsUserDisconnected :: "user_id \<Rightarrow> SessionService \<Rightarrow> bool" where
  "IsUserDisconnected userID ss =
     (case GetSession userID ss of None \<Rightarrow> False | Some s \<Rightarrow> s_Status s = MemberStatusDisconnected)"

definition GetDisconnectedDuration :: "user_id \<Rightarrow> instant \<Rightarrow> SessionService \<Rightarrow> duration" where
  "GetDisconnectedDuration userID now ss =
     (case GetSession userID ss of
        None \<Rightarrow> 0
      | Some s \<Rightarrow>
          if s_Status s \<noteq> MemberStatusDisconnected then 0 else time_since now (s_DisconnectedAt s))"

definition GetSessionCount :: "SessionService \<Rightarrow> nat" where
  "GetSessionCount ss =
     foldl (\<lambda>total i. total + fcard (fmdom (sessions (shards ss ! i)))) 0 [0..<SessionShardCount]"

definition GetAllUserIDs :: "range_order \<Rightarrow> SessionService \<Rightarrow> user_id list" where
  "GetAllUserIDs ord ss =
     foldl (\<lambda>result i. result @ ord (fmdom (sessions (shards ss ! i)))) [] [0..<SessionShardCount]"

section \<open>Keyed stores\<close>

text \<open>
  The interface the roomserver uses: a store that looks up, sets and deletes the value of a key
  and enumerates its keys. Its laws are those of one map; how the store is laid out is not part
  of them.
\<close>

locale keyed_store =
  fixes wf :: "'s \<Rightarrow> bool"
    and look :: "'k \<Rightarrow> 's \<Rightarrow> 'v option"
    and put :: "'k \<Rightarrow> 'v \<Rightarrow> 's \<Rightarrow> 's"
    and del :: "'k \<Rightarrow> 's \<Rightarrow> 's"
    and keys :: "'s \<Rightarrow> 'k list"
  assumes look_put: "wf s \<Longrightarrow> look j (put k v s) = (if j = k then Some v else look j s)"
    and look_del: "wf s \<Longrightarrow> look j (del k s) = (if j = k then None else look j s)"
    and wf_put: "wf s \<Longrightarrow> wf (put k v s)"
    and wf_del: "wf s \<Longrightarrow> wf (del k s)"
    and set_keys: "wf s \<Longrightarrow> set (keys s) = {k. look k s \<noteq> None}"
    and distinct_keys: "wf s \<Longrightarrow> distinct (keys s)"
begin

lemma mem_keys: "wf s \<Longrightarrow> k \<in> set (keys s) \<longleftrightarrow> look k s \<noteq> None"
  by (simp add: set_keys)

lemma length_keys: "wf s \<Longrightarrow> length (keys s) = card {k. look k s \<noteq> None}"
  by (metis distinct_card distinct_keys set_keys)

lemma length_keys_put:
  assumes "wf s"
  shows "length (keys (put k v s)) = (if look k s = None then Suc (length (keys s)) else length (keys s))"
proof -
  have "{j. look j (put k v s) \<noteq> None} = insert k {j. look j s \<noteq> None}"
    using assms by (auto simp: look_put)
  moreover have "finite {j. look j s \<noteq> None}"
    using assms by (metis List.finite_set set_keys)
  ultimately show ?thesis
    using assms by (simp add: length_keys wf_put card_insert_if)
qed

lemma length_keys_del:
  assumes "wf s"
  shows "length (keys (del k s)) = (if look k s = None then length (keys s) else length (keys s) - 1)"
proof -
  have "{j. look j (del k s) \<noteq> None} = {j. look j s \<noteq> None} - {k}"
    using assms by (auto simp: look_del)
  moreover have "finite {j. look j s \<noteq> None}"
    using assms by (metis List.finite_set set_keys)
  ultimately show ?thesis
    using assms by (simp add: length_keys wf_del card_Diff_singleton_if)
qed

end

section \<open>The sharded store is a keyed store\<close>

definition session_wf :: "SessionService \<Rightarrow> bool" where
  "session_wf ss \<longleftrightarrow> length (shards ss) = SessionShardCount \<and>
     (\<forall>i < SessionShardCount. \<forall>u. fmlookup (sessions (shards ss ! i)) u \<noteq> None \<longrightarrow> shard_index u = i)"

lemma shard_index_less: "shard_index u < SessionShardCount"
proof -
  have "shard_index u = unat (fnvHash u) mod 256"
    by (simp add: shard_index_def SessionShardCount_def unat_mod)
  then show ?thesis by (simp add: SessionShardCount_def)
qed

lemma session_wfD:
  assumes "session_wf ss" and "i < SessionShardCount" and "fmlookup (sessions (shards ss ! i)) u = Some s"
  shows "shard_index u = i"
  using assms by (simp add: session_wf_def)

lemma shard_index_shards [simp]: "session_wf ss \<Longrightarrow> shard_index u < length (shards ss)"
  by (simp add: session_wf_def shard_index_less)

lemma GetSession_put:
  "session_wf ss \<Longrightarrow> GetSession j (put_session k v ss) = (if j = k then Some v else GetSession j ss)"
  by (auto simp: GetSession_def put_session_def getShard_def nth_list_update)

lemma GetSession_del:
  "session_wf ss \<Longrightarrow> GetSession j (del_session k ss) = (if j = k then None else GetSession j ss)"
  by (auto simp: GetSession_def del_session_def getShard_def nth_list_update)

lemma session_wf_put: "session_wf ss \<Longrightarrow> session_wf (put_session k v ss)"
  by (auto simp: session_wf_def put_session_def getShard_def nth_list_update shard_index_less)

lemma session_wf_del: "session_wf ss \<Longrightarrow> session_wf (del_session k ss)"
  by (auto simp: session_wf_def del_session_def getShard_def nth_list_update shard_index_less)

lemma session_wf_New: "session_wf NewSessionService"
  by (simp add: session_wf_def NewSessionService_def)

lemma GetSession_New [simp]: "GetSession u NewSessionService = None"
  by (simp add: GetSession_def NewSessionService_def getShard_def shard_index_less)

lemma foldl_append_concat: "foldl (\<lambda>r i. r @ f i) acc xs = acc @ concat (map f xs)"
  by (induction xs arbitrary: acc) simp_all

lemma foldl_add_sum_list: "foldl (\<lambda>t i. t + f i) (acc :: nat) xs = acc + sum_list (map f xs)"
  by (induction xs arbitrary: acc) simp_all

lemma GetAllUserIDs_concat:
  "GetAllUserIDs ord ss = concat (map (\<lambda>i. ord (fmdom (sessions (shards ss ! i)))) [0..<SessionShardCount])"
  by (simp add: GetAllUserIDs_def foldl_append_concat)

lemma set_GetAllUserIDs:
  assumes "go_range ord" and "session_wf ss"
  shows "set (GetAllUserIDs ord ss) = {u. GetSession u ss \<noteq> None}"
proof -
  have "u \<in> set (GetAllUserIDs ord ss) \<longleftrightarrow>
      (\<exists>i < SessionShardCount. fmlookup (sessions (shards ss ! i)) u \<noteq> None)" for u
    using assms(1) by (auto simp: GetAllUserIDs_concat fmlookup_dom_iff)
  also have "\<dots> u \<longleftrightarrow> GetSession u ss \<noteq> None" for u
    using assms(2) shard_index_less [of u] by (auto simp: GetSession_def getShard_def session_wf_def)
  finally show ?thesis by auto
qed

lemma distinct_GetAllUserIDs:
  assumes "go_range ord" and "session_wf ss"
  shows "distinct (GetAllUserIDs ord ss)"
  unfolding GetAllUserIDs_concat
proof (rule distinct_concat_map)
  let ?f = "\<lambda>i. ord (fmdom (sessions (shards ss ! i)))"
  show "distinct (?f i)" for i
    using assms(1) by simp
  show "set (?f i) \<inter> set (?f j) = {}"
    if "i \<in> set [0..<SessionShardCount]" and "j \<in> set [0..<SessionShardCount]" and "i \<noteq> j" for i j
    using that assms(1) by (auto simp: fmlookup_dom_iff disjoint_iff) (metis assms(2) option.exhaust session_wfD)
qed simp

interpretation st: keyed_store session_wf GetSession put_session del_session "GetAllUserIDs sorted_list_of_fset"
  by unfold_locales
    (simp_all add: GetSession_put GetSession_del session_wf_put session_wf_del
      set_GetAllUserIDs distinct_GetAllUserIDs go_range_sorted)

lemma GetSessionCount_length:
  assumes "go_range ord"
  shows "GetSessionCount ss = length (GetAllUserIDs ord ss)"
  using assms
  by (simp add: GetSessionCount_def GetAllUserIDs_concat foldl_add_sum_list length_concat
      go_range_length o_def)

section \<open>Operations as updates of one map\<close>

lemma GetSession_CreateSession [session_simps]:
  "session_wf ss \<Longrightarrow> GetSession j (CreateSession u r g now ss) =
     (if j = u then Some (new_session u r g now) else GetSession j ss)"
  by (simp add: CreateSession_def st.look_put)

definition updated_session :: "user_id \<Rightarrow> room_id \<Rightarrow> gateway_id \<Rightarrow> instant \<Rightarrow> Session option \<Rightarrow> Session" where
  "updated_session u r g now old =
     (case old of None \<Rightarrow> new_session u r g now
      | Some s \<Rightarrow> s\<lparr>s_RoomID := r, s_GatewayID := g, s_Status := MemberStatusOnline,
          s_DisconnectedAt := zero_time\<rparr>)"

lemma updated_session_sel [simp]:
  "s_RoomID (updated_session u r g now old) = r"
  "s_GatewayID (updated_session u r g now old) = g"
  "s_Status (updated_session u r g now old) = MemberStatusOnline"
  by (simp_all add: updated_session_def new_session_def split: option.split)

lemma GetSession_UpdateSession [session_simps]:
  "session_wf ss \<Longrightarrow> GetSession j (UpdateSession u r g now ss) =
     (if j = u then Some (updated_session u r g now (GetSession u ss)) else GetSession j ss)"
  by (simp add: UpdateSession_def st.look_put updated_session_def split: option.split)

lemma GetSession_SetDisconnected [session_simps]:
  "session_wf ss \<Longrightarrow> GetSession j (SetDisconnected u now ss) =
     (if j = u then map_option (\<lambda>s. s\<lparr>s_Status := MemberStatusDisconnected, s_DisconnectedAt := now\<rparr>) (GetSession u ss)
      else GetSession j ss)"
  by (simp add: SetDisconnected_def st.look_put split: option.split)

lemma GetSession_DeleteSession [session_simps]:
  "session_wf ss \<Longrightarrow> GetSession j (DeleteSession u ss) = (if j = u then None else GetSession j ss)"
  by (simp add: DeleteSession_def st.look_del)

lemma session_wf_ops [simp]:
  assumes "session_wf ss"
  shows "session_wf (CreateSession u r g now ss)" "session_wf (UpdateSession u r g now ss)"
    "session_wf (SetDisconnected u now ss)" "session_wf (DeleteSession u ss)"
  using assms
  by (simp_all add: CreateSession_def UpdateSession_def SetDisconnected_def DeleteSession_def
      st.wf_put st.wf_del split: option.split)

text \<open>
  The abstract specification: a session service is a finite map from users to sessions, and its
  writes are updates of that map.
\<close>

datatype session_op =
    OpCreate user_id room_id gateway_id instant
  | OpUpdate user_id room_id gateway_id instant
  | OpDisconnect user_id instant
  | OpDelete user_id

fun run_op :: "session_op \<Rightarrow> SessionService \<Rightarrow> SessionService" where
  "run_op (OpCreate u r g now) = CreateSession u r g now"
| "run_op (OpUpdate u r g now) = UpdateSession u r g now"
| "run_op (OpDisconnect u now) = SetDisconnected u now"
| "run_op (OpDelete u) = DeleteSession u"

fun spec_op :: "session_op \<Rightarrow> (user_id, Session) fmap \<Rightarrow> (user_id, Session) fmap" where
  "spec_op (OpCreate u r g now) m = fmupd u (new_session u r g now) m"
| "spec_op (OpUpdate u r g now) m = fmupd u (updated_session u r g now (fmlookup m u)) m"
| "spec_op (OpDisconnect u now) m =
     (case fmlookup m u of
        None \<Rightarrow> m
      | Some s \<Rightarrow> fmupd u (s\<lparr>s_Status := MemberStatusDisconnected, s_DisconnectedAt := now\<rparr>) m)"
| "spec_op (OpDelete u) m = fmdrop u m"

definition implements :: "SessionService \<Rightarrow> (user_id, Session) fmap \<Rightarrow> bool" where
  "implements ss m \<longleftrightarrow> session_wf ss \<and> (\<forall>u. GetSession u ss = fmlookup m u)"

lemma implements_step: "implements ss m \<Longrightarrow> implements (run_op op ss) (spec_op op m)"
  by (cases op) (auto simp: implements_def session_simps split: option.split)

lemma implements_run: "implements ss m \<Longrightarrow> implements (fold run_op ops ss) (fold spec_op ops m)"
  by (induction ops arbitrary: ss m) (simp_all add: implements_step)

lemma implements_New: "implements NewSessionService fmempty"
  by (simp add: implements_def session_wf_New)

lemma implements_count: "implements ss m \<Longrightarrow> GetSessionCount ss = fcard (fmdom m)"
proof -
  assume i: "implements ss m"
  then have "{u. GetSession u ss \<noteq> None} = fset (fmdom m)"
    by (auto simp: implements_def fmlookup_dom_iff)
  with i show ?thesis
    by (simp add: implements_def GetSessionCount_length [OF go_range_sorted] st.length_keys fcard.rep_eq)
qed

lemma implements_ids: "implements ss m \<Longrightarrow> go_range ord \<Longrightarrow> set (GetAllUserIDs ord ss) = fset (fmdom m)"
  by (auto simp: implements_def set_GetAllUserIDs fmlookup_dom_iff)

section \<open>Properties\<close>

text \<open>C12. The sharded session service refines one map from users to sessions. After any sequence of
  writes to a new service, looking up a user, counting the sessions and listing the users give
  what the map gives after the same writes, whatever order the shards' maps are iterated in, and
  no user is listed twice.\<close>

theorem sharded_sessions_refine_one_map:
  assumes "go_range ord"
  shows "let ss = fold run_op ops NewSessionService; m = fold spec_op ops fmempty in
    (\<forall>u. GetSession u ss = fmlookup m u) \<and> GetSessionCount ss = fcard (fmdom m)
    \<and> set (GetAllUserIDs ord ss) = fset (fmdom m) \<and> distinct (GetAllUserIDs ord ss)"
proof -
  have i: "implements (fold run_op ops NewSessionService) (fold spec_op ops fmempty)"
    by (rule implements_run [OF implements_New])
  then show ?thesis
    using implements_count [OF i] implements_ids [OF i assms] distinct_GetAllUserIDs [OF assms]
    by (simp add: implements_def)
qed

theorem sharded_sessions_refine_one_map_witness:
  "let ss = fold run_op [OpUpdate ''u'' ''r'' ''g'' 5, OpDelete ''v''] NewSessionService;
       m = fold spec_op [OpUpdate ''u'' ''r'' ''g'' 5, OpDelete ''v''] fmempty in
    (\<forall>u. GetSession u ss = fmlookup m u) \<and> GetSessionCount ss = fcard (fmdom m)
    \<and> set (GetAllUserIDs sorted_list_of_fset ss) = fset (fmdom m)
    \<and> distinct (GetAllUserIDs sorted_list_of_fset ss)"
  by (rule sharded_sessions_refine_one_map [OF go_range_sorted])

text \<open>Bounds and constants of the hash: every user id selects one of the 256 shards, the shard is the
  low byte of the 32-bit FNV-1a hash, and the hash of the empty id is the published offset basis.\<close>

lemma fnv_shard_bounds:
  "shard_index u < SessionShardCount \<and> shard_index u = unat (fnvHash u) mod 256
    \<and> fnvHash '''' = 0x811C9DC5 \<and> fnvHash ''a'' = 0xE40C292C"
proof -
  have "fnvHash ''a'' = 0xE40C292C" by (simp add: fnvHash_def fnv_step_def)
  then show ?thesis
    by (simp add: shard_index_less) (simp add: fnvHash_def shard_index_def SessionShardCount_def unat_mod)
qed

end
