(* ===== verification/RoomService.thy ===== *)
theory RoomService
  imports Protocol
begin

text \<open>
  The room service of the roomserver (\<open>internal/roomserver/room.go\<close> and \<open>room_service.go\<close>): rooms,
  their members, and per room the set of users behind each gateway. The two Prometheus gauges
  that the service moves (\<open>RoomserverRooms\<close>, \<open>RoomserverUsers\<close>) are fields of the state. A room
  is referred to by its key in the service's map, as every caller of the service does.
\<close>

section \<open>State (room.go)\<close>

record RoomMember =
  rm_UserID :: user_id
  rm_GatewayID :: gateway_id
  rm_Status :: MemberStatus
  rm_JoinTime :: instant
  rm_DisconnectTime :: instant

text \<open>\<open>UserIDs map[string]bool\<close> only ever stores \<open>true\<close>: it is a set.\<close>

record GatewayRoomView =
  gv_GatewayID :: gateway_id
  gv_UserIDs :: "user_id fset"

record Room =
  r_RoomID :: room_id
  Members :: "(user_id, RoomMember) fmap"
  Gateways :: "(gateway_id, GatewayRoomView) fmap"

record RoomService =
  rooms :: "(room_id, Room) fmap"
  RoomserverRooms :: int
  RoomserverUsers :: int

definition NewRoom :: "room_id \<Rightarrow> Room" where
  "NewRoom roomID = \<lparr>r_RoomID = roomID, Members = fmempty, Gateways = fmempty\<rparr>"

definition GetMember :: "user_id \<Rightarrow> Room \<Rightarrow> RoomMember option" where
  "GetMember userID r = fmlookup (Members r) userID"

definition MemberCount :: "Room \<Rightarrow> nat" where
  "MemberCount r = fcard (fmdom (Members r))"

definition GetGatewayIDs :: "range_order \<Rightarrow> Room \<Rightarrow> gateway_id list" where
  "GetGatewayIDs ord r = foldl (\<lambda>result gwID. result @ [gwID]) [] (ord (fmdom (Gateways r)))"

definition GetUserIDs :: "range_order \<Rightarrow> Room \<Rightarrow> user_id list" where
  "GetUserIDs ord r = foldl (\<lambda>result userID. result @ [userID]) [] (ord (fmdom (Members r)))"

section \<open>Operations (room\_service.go)\<close>

definition NewRoomService :: RoomService where
  "NewRoomService = \<lparr>rooms = fmempty, RoomserverRooms = 0, RoomserverUsers = 0\<rparr>"

definition GetRoom :: "room_id \<Rightarrow> RoomService \<Rightarrow> Room option" where
  "GetRoom roomID rs = fmlookup (rooms rs) roomID"

definition put_room :: "room_id \<Rightarrow> Room \<Rightarrow> RoomService \<Rightarrow> RoomService" where
  "put_room roomID room rs = rs\<lparr>rooms := fmupd roomID room (rooms rs)\<rparr>"

definition GetOrCreateRoom :: "room_id \<Rightarrow> RoomService \<Rightarrow> Room \<times> RoomService" where
  "GetOrCreateRoom roomID rs =
     (case fmlookup (rooms rs) roomID of
        Some room \<Rightarrow> (room, rs)
      | None \<Rightarrow>
          (let room = NewRoom roomID
           in (room, (put_room roomID room rs)\<lparr>RoomserverRooms := RoomserverRooms rs + 1\<rparr>)))"

definition CloseRoom :: "room_id \<Rightarrow> RoomService \<Rightarrow> Room option \<times> RoomService" where
  "CloseRoom roomID rs =
     (case fmlookup (rooms rs) roomID of
        Some room \<Rightarrow>
          (Some room, rs\<lparr>rooms := fmdrop roomID (rooms rs), RoomserverRooms := RoomserverRooms rs - 1\<rparr>)
      | None \<Rightarrow> (None, rs))"

text \<open>The two blocks that \<open>AddUser\<close>, \<open>RemoveUser\<close> and \<open>UpdateUserGateway\<close> use on a room's gateway views.\<close>

definition add_to_view :: "gateway_id \<Rightarrow> user_id \<Rightarrow> Room \<Rightarrow> Room" where
  "add_to_view gatewayID userID room =
     (let view = (case fmlookup (Gateways room) gatewayID of
                    None \<Rightarrow> \<lparr>gv_GatewayID = gatewayID, gv_UserIDs = {||}\<rparr>
                  | Some v \<Rightarrow> v)
      in room\<lparr>Gateways := fmupd gatewayID (view\<lparr>gv_UserIDs := finsert userID (gv_UserIDs view)\<rparr>) (Gateways room)\<rparr>)"

definition drop_from_view :: "gateway_id \<Rightarrow> user_id \<Rightarrow> Room \<Rightarrow> Room" where
  "drop_from_view gatewayID userID room =
     (case fmlookup (Gateways room) gatewayID of
        None \<Rightarrow> room
      | Some view \<Rightarrow>
          (let left = gv_UserIDs view |-| {|userID|}
           in if fcard left = 0 then room\<lparr>Gateways := fmdrop gatewayID (Gateways room)\<rparr>
              else room\<lparr>Gateways := fmupd gatewayID (view\<lparr>gv_UserIDs := left\<rparr>) (Gateways room)\<rparr>))"

definition new_member :: "user_id \<Rightarrow> gateway_id \<Rightarrow> instant \<Rightarrow> RoomMember" where
  "new_member userID gatewayID now =
     \<lparr>rm_UserID = userID, rm_GatewayID = gatewayID, rm_Status = MemberStatusOnline,
      rm_JoinTime = now, rm_DisconnectTime = zero_time\<rparr>"

definition room_AddUser :: "user_id \<Rightarrow> gateway_id \<Rightarrow> instant \<Rightarrow> Room \<Rightarrow> Room" where
  "room_AddUser userID gatewayID now room =
     add_to_view gatewayID userID
       (room\<lparr>Members := fmupd userID (new_member userID gatewayID now) (Members room)\<rparr>)"

definition AddUser :: "room_id \<Rightarrow> user_id \<Rightarrow> gateway_id \<Rightarrow> instant \<Rightarrow> RoomService \<Rightarrow> RoomService" where
  "AddUser roomID userID gatewayID now rs =
     (let (room, rs1) = GetOrCreateRoom roomID rs
      in (put_room roomID (room_AddUser userID gatewayID now room) rs1)
           \<lparr>RoomserverUsers := RoomserverUsers rs1 + 1\<rparr>)"

definition room_RemoveUser :: "user_id \<Rightarrow> RoomMember \<Rightarrow> Room \<Rightarrow> Room" where
  "room_RemoveUser userID member room =
     drop_from_view (rm_GatewayID member) userID (room\<lparr>Members := fmdrop userID (Members room)\<rparr>)"

definition RemoveUser :: "room_id \<Rightarrow> user_id \<Rightarrow> RoomService \<Rightarrow> RoomService" where
  "RemoveUser roomID userID rs =
     (case GetRoom roomID rs of
        None \<Rightarrow> rs
      | Some room \<Rightarrow>
          (case fmlookup (Members room) userID of
             None \<Rightarrow> rs
           | Some member \<Rightarrow>
               (put_room roomID (room_RemoveUser userID member room) rs)
                 \<lparr>RoomserverUsers := RoomserverUsers rs - 1\<rparr>))"

definition SetUserDisconnected :: "room_id \<Rightarrow> user_id \<Rightarrow> instant \<Rightarrow> RoomService \<Rightarrow> RoomService" where
  "SetUserDisconnected roomID userID now rs =
     (case GetRoom roomID rs of
        None \<Rightarrow> rs
      | Some room \<Rightarrow>
          (case fmlookup (Members room) userID of
             None \<Rightarrow> rs
           | Some member \<Rightarrow>
               put_room roomID
                 (room\<lparr>Members := fmupd userID
                    (member\<lparr>rm_Status := MemberStatusDisconnected, rm_DisconnectTime := now\<rparr>)
                    (Members room)\<rparr>) rs))"

definition room_UpdateUserGateway :: "user_id \<Rightarrow> gateway_id \<Rightarrow> RoomMember \<Rightarrow> Room \<Rightarrow> Room" where
  "room_UpdateUserGateway userID newGatewayID member room =
     (let oldGatewayID = rm_GatewayID member;
          (member1, room1) =
            (if oldGatewayID \<noteq> newGatewayID
             then (member\<lparr>rm_GatewayID := newGatewayID\<rparr>,
                   add_to_view newGatewayID userID (drop_from_view oldGatewayID userID room))
             else (member, room));
          member2 = member1\<lparr>rm_Status := MemberStatusOnline, rm_DisconnectTime := zero_time\<rparr>
      in room1\<lparr>Members := fmupd userID member2 (Members room1)\<rparr>)"

definition UpdateUserGateway ::
  "room_id \<Rightarrow> user_id \<Rightarrow> gateway_id \<Rightarrow> RoomService \<Rightarrow> bool \<times> RoomService" where
  "UpdateUserGateway roomID userID newGatewayID rs =
     (case GetRoom roomID rs of
        None \<Rightarrow> (False, rs)
      | Some room \<Rightarrow>
          (case fmlookup (Members room) userID of
             None \<Rightarrow> (False, rs)
           | Some member \<Rightarrow>
               (True, put_room roomID (room_UpdateUserGateway userID newGatewayID member room) rs)))"

definition GetRoomGatewayIDs :: "range_order \<Rightarrow> room_id \<Rightarrow> RoomService \<Rightarrow> gateway_id list" where
  "GetRoomGatewayIDs ord roomID rs =
     (case GetRoom roomID rs of
        None \<Rightarrow> []
      | Some room \<Rightarrow> foldl (\<lambda>result gwID. result @ [gwID]) [] (ord (fmdom (Gateways room))))"

definition GetRoomMemberCount :: "room_id \<Rightarrow> RoomService \<Rightarrow> nat" where
  "GetRoomMemberCount roomID rs =
     (case GetRoom roomID rs of None \<Rightarrow> 0 | Some room \<Rightarrow> fcard (fmdom (Members room)))"

definition RoomExists :: "room_id \<Rightarrow> RoomService \<Rightarrow> bool" where
  "RoomExists roomID rs \<longleftrightarrow> fmlookup (rooms rs) roomID \<noteq> None"

definition GetAllRoomIDs :: "range_order \<Rightarrow> RoomService \<Rightarrow> room_id list" where
  "GetAllRoomIDs ord rs = foldl (\<lambda>result roomID. result @ [roomID]) [] (ord (fmdom (rooms rs)))"

section \<open>Views, membership and the invariant\<close>

definition view :: "gateway_id \<Rightarrow> Room \<Rightarrow> user_id fset" where
  "view g room = (case fmlookup (Gateways room) g of None \<Rightarrow> {||} | Some v \<Rightarrow> gv_UserIDs v)"

definition member :: "room_id \<Rightarrow> user_id \<Rightarrow> RoomService \<Rightarrow> RoomMember option" where
  "member r u rs = (case GetRoom r rs of None \<Rightarrow> None | Some room \<Rightarrow> fmlookup (Members room) u)"

definition views_ok :: "Room \<Rightarrow> bool" where
  "views_ok room \<longleftrightarrow> (\<forall>g v. fmlookup (Gateways room) g = Some v \<longrightarrow> gv_GatewayID v = g \<and> gv_UserIDs v \<noteq> {||})"

definition members_ok :: "Room \<Rightarrow> bool" where
  "members_ok room \<longleftrightarrow>
     (\<forall>u m. fmlookup (Members room) u = Some m \<longrightarrow> rm_UserID m = u \<and> u |\<in>| view (rm_GatewayID m) room)"

definition room_wf :: "Room \<Rightarrow> bool" where
  "room_wf room \<longleftrightarrow> views_ok room \<and> members_ok room"

definition rooms_wf :: "RoomService \<Rightarrow> bool" where
  "rooms_wf rs \<longleftrightarrow> RoomserverRooms rs = int (fcard (fmdom (rooms rs))) \<and>
     (\<forall>r room. fmlookup (rooms rs) r = Some room \<longrightarrow> r_RoomID room = r \<and> room_wf room)"

lemma view_add [simp]: "view h (add_to_view g u room) = (if h = g then finsert u (view g room) else view h room)"
  by (simp add: view_def add_to_view_def Let_def split: option.split)

lemma view_drop [simp]: "view h (drop_from_view g u room) = (if h = g then view g room |-| {|u|} else view h room)"
  by (auto simp: view_def drop_from_view_def Let_def split: option.split)

lemma Members_views [simp]:
  "Members (add_to_view g u room) = Members room" "Members (drop_from_view g u room) = Members room"
  by (simp_all add: add_to_view_def drop_from_view_def Let_def split: option.split)

lemma RoomID_views [simp]:
  "r_RoomID (add_to_view g u room) = r_RoomID room" "r_RoomID (drop_from_view g u room) = r_RoomID room"
  by (simp_all add: add_to_view_def drop_from_view_def Let_def split: option.split)

lemma view_Members_update [simp]: "view g (room\<lparr>Members := M\<rparr>) = view g room"
  by (simp add: view_def)

lemma views_ok_Members_update [simp]: "views_ok (room\<lparr>Members := M\<rparr>) = views_ok room"
  by (simp add: views_ok_def)

lemma views_ok_add: "views_ok room \<Longrightarrow> views_ok (add_to_view g u room)"
  by (auto simp: views_ok_def add_to_view_def Let_def split: option.split)

lemma views_ok_drop: "views_ok room \<Longrightarrow> views_ok (drop_from_view g u room)"
  by (auto simp: views_ok_def drop_from_view_def Let_def split: option.split)

lemma Gateways_dom_view: "views_ok room \<Longrightarrow> g |\<in>| fmdom (Gateways room) \<longleftrightarrow> view g room \<noteq> {||}"
  by (auto simp: views_ok_def view_def fmdom_iff_lookup split: option.split)

lemma room_AddUser_wf: "room_wf room \<Longrightarrow> room_wf (room_AddUser u g now room)"
  by (auto simp: room_wf_def room_AddUser_def members_ok_def new_member_def intro!: views_ok_add
      split: if_splits)

lemma room_RemoveUser_wf: "room_wf room \<Longrightarrow> room_wf (room_RemoveUser u m room)"
  by (auto simp: room_wf_def room_RemoveUser_def members_ok_def intro!: views_ok_drop split: if_splits) metis

lemma room_UpdateUserGateway_wf:
  assumes "room_wf room" and "fmlookup (Members room) u = Some m"
  shows "room_wf (room_UpdateUserGateway u g m room)"
  using assms
  by (auto simp: room_wf_def room_UpdateUserGateway_def members_ok_def Let_def
      intro!: views_ok_add views_ok_drop split: if_splits) metis

lemma room_disconnect_wf:
  assumes "room_wf room" and "fmlookup (Members room) u = Some m"
  shows "room_wf (room\<lparr>Members := fmupd u (m\<lparr>rm_Status := s, rm_DisconnectTime := t\<rparr>) (Members room)\<rparr>)"
  using assms by (auto simp: room_wf_def members_ok_def split: if_splits)

lemma NewRoom_wf: "room_wf (NewRoom r)"
  by (simp add: room_wf_def views_ok_def members_ok_def NewRoom_def)

lemma r_RoomID_ops [simp]:
  "r_RoomID (NewRoom r) = r"
  "r_RoomID (room_AddUser u g now room) = r_RoomID room"
  "r_RoomID (room_RemoveUser u m room) = r_RoomID room"
  "r_RoomID (room_UpdateUserGateway u g m room) = r_RoomID room"
  by (simp_all add: NewRoom_def room_AddUser_def room_RemoveUser_def room_UpdateUserGateway_def Let_def)

text \<open>Writing a well-formed room under its own key keeps the service well-formed.\<close>

lemma rooms_wf_put:
  assumes "rooms_wf rs" and "GetRoom r rs = Some room" and "room_wf room'" and "r_RoomID room' = r_RoomID room"
  shows "rooms_wf ((put_room r room' rs)\<lparr>RoomserverUsers := n\<rparr>)"
  using assms
  by (auto simp: rooms_wf_def put_room_def GetRoom_def fcard_finsert_if fmdom_iff_lookup)

lemma rooms_wf_put':
  assumes "rooms_wf rs" and "GetRoom r rs = Some room" and "room_wf room'" and "r_RoomID room' = r_RoomID room"
  shows "rooms_wf (put_room r room' rs)"
  using assms by (auto simp: rooms_wf_def put_room_def GetRoom_def fcard_finsert_if fmdom_iff_lookup)

lemma rooms_wf_room: "rooms_wf rs \<Longrightarrow> GetRoom r rs = Some room \<Longrightarrow> room_wf room"
  by (simp add: rooms_wf_def GetRoom_def)

lemma GetOrCreateRoom_wf:
  assumes "rooms_wf rs" and "GetOrCreateRoom r rs = (room, rs')"
  shows "rooms_wf rs' \<and> GetRoom r rs' = Some room \<and> RoomserverUsers rs' = RoomserverUsers rs"
  using assms
  by (auto simp: GetOrCreateRoom_def GetRoom_def rooms_wf_def put_room_def fcard_finsert_if fmdom_iff_lookup
      NewRoom_wf Let_def split: option.splits if_splits)

lemma AddUser_wf: "rooms_wf rs \<Longrightarrow> rooms_wf (AddUser r u g now rs)"
  by (auto simp: AddUser_def split: prod.split
      dest: GetOrCreateRoom_wf intro!: rooms_wf_put room_AddUser_wf intro: rooms_wf_room)

lemma RemoveUser_wf: "rooms_wf rs \<Longrightarrow> rooms_wf (RemoveUser r u rs)"
  by (auto simp: RemoveUser_def split: option.split
      intro!: rooms_wf_put room_RemoveUser_wf intro: rooms_wf_room)

lemma SetUserDisconnected_wf: "rooms_wf rs \<Longrightarrow> rooms_wf (SetUserDisconnected r u now rs)"
  by (auto simp: SetUserDisconnected_def split: option.split
      intro!: rooms_wf_put' room_disconnect_wf intro: rooms_wf_room)

lemma UpdateUserGateway_wf: "rooms_wf rs \<Longrightarrow> rooms_wf (snd (UpdateUserGateway r u g rs))"
  by (auto simp: UpdateUserGateway_def split: option.split
      intro!: rooms_wf_put' room_UpdateUserGateway_wf intro: rooms_wf_room)

lemma CloseRoom_wf: "rooms_wf rs \<Longrightarrow> rooms_wf (snd (CloseRoom r rs))"
  by (auto simp: CloseRoom_def rooms_wf_def int_fcard_fmdrop split: option.split if_splits)

lemma NewRoomService_wf: "rooms_wf NewRoomService"
  by (simp add: rooms_wf_def NewRoomService_def)

lemmas rooms_wf_ops = AddUser_wf RemoveUser_wf SetUserDisconnected_wf UpdateUserGateway_wf CloseRoom_wf

section \<open>What each operation does to members and views\<close>

definition view_in :: "room_id \<Rightarrow> gateway_id \<Rightarrow> RoomService \<Rightarrow> user_id fset" where
  "view_in r g rs = (case GetRoom r rs of None \<Rightarrow> {||} | Some room \<Rightarrow> view g room)"

lemma view_in_wf: "rooms_wf rs \<Longrightarrow> member r u rs = Some m \<Longrightarrow> u |\<in>| view_in r (rm_GatewayID m) rs"
  by (auto simp: member_def view_in_def rooms_wf_def room_wf_def members_ok_def GetRoom_def
      split: option.splits)

lemma member_UserID: "rooms_wf rs \<Longrightarrow> member r u rs = Some m \<Longrightarrow> rm_UserID m = u"
  by (auto simp: member_def rooms_wf_def room_wf_def members_ok_def GetRoom_def split: option.splits)

lemma set_GetRoomGatewayIDs:
  assumes "go_range ord" and "rooms_wf rs"
  shows "set (GetRoomGatewayIDs ord r rs) = {g. view_in r g rs \<noteq> {||}}"
proof (cases "GetRoom r rs")
  case None
  then show ?thesis by (simp add: GetRoomGatewayIDs_def view_in_def)
next
  case (Some room)
  then have "views_ok room"
    using assms(2) rooms_wf_room room_wf_def by blast
  with Some assms(1) show ?thesis
    by (auto simp: GetRoomGatewayIDs_def view_in_def Gateways_dom_view)
qed

lemmas room_op_defs = AddUser_def RemoveUser_def SetUserDisconnected_def UpdateUserGateway_def CloseRoom_def
  GetOrCreateRoom_def put_room_def GetRoom_def NewRoom_def room_AddUser_def room_RemoveUser_def
  room_UpdateUserGateway_def

lemma member_New [room_simps]: "member r u NewRoomService = None"
  by (simp add: member_def GetRoom_def NewRoomService_def)

lemma view_in_New [room_simps]: "view_in r g NewRoomService = {||}"
  by (simp add: view_in_def GetRoom_def NewRoomService_def)

lemma member_AddUser [room_simps]:
  "member r' u' (AddUser r u g now rs) = (if r' = r \<and> u' = u then Some (new_member u g now) else member r' u' rs)"
  by (auto simp: member_def room_op_defs Let_def split: option.split)

lemma member_RemoveUser [room_simps]:
  "member r' u' (RemoveUser r u rs) = (if r' = r \<and> u' = u then None else member r' u' rs)"
  by (auto simp: member_def room_op_defs split: option.split)

lemma member_SetUserDisconnected [room_simps]:
  "member r' u' (SetUserDisconnected r u now rs) =
     (if r' = r \<and> u' = u
      then map_option (\<lambda>m. m\<lparr>rm_Status := MemberStatusDisconnected, rm_DisconnectTime := now\<rparr>) (member r u rs)
      else member r' u' rs)"
  by (auto simp: member_def room_op_defs split: option.split)

lemma member_UpdateUserGateway [room_simps]:
  "member r' u' (snd (UpdateUserGateway r u g rs)) =
     (if r' = r \<and> u' = u
      then map_option (\<lambda>m. m\<lparr>rm_GatewayID := g, rm_Status := MemberStatusOnline,
        rm_DisconnectTime := zero_time\<rparr>) (member r u rs)
      else member r' u' rs)"
  by (auto simp: member_def room_op_defs Let_def split: option.split)

lemma UpdateUserGateway_result: "fst (UpdateUserGateway r u g rs) \<longleftrightarrow> member r u rs \<noteq> None"
  by (simp add: UpdateUserGateway_def member_def split: option.split)

lemma member_CloseRoom [room_simps]:
  "member r' u (snd (CloseRoom r rs)) = (if r' = r then None else member r' u rs)"
  by (auto simp: member_def room_op_defs split: option.split)

lemma view_in_AddUser [room_simps]:
  "view_in r' g' (AddUser r u g now rs) =
     (if r' = r \<and> g' = g then finsert u (view_in r g rs) else view_in r' g' rs)"
  by (auto simp: view_in_def room_op_defs Let_def view_def [of _ "\<lparr>r_RoomID = _, Members = _, Gateways = fmempty\<rparr>"]
      split: option.split)

lemma view_in_RemoveUser [room_simps]:
  "view_in r' g' (RemoveUser r u rs) =
     (if r' = r \<and> map_option rm_GatewayID (member r u rs) = Some g'
      then view_in r g' rs |-| {|u|} else view_in r' g' rs)"
  by (auto simp: view_in_def member_def room_op_defs split: option.split)

lemma view_in_SetUserDisconnected [room_simps]:
  "view_in r' g' (SetUserDisconnected r u now rs) = view_in r' g' rs"
  by (auto simp: view_in_def room_op_defs split: option.split)

lemma view_in_UpdateUserGateway [room_simps]:
  "view_in r' g' (snd (UpdateUserGateway r u g rs)) =
     (case member r u rs of
        None \<Rightarrow> view_in r' g' rs
      | Some m \<Rightarrow>
          if r' \<noteq> r \<or> rm_GatewayID m = g then view_in r' g' rs
          else if g' = g then finsert u (view_in r g rs)
          else if g' = rm_GatewayID m then view_in r g' rs |-| {|u|}
          else view_in r' g' rs)"
  by (auto simp: view_in_def member_def room_op_defs Let_def split: option.split)

lemma view_in_CloseRoom [room_simps]:
  "view_in r' g (snd (CloseRoom r rs)) = (if r' = r then {||} else view_in r' g rs)"
  by (auto simp: view_in_def room_op_defs split: option.split)

lemma RoomExists_ops [room_simps]:
  "RoomExists r' (AddUser r u g now rs) \<longleftrightarrow> r' = r \<or> RoomExists r' rs"
  "RoomExists r' (RemoveUser r u rs) \<longleftrightarrow> RoomExists r' rs"
  "RoomExists r' (SetUserDisconnected r u now rs) \<longleftrightarrow> RoomExists r' rs"
  "RoomExists r' (snd (UpdateUserGateway r u g rs)) \<longleftrightarrow> RoomExists r' rs"
  "RoomExists r' (snd (CloseRoom r rs)) \<longleftrightarrow> r' \<noteq> r \<and> RoomExists r' rs"
  by (auto simp: RoomExists_def room_op_defs Let_def split: option.split)

lemma member_RoomExists: "member r u rs = Some m \<Longrightarrow> RoomExists r rs"
  by (auto simp: member_def RoomExists_def GetRoom_def split: option.splits)

section \<open>The service as a step relation\<close>

inductive room_step :: "RoomService \<Rightarrow> RoomService \<Rightarrow> bool" where
  step_AddUser: "room_step rs (AddUser r u g now rs)"
| step_RemoveUser: "room_step rs (RemoveUser r u rs)"
| step_Disconnect: "room_step rs (SetUserDisconnected r u now rs)"
| step_UpdateGateway: "room_step rs (snd (UpdateUserGateway r u g rs))"
| step_Close: "room_step rs (snd (CloseRoom r rs))"
| step_Create: "room_step rs (snd (GetOrCreateRoom r rs))"

inductive_cases room_stepE: "room_step rs rs'"

interpretation room_inv: inductive_invariant "\<lambda>rs. rs = NewRoomService" room_step rooms_wf
proof
  fix rs rs' assume "rooms_wf rs" and "room_step rs rs'"
  then show "rooms_wf rs'"
    using GetOrCreateRoom_wf by (auto elim!: room_stepE intro: rooms_wf_ops simp: prod_eq_iff)
qed (simp add: NewRoomService_wf)

definition exact :: "RoomService \<Rightarrow> bool" where
  "exact rs \<longleftrightarrow> (\<forall>r g u. u |\<in>| view_in r g rs \<longrightarrow> (\<exists>m. member r u rs = Some m \<and> rm_GatewayID m = g))"

lemma exactI:
  "(\<And>r g u. u |\<in>| view_in r g rs \<Longrightarrow> \<exists>m. member r u rs = Some m \<and> rm_GatewayID m = g) \<Longrightarrow> exact rs"
  by (simp add: exact_def)

lemma exactD: "exact rs \<Longrightarrow> u |\<in>| view_in r g rs \<Longrightarrow> \<exists>m. member r u rs = Some m \<and> rm_GatewayID m = g"
  by (simp add: exact_def)

lemma exact_New: "exact NewRoomService"
  by (simp add: exact_def room_simps)

text \<open>
  Adding a user keeps the views exact precisely when the user is not already in the room behind
  another gateway; every other operation keeps them exact.
\<close>

lemma exact_AddUser:
  assumes "exact rs" and "rooms_wf rs"
  shows "exact (AddUser r u g now rs) \<longleftrightarrow> (\<forall>m. member r u rs = Some m \<longrightarrow> rm_GatewayID m = g)"
proof
  assume e: "exact (AddUser r u g now rs)"
  show "\<forall>m. member r u rs = Some m \<longrightarrow> rm_GatewayID m = g"
  proof (intro allI impI)
    fix m assume m: "member r u rs = Some m"
    have "u |\<in>| view_in r (rm_GatewayID m) (AddUser r u g now rs)"
      using view_in_wf [OF assms(2) m] by (simp add: room_simps)
    from exactD [OF e this] show "rm_GatewayID m = g"
      by (simp add: room_simps new_member_def)
  qed
next
  assume "\<forall>m. member r u rs = Some m \<longrightarrow> rm_GatewayID m = g"
  then show "exact (AddUser r u g now rs)"
    using assms(1) by (auto intro!: exactI dest!: exactD simp: room_simps new_member_def split: if_splits)
qed

lemma exact_RemoveUser: "exact rs \<Longrightarrow> exact (RemoveUser r u rs)"
  by (rule exactI) (fastforce dest: exactD simp: room_simps split: if_splits)

lemma exact_SetUserDisconnected: "exact rs \<Longrightarrow> exact (SetUserDisconnected r u now rs)"
  by (rule exactI) (fastforce dest: exactD simp: room_simps)

lemma exact_UpdateUserGateway: "exact rs \<Longrightarrow> exact (snd (UpdateUserGateway r u g rs))"
  by (rule exactI) (fastforce dest: exactD simp: room_simps split: option.splits if_splits)

lemma exact_CloseRoom: "exact rs \<Longrightarrow> exact (snd (CloseRoom r rs))"
  by (rule exactI) (fastforce dest: exactD simp: room_simps split: if_splits)

lemmas exact_ops = exact_RemoveUser exact_SetUserDisconnected exact_UpdateUserGateway exact_CloseRoom

section \<open>The users gauge\<close>

definition total_members :: "RoomService \<Rightarrow> nat" where
  "total_members rs = (\<Sum>r \<in> fset (fmdom (rooms rs)). GetRoomMemberCount r rs)"

definition gauge_drift :: "RoomService \<Rightarrow> int" where
  "gauge_drift rs = RoomserverUsers rs - int (total_members rs)"

lemma total_members_split:
  assumes "GetRoom r rs = Some room"
  shows "total_members rs = MemberCount room
    + (\<Sum>r' \<in> fset (fmdom (rooms rs)) - {r}. GetRoomMemberCount r' rs)"
proof -
  have "r \<in> fset (fmdom (rooms rs))" using assms by (simp add: GetRoom_def fmdomI)
  then show ?thesis
    unfolding total_members_def
    by (subst sum.remove [of _ r]) (use assms in \<open>simp_all add: GetRoomMemberCount_def MemberCount_def\<close>)
qed

lemma total_members_put:
  assumes "GetRoom r rs = Some room"
  shows "total_members (put_room r room' rs) + MemberCount room = total_members rs + MemberCount room'"
proof -
  let ?R = "fset (fmdom (rooms rs)) - {r}"
  have "GetRoom r (put_room r room' rs) = Some room'" by (simp add: GetRoom_def put_room_def)
  note total_members_split [OF this]
  moreover have "fset (fmdom (rooms (put_room r room' rs))) - {r} = ?R"
    by (auto simp: put_room_def)
  moreover have "(\<Sum>r' \<in> ?R. GetRoomMemberCount r' (put_room r room' rs)) = (\<Sum>r' \<in> ?R. GetRoomMemberCount r' rs)"
    by (rule sum.cong) (auto simp: GetRoomMemberCount_def GetRoom_def put_room_def)
  ultimately show ?thesis using total_members_split [OF assms] by simp
qed

lemma total_members_gauges [simp]:
  "total_members (rs\<lparr>RoomserverUsers := n\<rparr>) = total_members rs"
  "total_members (rs\<lparr>RoomserverRooms := n\<rparr>) = total_members rs"
  by (simp_all add: total_members_def GetRoomMemberCount_def GetRoom_def)

lemma total_members_drop:
  assumes "GetRoom r rs = Some room"
  shows "total_members (rs\<lparr>rooms := fmdrop r (rooms rs)\<rparr>) + MemberCount room = total_members rs"
proof -
  have "(\<Sum>r' \<in> fset (fmdom (rooms rs)) - {r}. GetRoomMemberCount r' (rs\<lparr>rooms := fmdrop r (rooms rs)\<rparr>))
      = (\<Sum>r' \<in> fset (fmdom (rooms rs)) - {r}. GetRoomMemberCount r' rs)"
    by (rule sum.cong) (auto simp: GetRoomMemberCount_def GetRoom_def)
  then show ?thesis
    using total_members_split [OF assms] by (simp add: total_members_def)
qed

lemma total_members_create:
  assumes "GetRoom r rs = None"
  shows "total_members (put_room r (NewRoom r) rs) = total_members rs"
proof -
  have r: "r \<notin> fset (fmdom (rooms rs))" using assms by (simp add: GetRoom_def fmdom_iff_lookup)
  have "(\<Sum>r' \<in> fset (fmdom (rooms rs)). GetRoomMemberCount r' (put_room r (NewRoom r) rs))
      = (\<Sum>r' \<in> fset (fmdom (rooms rs)). GetRoomMemberCount r' rs)"
    by (rule sum.cong) (use r in \<open>auto simp: GetRoomMemberCount_def GetRoom_def put_room_def\<close>)
  moreover have "GetRoomMemberCount r (put_room r (NewRoom r) rs) = 0"
    by (simp add: GetRoomMemberCount_def GetRoom_def put_room_def NewRoom_def fcard_fempty)
  ultimately show ?thesis
    using r by (simp add: total_members_def put_room_def)
qed

lemma GetOrCreateRoom_drift:
  assumes "GetOrCreateRoom r rs = (room, rs')"
  shows "total_members rs' = total_members rs \<and> RoomserverUsers rs' = RoomserverUsers rs
    \<and> GetRoom r rs' = Some room \<and> (\<forall>u. fmlookup (Members room) u = member r u rs)"
  using assms total_members_create [of r rs]
  by (auto simp: GetOrCreateRoom_def GetRoom_def put_room_def Let_def member_def NewRoom_def split: option.splits)

lemma MemberCount_room_ops:
  "MemberCount (room_AddUser u g now room) =
     (if fmlookup (Members room) u = None then Suc (MemberCount room) else MemberCount room)"
  "fmlookup (Members room) u = Some m \<Longrightarrow> MemberCount room = Suc (MemberCount (room_RemoveUser u m room))"
  "fmlookup (Members room) u = Some m \<Longrightarrow> MemberCount (room_UpdateUserGateway u g m room) = MemberCount room"
  using fcard_fmdom_pos [of "Members room" u m]
  by (auto simp: MemberCount_def room_AddUser_def room_RemoveUser_def room_UpdateUserGateway_def Let_def
      fcard_finsert_if fcard_fminus_fsingleton_if fmdom_iff_lookup)

lemma gauge_drift_AddUser:
  "gauge_drift (AddUser r u g now rs) = gauge_drift rs + (if member r u rs = None then 0 else 1)"
proof -
  obtain room rs' where c: "GetOrCreateRoom r rs = (room, rs')" by fastforce
  note d = GetOrCreateRoom_drift [OF c]
  then show ?thesis
    using total_members_put [of r rs' room "room_AddUser u g now room"]
    by (auto simp: gauge_drift_def AddUser_def c MemberCount_room_ops)
qed

lemma gauge_drift_RemoveUser: "gauge_drift (RemoveUser r u rs) = gauge_drift rs"
proof (cases "GetRoom r rs")
  case None
  then show ?thesis by (simp add: RemoveUser_def)
next
  case (Some room)
  show ?thesis
  proof (cases "fmlookup (Members room) u")
    case None
    with Some show ?thesis by (simp add: RemoveUser_def)
  next
    case (Some m)
    have "RemoveUser r u rs =
        (put_room r (room_RemoveUser u m room) rs)\<lparr>RoomserverUsers := RoomserverUsers rs - 1\<rparr>"
      using \<open>GetRoom r rs = Some room\<close> Some by (simp add: RemoveUser_def)
    then show ?thesis
      using total_members_put [OF \<open>GetRoom r rs = Some room\<close>, of "room_RemoveUser u m room"]
        MemberCount_room_ops(2) [OF Some]
      by (simp add: gauge_drift_def)
  qed
qed

lemma RoomserverUsers_put_room [simp]: "RoomserverUsers (put_room r room rs) = RoomserverUsers rs"
  by (simp add: put_room_def)

lemma gauge_drift_put:
  assumes "GetRoom r rs = Some room" and "MemberCount room' = MemberCount room"
  shows "gauge_drift (put_room r room' rs) = gauge_drift rs"
  using total_members_put [OF assms(1), of room'] assms(2) by (simp add: gauge_drift_def)

lemma gauge_drift_SetUserDisconnected: "gauge_drift (SetUserDisconnected r u now rs) = gauge_drift rs"
  by (auto simp: SetUserDisconnected_def MemberCount_def fcard_finsert_if fmdom_iff_lookup
      intro!: gauge_drift_put split: option.split)

lemma gauge_drift_UpdateUserGateway: "gauge_drift (snd (UpdateUserGateway r u g rs)) = gauge_drift rs"
  by (auto simp: UpdateUserGateway_def MemberCount_room_ops intro!: gauge_drift_put split: option.split)

lemma gauge_drift_CloseRoom:
  "gauge_drift (snd (CloseRoom r rs)) = gauge_drift rs + int (GetRoomMemberCount r rs)"
proof (cases "GetRoom r rs")
  case None
  then show ?thesis by (simp add: CloseRoom_def GetRoom_def GetRoomMemberCount_def)
next
  case (Some room)
  then show ?thesis
    using total_members_drop [OF Some]
    by (simp add: CloseRoom_def GetRoom_def GetRoomMemberCount_def gauge_drift_def MemberCount_def)
qed

lemma gauge_drift_GetOrCreateRoom: "gauge_drift (snd (GetOrCreateRoom r rs)) = gauge_drift rs"
proof -
  obtain room rs' where c: "GetOrCreateRoom r rs = (room, rs')" by fastforce
  with GetOrCreateRoom_drift [OF c] show ?thesis by (simp add: gauge_drift_def)
qed

lemmas gauge_drift_ops = gauge_drift_AddUser gauge_drift_RemoveUser gauge_drift_SetUserDisconnected
  gauge_drift_UpdateUserGateway gauge_drift_CloseRoom gauge_drift_GetOrCreateRoom

section \<open>Properties\<close>

lemma room_add_remove:
  assumes "views_ok room" and "fmlookup (Members room) u = None" and "u |\<notin>| view g room"
  shows "room_RemoveUser u (new_member u g now) (room_AddUser u g now room) = room"
proof (cases "fmlookup (Gateways room) g")
  case None
  with assms(2) show ?thesis
    by (simp add: room_RemoveUser_def room_AddUser_def add_to_view_def drop_from_view_def new_member_def
        Let_def fmdrop_fmupd_undo fcard_fempty)
next
  case (Some v)
  with assms(1,3) have "gv_UserIDs v \<noteq> {||}" and "finsert u (gv_UserIDs v) |-| {|u|} = gv_UserIDs v"
    by (auto simp: views_ok_def view_def)
  then show ?thesis
    using Some assms(2)
    by (simp add: room_RemoveUser_def room_AddUser_def add_to_view_def drop_from_view_def new_member_def
        Let_def fmdrop_fmupd_undo fmupd_same)
qed

lemma AddUser_existing:
  "GetRoom r rs = Some room \<Longrightarrow> AddUser r u g now rs =
     (put_room r (room_AddUser u g now room) rs)\<lparr>RoomserverUsers := RoomserverUsers rs + 1\<rparr>"
  by (simp add: AddUser_def GetOrCreateRoom_def GetRoom_def)

lemma put_room_undo:
  assumes "GetRoom r rs = Some room"
  shows "(put_room r room ((put_room r room' rs)\<lparr>RoomserverUsers := n\<rparr>))\<lparr>RoomserverUsers := RoomserverUsers rs\<rparr> = rs"
proof -
  have "fmupd r room (fmupd r room' (rooms rs)) = rooms rs"
    using assms by (intro fmap_ext) (auto simp: GetRoom_def)
  then show ?thesis by (simp add: put_room_def)
qed

text \<open>C11. In every state the room service can reach, the rooms gauge equals the number of rooms, and the
  gateway list of a room (the targets of broadcasts and of close notifications) has no
  duplicates, contains the gateway of every member, and names only gateways with a non-empty
  user set.\<close>

theorem reachable_rooms_list_every_member_gateway:
  assumes "reachable_by (\<lambda>s. s = NewRoomService) room_step rs" and "go_range ord"
  shows "RoomserverRooms rs = int (fcard (fmdom (rooms rs)))
    \<and> distinct (GetRoomGatewayIDs ord r rs)
    \<and> (\<forall>u m. member r u rs = Some m \<longrightarrow> rm_GatewayID m \<in> set (GetRoomGatewayIDs ord r rs))
    \<and> (\<forall>g. g \<in> set (GetRoomGatewayIDs ord r rs) \<longleftrightarrow> view_in r g rs \<noteq> {||})"
proof -
  have wf: "rooms_wf rs" by (rule room_inv.inv_reachable [OF assms(1)])
  moreover have "distinct (GetRoomGatewayIDs ord r rs)"
    using assms(2) by (simp add: GetRoomGatewayIDs_def split: option.split)
  ultimately show ?thesis
    using assms(2) view_in_wf [OF wf] by (fastforce simp: set_GetRoomGatewayIDs rooms_wf_def)
qed

theorem reachable_rooms_list_every_member_gateway_witness:
  "let rs = AddUser ''r'' ''u'' ''g'' 7 NewRoomService in
   RoomserverRooms rs = int (fcard (fmdom (rooms rs)))
    \<and> distinct (GetRoomGatewayIDs sorted_list_of_fset ''r'' rs)
    \<and> (\<forall>u m. member ''r'' u rs = Some m \<longrightarrow> rm_GatewayID m \<in> set (GetRoomGatewayIDs sorted_list_of_fset ''r'' rs))
    \<and> (\<forall>g. g \<in> set (GetRoomGatewayIDs sorted_list_of_fset ''r'' rs) \<longleftrightarrow> view_in ''r'' g rs \<noteq> {||})"
  unfolding Let_def
  by (rule reachable_rooms_list_every_member_gateway [OF _ go_range_sorted])
     (rule reachable_step, rule reachable_init, rule refl, rule step_AddUser)

text \<open>When the gateway views are exact (they list no user that is not a member behind that gateway),
  the gateway list of a room is exactly the set of its members' gateways. Removing, disconnecting
  and moving users and closing rooms keep the views exact; adding a user keeps them exact if and
  only if the user is not already in that room behind another gateway.\<close>

lemma exact_views_kept_unless_rejoin:
  assumes "rooms_wf rs" and "exact rs" and "go_range ord"
  shows "set (GetRoomGatewayIDs ord r rs) = {g. \<exists>u m. member r u rs = Some m \<and> rm_GatewayID m = g}
    \<and> exact (RemoveUser r u rs) \<and> exact (SetUserDisconnected r u now rs)
    \<and> exact (snd (UpdateUserGateway r u g rs)) \<and> exact (snd (CloseRoom r rs))
    \<and> (exact (AddUser r u g now rs) \<longleftrightarrow> (\<forall>m. member r u rs = Some m \<longrightarrow> rm_GatewayID m = g))"
proof -
  have "set (GetRoomGatewayIDs ord r rs) = {g. view_in r g rs \<noteq> {||}}"
    using assms by (simp add: set_GetRoomGatewayIDs)
  also have "\<dots> = {g. \<exists>u m. member r u rs = Some m \<and> rm_GatewayID m = g}"
    using view_in_wf [OF assms(1)] exactD [OF assms(2)] by fastforce
  finally show ?thesis
    using assms exact_AddUser by (simp add: exact_ops)
qed

lemma exact_views_kept_unless_rejoin_example:
  "let rs = AddUser ''r'' ''u'' ''g'' 7 NewRoomService in
   set (GetRoomGatewayIDs sorted_list_of_fset ''r'' rs) = {g. \<exists>u m. member ''r'' u rs = Some m \<and> rm_GatewayID m = g}
    \<and> exact (RemoveUser ''r'' ''u'' rs) \<and> exact (SetUserDisconnected ''r'' ''u'' 9 rs)
    \<and> exact (snd (UpdateUserGateway ''r'' ''u'' ''h'' rs)) \<and> exact (snd (CloseRoom ''r'' rs))
    \<and> (exact (AddUser ''r'' ''u'' ''h'' 9 rs) \<longleftrightarrow> (\<forall>m. member ''r'' ''u'' rs = Some m \<longrightarrow> rm_GatewayID m = ''h''))"
  unfolding Let_def
  by (rule exact_views_kept_unless_rejoin [OF AddUser_wf [OF NewRoomService_wf] _ go_range_sorted])
     (simp add: exact_AddUser exact_New NewRoomService_wf room_simps)

text \<open>A user who joins the same room again through another gateway leaves a stale entry: once the user
  is removed, the old gateway still lists the user and is still a target of the room.\<close>

lemma rejoin_leaves_stale_view:
  assumes "rooms_wf rs" and "member r u rs = Some m" and "rm_GatewayID m \<noteq> g" and "go_range ord"
  shows "let rs' = RemoveUser r u (AddUser r u g now rs) in
    member r u rs' = None \<and> u |\<in>| view_in r (rm_GatewayID m) rs'
    \<and> rm_GatewayID m \<in> set (GetRoomGatewayIDs ord r rs')"
proof -
  let ?rs' = "RemoveUser r u (AddUser r u g now rs)"
  have "u |\<in>| view_in r (rm_GatewayID m) ?rs'"
    using view_in_wf [OF assms(1,2)] assms(3) by (simp add: room_simps new_member_def)
  moreover have "rooms_wf ?rs'" using assms(1) by (simp add: rooms_wf_ops)
  ultimately show ?thesis
    using assms(4) by (auto simp: set_GetRoomGatewayIDs room_simps)
qed

lemma rejoin_leaves_stale_view_example:
  "let rs' = RemoveUser ''r'' ''u'' (AddUser ''r'' ''u'' ''h'' 9 (AddUser ''r'' ''u'' ''g'' 7 NewRoomService)) in
    member ''r'' ''u'' rs' = None \<and> ''u'' |\<in>| view_in ''r'' ''g'' rs'
    \<and> ''g'' \<in> set (GetRoomGatewayIDs sorted_list_of_fset ''r'' rs')"
  using rejoin_leaves_stale_view
    [OF AddUser_wf [OF NewRoomService_wf, of "''r''" "''u''" "''g''" 7], of "''r''" "''u''" "new_member ''u'' ''g'' 7" "''h''"
        sorted_list_of_fset 9]
  by (simp add: room_simps new_member_def go_range_sorted)

text \<open>The users gauge against the number of room members. Adding a user who is already a member of the
  room pushes the gauge one above the member count for good, closing a room pushes it up by
  the number of members the room had, and no operation ever brings it back; so in every
  reachable state the gauge is at least the number of members.\<close>

lemma users_gauge_drift:
  assumes "reachable_by (\<lambda>s. s = NewRoomService) room_step rs"
  shows "int (total_members rs) \<le> RoomserverUsers rs
    \<and> gauge_drift (AddUser r u g now rs) = gauge_drift rs + (if member r u rs = None then 0 else 1)
    \<and> gauge_drift (snd (CloseRoom r rs)) = gauge_drift rs + int (GetRoomMemberCount r rs)
    \<and> gauge_drift (RemoveUser r u rs) = gauge_drift rs
    \<and> gauge_drift (SetUserDisconnected r u now rs) = gauge_drift rs
    \<and> gauge_drift (snd (UpdateUserGateway r u g rs)) = gauge_drift rs"
proof -
  have "0 \<le> gauge_drift rs"
    using assms
  proof induction
    case (reachable_init s)
    then show ?case by (simp add: gauge_drift_def total_members_def NewRoomService_def)
  next
    case (reachable_step s t)
    then show ?case by (auto elim!: room_stepE simp: gauge_drift_ops)
  qed
  then show ?thesis by (simp add: gauge_drift_ops) (simp add: gauge_drift_def)
qed

lemma users_gauge_drift_example:
  "let rs = AddUser ''r'' ''u'' ''g'' 7 NewRoomService in
    int (total_members rs) \<le> RoomserverUsers rs
    \<and> gauge_drift (AddUser ''r'' ''u'' ''h'' 9 rs) = gauge_drift rs + (if member ''r'' ''u'' rs = None then 0 else 1)
    \<and> gauge_drift (snd (CloseRoom ''r'' rs)) = gauge_drift rs + int (GetRoomMemberCount ''r'' rs)
    \<and> gauge_drift (RemoveUser ''r'' ''u'' rs) = gauge_drift rs
    \<and> gauge_drift (SetUserDisconnected ''r'' ''u'' 9 rs) = gauge_drift rs
    \<and> gauge_drift (snd (UpdateUserGateway ''r'' ''u'' ''h'' rs)) = gauge_drift rs"
  unfolding Let_def
  by (rule users_gauge_drift, rule reachable_step, rule reachable_init, rule refl, rule step_AddUser)

text \<open>Adding a user to an existing room and removing the user again restores the service exactly, members,
  gateway views and gauges included, when the user was not a member and the views are exact.\<close>

lemma AddUser_RemoveUser_roundtrip:
  assumes "rooms_wf rs" and "exact rs" and "RoomExists r rs" and "member r u rs = None"
  shows "RemoveUser r u (AddUser r u g now rs) = rs"
proof -
  obtain room where room: "GetRoom r rs = Some room"
    using assms(3) by (auto simp: RoomExists_def GetRoom_def)
  have new: "fmlookup (Members room) u = None" "u |\<notin>| view g room"
    using assms(2,4) room exactD [OF assms(2), of u r g] by (auto simp: member_def view_in_def)
  let ?room1 = "room_AddUser u g now room"
  let ?rs1 = "(put_room r ?room1 rs)\<lparr>RoomserverUsers := RoomserverUsers rs + 1\<rparr>"
  have "GetRoom r ?rs1 = Some ?room1" "fmlookup (Members ?room1) u = Some (new_member u g now)"
    by (simp_all add: GetRoom_def put_room_def room_AddUser_def)
  then have "RemoveUser r u ?rs1 =
      (put_room r (room_RemoveUser u (new_member u g now) ?room1) ?rs1)\<lparr>RoomserverUsers := RoomserverUsers rs\<rparr>"
    by (simp add: RemoveUser_def)
  moreover have "views_ok room"
    using rooms_wf_room [OF assms(1) room] by (simp add: room_wf_def)
  ultimately show ?thesis
    by (simp add: AddUser_existing [OF room] room_add_remove new put_room_undo [OF room])
qed

lemma AddUser_RemoveUser_roundtrip_example:
  "RemoveUser ''r'' ''v'' (AddUser ''r'' ''v'' ''h'' 9 (AddUser ''r'' ''u'' ''g'' 7 NewRoomService))
     = AddUser ''r'' ''u'' ''g'' 7 NewRoomService"
  by (rule AddUser_RemoveUser_roundtrip)
     (simp_all add: AddUser_wf NewRoomService_wf exact_AddUser exact_New room_simps)

text \<open>Moving a user to a gateway (the resume path) succeeds exactly when the user is a member of the room;
  it marks the member online on the new gateway, moves the user from the old gateway's view
  to the new one, and changes no other member, view or room.\<close>

lemma UpdateUserGateway_moves_user:
  assumes "rooms_wf rs" and "member r u rs = Some m"
  shows "\<exists>rs'. UpdateUserGateway r u g rs = (True, rs')
    \<and> member r u rs' = Some (m\<lparr>rm_GatewayID := g, rm_Status := MemberStatusOnline, rm_DisconnectTime := zero_time\<rparr>)
    \<and> (\<forall>r' u'. (r', u') \<noteq> (r, u) \<longrightarrow> member r' u' rs' = member r' u' rs)
    \<and> view_in r g rs' = finsert u (view_in r g rs)
    \<and> (rm_GatewayID m \<noteq> g \<longrightarrow> view_in r (rm_GatewayID m) rs' = view_in r (rm_GatewayID m) rs |-| {|u|})
    \<and> (\<forall>r' g'. r' \<noteq> r \<or> (g' \<noteq> g \<and> g' \<noteq> rm_GatewayID m) \<longrightarrow> view_in r' g' rs' = view_in r' g' rs)"
proof (intro exI conjI)
  show "UpdateUserGateway r u g rs = (True, snd (UpdateUserGateway r u g rs))"
    using assms(2) UpdateUserGateway_result by (metis option.distinct(1) prod.collapse)
  have "u |\<in>| view_in r (rm_GatewayID m) rs" by (rule view_in_wf [OF assms])
  then show "view_in r g (snd (UpdateUserGateway r u g rs)) = finsert u (view_in r g rs)"
    using assms(2) by (auto simp: room_simps)
qed (use assms(2) in \<open>auto simp: room_simps\<close>)

lemma UpdateUserGateway_moves_user_example:
  "\<exists>rs'. UpdateUserGateway ''r'' ''u'' ''h'' (AddUser ''r'' ''u'' ''g'' 7 NewRoomService) = (True, rs')
    \<and> view_in ''r'' ''h'' rs' = {|''u''|} \<and> view_in ''r'' ''g'' rs' = {||}"
  using UpdateUserGateway_moves_user
    [OF AddUser_wf [OF NewRoomService_wf], of "''r''" "''u''" "''r''" "''u''" "''g''" 7
        "new_member ''u'' ''g'' 7" "''h''"]
  by (auto simp: room_simps new_member_def)

end
