(* ===== verification/Recovery.thy ===== *)
theory Recovery
  imports Go_Runtime
begin

text \<open>
  Recovery bookkeeping of a restarted roomserver (\<open>internal/roomserver/recovery.go\<close>): counters of
  gateways that finished their resync and of users received, kept in 32-bit atomics, and a
  channel that is closed once, either when the expected number of gateways has reported or when
  the timeout fires.
\<close>

type_synonym int32 = "32 word"

text \<open>\<open>done\<close> is only ever closed: it is the flag whether it was. \<open>doneOnce\<close> makes closing idempotent.\<close>

record RecoveryState =
  startTime :: instant
  timeout :: duration
  is_done :: bool
  expectedGateways :: int32
  completedGateways :: int32
  receivedUsers :: int32

definition NewRecoveryState :: "duration \<Rightarrow> instant \<Rightarrow> RecoveryState" where
  "NewRecoveryState t now =
     \<lparr>startTime = now, timeout = t, is_done = False, expectedGateways = 0, completedGateways = 0,
      receivedUsers = 0\<rparr>"

definition SetExpectedGateways :: "int \<Rightarrow> RecoveryState \<Rightarrow> RecoveryState" where
  "SetExpectedGateways n r = r\<lparr>expectedGateways := word_of_int n\<rparr>"

definition finish :: "RecoveryState \<Rightarrow> RecoveryState" where
  "finish r = r\<lparr>is_done := True\<rparr>"

text \<open>The counters are signed: the comparisons are those of \<open>int32\<close>.\<close>

definition OnGatewayComplete :: "RecoveryState \<Rightarrow> RecoveryState" where
  "OnGatewayComplete r =
     (let completed = completedGateways r + 1;
          r1 = r\<lparr>completedGateways := completed\<rparr>;
          expected = expectedGateways r1
      in if sint expected > 0 \<and> sint completed \<ge> sint expected then finish r1 else r1)"

definition OnUsersReceived :: "int \<Rightarrow> RecoveryState \<Rightarrow> RecoveryState" where
  "OnUsersReceived n r = r\<lparr>receivedUsers := receivedUsers r + word_of_int n\<rparr>"

text \<open>
  \<open>Wait\<close> started its timer at \<open>started\<close>. At the instant \<open>now\<close> it is still blocked (\<open>None\<close>), or it
  returns: through the closed channel, or through the timer, in which case it closes the channel.
\<close>

definition Wait :: "instant \<Rightarrow> instant \<Rightarrow> RecoveryState \<Rightarrow> RecoveryState option" where
  "Wait started now r =
     (if is_done r then Some r
      else if now - started \<ge> timeout r then Some (finish r)
      else None)"

definition Duration :: "instant \<Rightarrow> RecoveryState \<Rightarrow> duration" where
  "Duration now r = time_since now (startTime r)"

definition ReceivedUsers :: "RecoveryState \<Rightarrow> int" where
  "ReceivedUsers r = sint (receivedUsers r)"

definition CompletedGateways :: "RecoveryState \<Rightarrow> int" where
  "CompletedGateways r = sint (completedGateways r)"

section \<open>Lemmas\<close>

lemma recovery_frame [simp]:
  "timeout (OnGatewayComplete r) = timeout r" "timeout (OnUsersReceived n r) = timeout r"
  "expectedGateways (OnGatewayComplete r) = expectedGateways r"
  "expectedGateways (OnUsersReceived n r) = expectedGateways r"
  "completedGateways (OnUsersReceived n r) = completedGateways r"
  "completedGateways (OnGatewayComplete r) = completedGateways r + 1"
  "is_done (OnUsersReceived n r) = is_done r" "is_done (finish r)"
  by (simp_all add: OnGatewayComplete_def OnUsersReceived_def finish_def Let_def)

lemma OnGatewayComplete_done:
  "is_done (OnGatewayComplete r) \<longleftrightarrow> is_done r \<or>
     (sint (expectedGateways r) > 0 \<and> sint (completedGateways r + 1) \<ge> sint (expectedGateways r))"
  by (auto simp: OnGatewayComplete_def finish_def Let_def)

lemma completed_funpow: "completedGateways ((OnGatewayComplete ^^ n) r) = completedGateways r + of_nat n"
  by (induction n) simp_all

lemma expected_funpow [simp]: "expectedGateways ((OnGatewayComplete ^^ n) r) = expectedGateways r"
  by (induction n) simp_all

lemma sint_of_nat_small: "n < 2 ^ 31 \<Longrightarrow> sint (of_nat n :: int32) = int n"
  using sint_sbintrunc' [of "int n", where 'a = 32] by (simp add: signed_take_bit_int_eq_self)

text \<open>
  With \<open>k\<close> expected gateways, \<open>0 < k < 2^31\<close>, recovery ends with the report of the \<open>k\<close>-th gateway
  and not earlier.
\<close>

lemma done_iff_expected:
  assumes "k < 2 ^ 31" and "n < 2 ^ 31" and "0 < k"
  shows "is_done ((OnGatewayComplete ^^ n) (SetExpectedGateways (int k) (NewRecoveryState t now))) \<longleftrightarrow> k \<le> n"
  using assms(2)
proof (induction n)
  case 0
  then show ?case using assms(3) by (simp add: SetExpectedGateways_def NewRecoveryState_def)
next
  case (Suc n)
  let ?r = "SetExpectedGateways (int k) (NewRecoveryState t now)"
  have e: "expectedGateways ?r = of_nat k" by (simp add: SetExpectedGateways_def)
  have "completedGateways ((OnGatewayComplete ^^ n) ?r) + 1 = of_nat (Suc n)"
    by (simp add: completed_funpow) (simp add: SetExpectedGateways_def NewRecoveryState_def)
  with Suc show ?case
    by (simp add: OnGatewayComplete_done e sint_of_nat_small [OF assms(1)] sint_of_nat_small [OF Suc.prems] assms(3)
        del: of_nat_Suc) linarith
qed

text \<open>With no expected gateways set, no number of reports ends the recovery.\<close>

lemma never_done_without_expected:
  assumes "expectedGateways r = 0" and "\<not> is_done r"
  shows "\<not> is_done ((OnGatewayComplete ^^ n) r)"
  using assms by (induction n) (simp_all add: OnGatewayComplete_done)

end
