(* ===== verification/HashRing.thy ===== *)
theory HashRing
  imports Go_Runtime
begin

text \<open>
  The consistent-hash ring of \<open>internal/roomserver/hashring.go\<close>. The state is the sorted slice
  of virtual-node hashes and the map from hash to node; \<open>AddNode\<close>, \<open>RemoveNode\<close>, \<open>GetNode\<close> and
  \<open>IsLocalNode\<close> follow the source, with the CRC-32 hash, the binary search of \<open>sort.Search\<close> and
  the run-time check of \<open>make\<close>. \<open>successor\<close> is the abstract meaning of a lookup: the first hash
  at or after the key's, around the circle.
\<close>

section \<open>Definitions\<close>

record HashRing =
  virtualNodes :: int
  ring :: "uint32 list"
  nodes :: "(uint32, string) fmap"

definition NewHashRing :: "int \<Rightarrow> HashRing" where
  "NewHashRing vn = \<lparr>virtualNodes = vn, ring = [], nodes = fmempty\<rparr>"

definition ring_hash :: "string \<Rightarrow> uint32" where
  "ring_hash key = ChecksumIEEE key"

definition vnode_key :: "string \<Rightarrow> nat \<Rightarrow> string" where
  "vnode_key nodeID i = nodeID @ ''#'' @ Itoa (int i)"

definition add_vnode :: "string \<Rightarrow> HashRing \<Rightarrow> nat \<Rightarrow> HashRing" where
  "add_vnode nodeID h i =
     (let hash = ring_hash (vnode_key nodeID i)
      in h\<lparr>ring := ring h @ [hash], nodes := fmupd hash nodeID (nodes h)\<rparr>)"

text \<open>\<open>sort.Slice\<close> with \<open><\<close> on \<open>uint32\<close>: the sorted permutation is unique.\<close>

definition AddNode :: "string \<Rightarrow> HashRing \<Rightarrow> HashRing" where
  "AddNode nodeID h =
     (let h' = foldl (add_vnode nodeID) h [0 ..< nat (virtualNodes h)]
      in h'\<lparr>ring := sort (ring h')\<rparr>)"

text \<open>\<open>h.nodes[hash]\<close> is the empty string for a hash without an entry.\<close>

definition node_at :: "(uint32, string) fmap \<Rightarrow> uint32 \<Rightarrow> string" where
  "node_at m x = (case fmlookup m x of Some n \<Rightarrow> n | None \<Rightarrow> '''')"

fun RemoveNode_loop ::
  "string \<Rightarrow> uint32 list \<Rightarrow> uint32 list \<Rightarrow> (uint32, string) fmap \<Rightarrow> uint32 list \<times> (uint32, string) fmap"
where
  "RemoveNode_loop nodeID [] newRing m = (newRing, m)"
| "RemoveNode_loop nodeID (x # xs) newRing m =
     (if node_at m x \<noteq> nodeID then RemoveNode_loop nodeID xs (newRing @ [x]) m
      else RemoveNode_loop nodeID xs newRing (fmdrop x m))"

text \<open>\<open>make([]uint32, 0, len(h.ring)-h.virtualNodes)\<close> panics on a negative capacity.\<close>

definition RemoveNode :: "string \<Rightarrow> HashRing \<Rightarrow> HashRing go" where
  "RemoveNode nodeID h =
     (if int (length (ring h)) - virtualNodes h < 0 then Inl (Panic ''makeslice: cap out of range'')
      else (case RemoveNode_loop nodeID (ring h) [] (nodes h) of
              (newRing, m) \<Rightarrow> Inr (h\<lparr>ring := newRing, nodes := m\<rparr>)))"

definition GetNode :: "string \<Rightarrow> HashRing \<Rightarrow> string" where
  "GetNode key h =
     (if ring h = [] then ''''
      else
        let hash = ring_hash key;
            idx = Search (length (ring h)) (\<lambda>i. ring h ! i \<ge> hash);
            idx' = (if idx \<ge> length (ring h) then 0 else idx)
        in node_at (nodes h) (ring h ! idx'))"

definition IsLocalNode :: "string \<Rightarrow> string \<Rightarrow> HashRing \<Rightarrow> bool" where
  "IsLocalNode key localNodeID h \<longleftrightarrow> GetNode key h = localNodeID"

section \<open>Specification\<close>

definition successor :: "uint32 set \<Rightarrow> uint32 \<Rightarrow> uint32" where
  "successor S k = (if \<exists>x \<in> S. k \<le> x then Min {x \<in> S. k \<le> x} else Min S)"

definition vnode_hashes :: "string \<Rightarrow> int \<Rightarrow> uint32 list" where
  "vnode_hashes nodeID vn = map (\<lambda>i. ring_hash (vnode_key nodeID i)) [0 ..< nat vn]"

text \<open>
  Between calls the slice is sorted, free of duplicates and holds exactly the hashes that the map
  assigns to a node.
\<close>

definition ring_wf :: "HashRing \<Rightarrow> bool" where
  "ring_wf h \<longleftrightarrow> sorted (ring h) \<and> distinct (ring h) \<and> set (ring h) = fset (fmdom (nodes h))"

text \<open>A node collides when one of its virtual-node hashes repeats or is taken already.\<close>

definition no_collision :: "string \<Rightarrow> HashRing \<Rightarrow> bool" where
  "no_collision nodeID h \<longleftrightarrow> distinct (ring h @ vnode_hashes nodeID (virtualNodes h))"

section \<open>Lemmas\<close>

lemma successor_in: "finite S \<Longrightarrow> S \<noteq> {} \<Longrightarrow> successor S k \<in> S"
proof (cases "\<exists>x \<in> S. k \<le> x")
  case True
  assume "finite S"
  with True have "Min {x \<in> S. k \<le> x} \<in> {x \<in> S. k \<le> x}" by (intro Min_in) auto
  with True show ?thesis by (simp add: successor_def)
qed (simp add: successor_def)

lemma successor_single: "successor {x} k = x"
  using successor_in [of "{x}" k] by simp

text \<open>Removing hashes other than the successor leaves the successor where it is.\<close>

lemma successor_mono:
  assumes "finite T" and "S \<subseteq> T" and "successor T k \<in> S"
  shows "successor S k = successor T k"
proof (cases "\<exists>x \<in> T. k \<le> x")
  case True
  then have s: "successor T k = Min {x \<in> T. k \<le> x}" by (simp add: successor_def)
  have "Min {x \<in> T. k \<le> x} \<in> {x \<in> T. k \<le> x}" using True assms(1) by (intro Min_in) auto
  then have in_S: "Min {x \<in> T. k \<le> x} \<in> {x \<in> S. k \<le> x}" using assms(3) s by auto
  have "Min {x \<in> S. k \<le> x} = Min {x \<in> T. k \<le> x}"
    using in_S assms(1,2) by (intro Min_eqI) (auto intro: finite_subset Min_le)
  with in_S s show ?thesis by (auto simp: successor_def)
next
  case False
  then have s: "successor T k = Min T" and "\<not> (\<exists>x \<in> S. k \<le> x)"
    using assms(2) by (auto simp: successor_def)
  moreover have "Min S = Min T"
    using assms s by (intro Min_eqI) (auto intro: finite_subset Min_le)
  ultimately show ?thesis by (simp add: successor_def)
qed

lemma sorted_Min: "sorted xs \<Longrightarrow> xs \<noteq> [] \<Longrightarrow> Min (set xs) = xs ! 0"
  by (cases xs) (auto intro!: Min_eqI)

lemma GetNode_successor:
  assumes "sorted (ring h)" and "ring h \<noteq> []"
  shows "GetNode key h = node_at (nodes h) (successor (set (ring h)) (ring_hash key))"
proof -
  define k where "k = ring_hash key"
  define n where "n = length (ring h)"
  define i where "i = Search n (\<lambda>i. ring h ! i \<ge> k)"
  have "\<forall>a b. a \<le> b \<longrightarrow> b < n \<longrightarrow> k \<le> ring h ! a \<longrightarrow> k \<le> ring h ! b"
    using sorted_nth_mono [OF assms(1)] unfolding n_def by (blast intro: order_trans)
  from Search_least [OF this, folded i_def]
  have le: "i \<le> n" and below: "\<And>j. j < i \<Longrightarrow> \<not> k \<le> ring h ! j" and at: "i < n \<Longrightarrow> k \<le> ring h ! i"
    by blast+
  have "successor (set (ring h)) k = ring h ! (if n \<le> i then 0 else i)"
  proof (cases "i < n")
    case True
    have "Min {x \<in> set (ring h). k \<le> x} = ring h ! i"
    proof (rule Min_eqI)
      fix y assume "y \<in> {x \<in> set (ring h). k \<le> x}"
      then obtain j where j: "j < n" "y = ring h ! j" "k \<le> y" by (auto simp: n_def in_set_conv_nth)
      with below have "i \<le> j" by (metis not_less)
      with j assms(1) show "ring h ! i \<le> y" by (simp add: n_def sorted_nth_mono)
    qed (use True at in \<open>auto simp: n_def\<close>)
    moreover have "\<exists>x \<in> set (ring h). k \<le> x" using True at by (auto simp: n_def)
    ultimately show ?thesis using True by (simp add: successor_def)
  next
    case False
    with le below have "\<not> (\<exists>x \<in> set (ring h). k \<le> x)" by (auto simp: n_def in_set_conv_nth)
    then have "successor (set (ring h)) k = Min (set (ring h))" by (simp add: successor_def)
    also have "\<dots> = ring h ! 0" using assms by (rule sorted_Min)
    finally show ?thesis using False by simp
  qed
  then show ?thesis
    using assms(2) by (simp add: GetNode_def Let_def k_def n_def i_def)
qed

lemma add_vnodes:
  "ring (foldl (add_vnode n) h is) = ring h @ map (\<lambda>i. ring_hash (vnode_key n i)) is"
  "fmlookup (nodes (foldl (add_vnode n) h is)) x =
     (if x \<in> set (map (\<lambda>i. ring_hash (vnode_key n i)) is) then Some n else fmlookup (nodes h) x)"
  "virtualNodes (foldl (add_vnode n) h is) = virtualNodes h"
  by (induction "is" arbitrary: h) (auto simp: add_vnode_def Let_def)

lemma AddNode_simps [simp]:
  "ring (AddNode n h) = sort (ring h @ vnode_hashes n (virtualNodes h))"
  "fmlookup (nodes (AddNode n h)) x =
     (if x \<in> set (vnode_hashes n (virtualNodes h)) then Some n else fmlookup (nodes h) x)"
  "virtualNodes (AddNode n h) = virtualNodes h"
  by (simp_all add: AddNode_def Let_def add_vnodes vnode_hashes_def)

lemma RemoveNode_loop_spec:
  assumes "distinct xs"
  shows "RemoveNode_loop n xs acc m =
    (acc @ filter (\<lambda>x. node_at m x \<noteq> n) xs, fmfilter (\<lambda>x. x \<in> set xs \<longrightarrow> node_at m x \<noteq> n) m)"
  using assms
proof (induction xs arbitrary: acc m)
  case Nil
  then show ?case by (auto intro!: fmap_ext)
next
  case (Cons x xs)
  have other: "node_at (fmdrop x m) y = node_at m y" if "y \<in> set xs" for y
    using that Cons.prems by (auto simp: node_at_def)
  show ?case
  proof (cases "node_at m x = n")
    case True
    have "filter (\<lambda>y. node_at (fmdrop x m) y \<noteq> n) xs = filter (\<lambda>y. node_at m y \<noteq> n) xs"
      using other by (intro filter_cong) auto
    moreover have "fmfilter (\<lambda>y. y \<in> set xs \<longrightarrow> node_at (fmdrop x m) y \<noteq> n) (fmdrop x m) =
        fmfilter (\<lambda>y. y \<in> set (x # xs) \<longrightarrow> node_at m y \<noteq> n) m"
      using True other by (intro fmap_ext) auto
    ultimately show ?thesis using True Cons by simp
  next
    case False
    then have "fmfilter (\<lambda>y. y \<in> set xs \<longrightarrow> node_at m y \<noteq> n) m =
        fmfilter (\<lambda>y. y \<in> set (x # xs) \<longrightarrow> node_at m y \<noteq> n) m"
      by (intro fmap_ext) auto
    with False Cons show ?thesis by simp
  qed
qed

lemma ring_wfD:
  assumes "ring_wf h"
  shows "sorted (ring h)" "distinct (ring h)" "set (ring h) = fset (fmdom (nodes h))"
  using assms by (simp_all add: ring_wf_def)

lemma ring_wf_New: "ring_wf (NewHashRing vn)"
  by (simp add: ring_wf_def NewHashRing_def)

lemma ring_wf_AddNode: "ring_wf h \<Longrightarrow> no_collision n h \<Longrightarrow> ring_wf (AddNode n h)"
  by (auto simp: ring_wf_def no_collision_def fmlookup_dom_iff split: if_splits)

lemma RemoveNode_wf:
  assumes "ring_wf h" and "RemoveNode n h = Inr h'"
  shows "ring h' = filter (\<lambda>x. node_at (nodes h) x \<noteq> n) (ring h)"
    and "nodes h' = fmfilter (\<lambda>x. node_at (nodes h) x \<noteq> n) (nodes h)"
    and "ring_wf h'"
proof -
  have eqs: "ring h' = filter (\<lambda>x. node_at (nodes h) x \<noteq> n) (ring h)"
    "nodes h' = fmfilter (\<lambda>x. x \<in> set (ring h) \<longrightarrow> node_at (nodes h) x \<noteq> n) (nodes h)"
    using assms(2) ring_wfD(2) [OF assms(1)]
    by (auto simp: RemoveNode_def RemoveNode_loop_spec split: if_splits)
  show r: "ring h' = filter (\<lambda>x. node_at (nodes h) x \<noteq> n) (ring h)" by (rule eqs)
  show m: "nodes h' = fmfilter (\<lambda>x. node_at (nodes h) x \<noteq> n) (nodes h)"
    unfolding eqs using ring_wfD(3) [OF assms(1)] by (intro fmap_ext) (auto dest: fmdomI)
  show "ring_wf h'"
    using ring_wfD [OF assms(1)] by (auto simp: ring_wf_def r m sorted_wrt_filter)
qed

lemma node_at_fmfilter: "node_at (fmfilter P m) x = (if P x then node_at m x else '''')"
  by (simp add: node_at_def)

lemma node_at_AddNode:
  "node_at (nodes (AddNode n h)) x =
     (if x \<in> set (vnode_hashes n (virtualNodes h)) then n else node_at (nodes h) x)"
  by (simp add: node_at_def)

lemma HashRing_eqI:
  fixes h h' :: HashRing
  shows "virtualNodes h = virtualNodes h' \<Longrightarrow> ring h = ring h' \<Longrightarrow> nodes h = nodes h' \<Longrightarrow> h = h'"
  by simp

text \<open>
  The removal loop on any slice: what stays comes from the slice, the map loses exactly the
  node's hashes, and one slot per distinct hash of the node is dropped.
\<close>

lemma RemoveNode_loop_count:
  assumes "n \<noteq> ''''"
  shows "(\<forall>x. fmlookup (snd (RemoveNode_loop n ys acc m)) x =
            (if x \<in> set ys \<and> node_at m x = n then None else fmlookup m x))
      \<and> length (fst (RemoveNode_loop n ys acc m)) + card {x \<in> set ys. node_at m x = n}
          = length acc + length ys"
proof (induction ys arbitrary: acc m)
  case (Cons y ys)
  show ?case
  proof (cases "node_at m y = n")
    case False
    then have "{x \<in> set (y # ys). node_at m x = n} = {x \<in> set ys. node_at m x = n}" by auto
    with False Cons [of "acc @ [y]" m] show ?thesis by auto
  next
    case True
    have na: "node_at (fmdrop y m) x = (if x = y then '''' else node_at m x)" for x
      by (simp add: node_at_def)
    have "{x \<in> set (y # ys). node_at m x = n} = insert y {x \<in> set ys. node_at (fmdrop y m) x = n}"
      using True assms by (auto simp: na)
    moreover have "y \<notin> {x \<in> set ys. node_at (fmdrop y m) x = n}" using assms by (simp add: na)
    ultimately have "card {x \<in> set (y # ys). node_at m x = n} =
        Suc (card {x \<in> set ys. node_at (fmdrop y m) x = n})" by simp
    with True assms Cons [of acc "fmdrop y m"] show ?thesis by (auto simp: na split: if_splits)
  qed
qed simp

lemma RemoveNode_AddNode:
  assumes "ring_wf h" and "no_collision n h" and "\<forall>x \<in> set (ring h). node_at (nodes h) x \<noteq> n"
    and "n \<noteq> ''''"
  shows "RemoveNode n (AddNode n h) = Inr h"
proof -
  let ?V = "vnode_hashes n (virtualNodes h)"
  have "RemoveNode n (AddNode n h) \<noteq> Inl e" for e
    by (auto simp: RemoveNode_def vnode_hashes_def split: prod.splits)
  then obtain h' where h': "RemoveNode n (AddNode n h) = Inr h'"
    by (cases "RemoveNode n (AddNode n h)") auto
  note wf = ring_wfD [OF assms(1)]
  have disj: "set (ring h) \<inter> set ?V = {}" using assms(2) by (auto simp: no_collision_def)
  note rm = RemoveNode_wf [OF ring_wf_AddNode [OF assms(1,2)] h']
  have "ring h' = sort (filter (\<lambda>x. node_at (nodes (AddNode n h)) x \<noteq> n) (ring h @ ?V))"
    by (simp add: rm(1) filter_sort)
  also have "filter (\<lambda>x. node_at (nodes (AddNode n h)) x \<noteq> n) (ring h @ ?V) = ring h"
    using assms(3) disj by (auto simp: node_at_AddNode filter_id_conv filter_empty_conv)
  finally have "ring h' = ring h" using wf(1) by (simp add: sorted_sort_id)
  moreover have "nodes h' = nodes h"
  proof (rule fmap_ext)
    fix x
    show "fmlookup (nodes h') x = fmlookup (nodes h) x"
    proof (cases "x \<in> set (ring h)")
      case True
      with disj assms(3) show ?thesis by (auto simp: rm(2) node_at_AddNode)
    next
      case False
      then have "fmlookup (nodes h) x = None" using wf(3) by (auto simp: fmdom_iff_lookup)
      then show ?thesis by (simp add: rm(2) node_at_AddNode)
    qed
  qed
  moreover have "virtualNodes h' = virtualNodes h"
    using h' by (auto simp: RemoveNode_def split: if_splits prod.splits)
  ultimately show ?thesis using h' by simp
qed

section \<open>Properties\<close>

text \<open>C14. Lookup is the clockwise successor: on a sorted, non-empty ring \<open>GetNode\<close> returns the node of the
  least hash at or above the key's hash, or of the least hash of all when there is none. The
  binary search therefore always lands on the right slot, wrap-around included.\<close>

theorem GetNode_is_successor:
  assumes "sorted (ring h)" and "ring h \<noteq> []"
  shows "GetNode key h = node_at (nodes h) (successor (set (ring h)) (ring_hash key))"
  using assms by (rule GetNode_successor)

theorem GetNode_is_successor_witness:
  "GetNode ''room-1'' \<lparr>virtualNodes = 1, ring = [5], nodes = fmupd 5 ''n'' fmempty\<rparr> = ''n''"
  using GetNode_is_successor [of "\<lparr>virtualNodes = 1, ring = [5], nodes = fmupd 5 ''n'' fmempty\<rparr>"
      "''room-1''"]
  by (simp add: successor_single node_at_def)

text \<open>C15. Adding a node moves keys only to the new node: after \<open>AddNode\<close> every key is served by the new
  node or by the node that served it before. This holds for every ring that is sorted, even when
  virtual-node hashes collide.\<close>

theorem AddNode_moves_only_to_new_node:
  assumes "sorted (ring h)"
  shows "GetNode key (AddNode n h) \<in> {n, GetNode key h}"
proof (cases "ring (AddNode n h) = []")
  case True
  then have "ring h = []" by (metis AddNode_simps(1) append_is_Nil_conv set_empty set_sort)
  with True show ?thesis by (simp add: GetNode_def)
next
  case False
  define V where "V = set (vnode_hashes n (virtualNodes h))"
  define s where "s = successor (set (ring h) \<union> V) (ring_hash key)"
  have get: "GetNode key (AddNode n h) = node_at (nodes (AddNode n h)) s"
    using GetNode_successor [of "AddNode n h" key] False by (simp add: s_def V_def)
  have "s \<in> set (ring h) \<union> V"
    unfolding s_def using False by (intro successor_in) (auto simp: V_def)
  show ?thesis
  proof (cases "s \<in> V")
    case True
    then show ?thesis by (simp add: get node_at_AddNode V_def)
  next
    case False
    with \<open>s \<in> set (ring h) \<union> V\<close> have s: "s \<in> set (ring h)" by simp
    then have "successor (set (ring h)) (ring_hash key) = s"
      unfolding s_def by (intro successor_mono) (auto simp: V_def)
    with s assms have "GetNode key h = node_at (nodes h) s" by (subst GetNode_successor) auto
    with False show ?thesis by (simp add: get node_at_AddNode V_def)
  qed
qed

theorem AddNode_moves_only_to_new_node_witness:
  "GetNode ''room-1'' (AddNode ''m'' \<lparr>virtualNodes = 1, ring = [5], nodes = fmupd 5 ''n'' fmempty\<rparr>)
     \<in> {''m'', GetNode ''room-1'' \<lparr>virtualNodes = 1, ring = [5], nodes = fmupd 5 ''n'' fmempty\<rparr>}"
  by (rule AddNode_moves_only_to_new_node) simp

text \<open>C16. Removing a node moves only its own keys: on a well-formed ring \<open>RemoveNode\<close> keeps the ring
  well-formed, the removed node serves no key afterwards, and every key that another node served
  stays with that node.\<close>

theorem RemoveNode_moves_only_its_keys:
  assumes "ring_wf h" and "RemoveNode n h = Inr h'" and "n \<noteq> ''''"
  shows "ring_wf h' \<and> GetNode key h' \<noteq> n \<and> (GetNode key h \<noteq> n \<longrightarrow> GetNode key h' = GetNode key h)"
proof -
  note rm = RemoveNode_wf [OF assms(1,2)]
  define s where "s = successor (set (ring h)) (ring_hash key)"
  have get': "GetNode key h' = node_at (nodes h') (successor (set (ring h')) (ring_hash key))"
    if "ring h' \<noteq> []" using that ring_wfD(1) [OF rm(3)] by (intro GetNode_successor)
  have "GetNode key h' \<noteq> n"
  proof (cases "ring h' = []")
    case True
    with assms(3) show ?thesis by (simp add: GetNode_def)
  next
    case False
    then have "successor (set (ring h')) (ring_hash key) \<in> set (ring h')" by (intro successor_in) auto
    with False show ?thesis by (simp add: get' rm(1) rm(2) node_at_fmfilter)
  qed
  moreover have "GetNode key h' = GetNode key h" if other: "GetNode key h \<noteq> n"
  proof (cases "ring h = []")
    case True
    then show ?thesis by (simp add: GetNode_def rm(1))
  next
    case False
    have get: "GetNode key h = node_at (nodes h) s"
      unfolding s_def using False ring_wfD(1) [OF assms(1)] by (intro GetNode_successor)
    have "s \<in> set (ring h)" unfolding s_def using False by (intro successor_in) auto
    with get other have s: "s \<in> set (ring h')" by (simp add: rm(1))
    then have "successor (set (ring h')) (ring_hash key) = s"
      unfolding s_def by (intro successor_mono) (auto simp: rm(1))
    moreover have "ring h' \<noteq> []" using s by auto
    ultimately show ?thesis using s other by (simp add: get get' rm(1,2) node_at_fmfilter)
  qed
  ultimately show ?thesis using rm(3) by blast
qed

theorem RemoveNode_moves_only_its_keys_witness:
  "GetNode ''room-1'' \<lparr>virtualNodes = 1, ring = [5], nodes = fmupd 5 ''n'' fmempty\<rparr> \<noteq> ''m''"
proof -
  define h where "h = \<lparr>virtualNodes = 1, ring = [5, 9], nodes = fmupd 5 ''n'' (fmupd 9 ''m'' fmempty)\<rparr>"
  define h' where "h' = \<lparr>virtualNodes = 1, ring = [5], nodes = fmupd 5 ''n'' fmempty\<rparr>"
  have "ring_wf h" by (simp add: ring_wf_def h_def)
  moreover have "RemoveNode ''m'' h = Inr h'"
    by (simp add: RemoveNode_def h_def h'_def node_at_def fmdrop_fmupd)
  ultimately have "GetNode ''room-1'' h' \<noteq> ''m''"
    using RemoveNode_moves_only_its_keys [of h "''m''" h'] by simp
  then show ?thesis by (simp add: h'_def)
qed

text \<open>A node that joins and leaves without a hash collision leaves no trace: on a well-formed ring that
  does not hold the node, \<open>RemoveNode\<close> after \<open>AddNode\<close> succeeds and restores the ring exactly.\<close>

lemma AddNode_RemoveNode_restores:
  assumes "ring_wf h" and "no_collision n h" and "\<forall>x \<in> set (ring h). node_at (nodes h) x \<noteq> n"
    and "n \<noteq> ''''"
  shows "RemoveNode n (AddNode n h) = Inr h"
  using assms by (rule RemoveNode_AddNode)

lemma AddNode_RemoveNode_restores_example:
  "RemoveNode ''m'' (AddNode ''m'' (NewHashRing 1)) = Inr (NewHashRing 1)"
  by (rule AddNode_RemoveNode_restores)
    (simp_all add: ring_wf_New no_collision_def vnode_hashes_def, simp_all add: NewHashRing_def)

text \<open>The ring does not depend on the order in which nodes were added: two servers that add the same
  two nodes in different orders hold equal rings, as long as the nodes' virtual-node hashes do
  not collide, so they route every key to the same node.\<close>

lemma AddNode_order_irrelevant:
  assumes "set (vnode_hashes a (virtualNodes h)) \<inter> set (vnode_hashes b (virtualNodes h)) = {}"
  shows "AddNode a (AddNode b h) = AddNode b (AddNode a h)"
proof (rule HashRing_eqI)
  have "sort (sort (ring h @ xs) @ ys) = sort (sort (ring h @ ys) @ xs)" for xs ys :: "uint32 list"
    by (intro properties_for_sort) (simp_all add: ac_simps)
  then show "ring (AddNode a (AddNode b h)) = ring (AddNode b (AddNode a h))" by simp
  show "nodes (AddNode a (AddNode b h)) = nodes (AddNode b (AddNode a h))"
    using assms by (intro fmap_ext) auto
qed simp

lemma AddNode_order_irrelevant_example:
  "AddNode ''m'' (AddNode ''n'' (NewHashRing 1)) = AddNode ''n'' (AddNode ''m'' (NewHashRing 1))"
proof (rule AddNode_order_irrelevant)
  have "vnode_key n 0 = n @ ''#0''" for n
    by code_simp
  then have "ring_hash (vnode_key ''m'' 0) = 0x273EC6AC" and "ring_hash (vnode_key ''n'' 0) = 0x257878F5"
    by (simp_all add: ring_hash_def crc_eval)
  then show "set (vnode_hashes ''m'' (virtualNodes (NewHashRing 1))) \<inter>
      set (vnode_hashes ''n'' (virtualNodes (NewHashRing 1))) = {}"
    by (simp add: vnode_hashes_def NewHashRing_def)
qed

text \<open>A node that is added twice cannot be removed: on an empty ring with at least one virtual node and
  no collision among the node's own hashes, two \<open>AddNode\<close> calls and one \<open>RemoveNode\<close> leave a
  ring that is not empty and in which every lookup returns the empty node name.\<close>

lemma AddNode_twice_RemoveNode_orphans:
  assumes "0 < vn" and "distinct (vnode_hashes n vn)" and "n \<noteq> ''''"
  shows "\<exists>h'. RemoveNode n (AddNode n (AddNode n (NewHashRing vn))) = Inr h'
    \<and> ring h' \<noteq> [] \<and> (\<forall>key. GetNode key h' = '''')"
proof -
  define V where "V = vnode_hashes n vn"
  define h where "h = AddNode n (AddNode n (NewHashRing vn))"
  have ring_h: "ring h = sort (V @ V)"
    unfolding h_def V_def by (simp add: NewHashRing_def) (intro properties_for_sort; simp)
  have nodes_h: "fmlookup (nodes h) x = (if x \<in> set V then Some n else None)" for x
    by (simp add: h_def V_def NewHashRing_def)
  obtain xs m where run: "RemoveNode_loop n (ring h) [] (nodes h) = (xs, m)" by fastforce
  have "\<forall>x. fmlookup m x = None"
    using RemoveNode_loop_count [OF assms(3), of "ring h" "[]" "nodes h"] run by (auto simp: ring_h nodes_h node_at_def)
  then have empty: "node_at m x = ''''" for x by (simp add: node_at_def)
  have "{x \<in> set (ring h). node_at (nodes h) x = n} = set V" by (auto simp: ring_h nodes_h node_at_def)
  then have "length xs = length V"
    using RemoveNode_loop_count [OF assms(3), of "ring h" "[]" "nodes h"] run assms(2)
    by (simp add: ring_h V_def distinct_card)
  then have ne: "xs \<noteq> []" using assms(1) by (auto simp: V_def vnode_hashes_def)
  have "int (length (ring h)) - virtualNodes h \<ge> 0"
    using assms(1) by (simp add: ring_h V_def vnode_hashes_def) (simp add: h_def NewHashRing_def)
  then have "RemoveNode n h = Inr (h\<lparr>ring := xs, nodes := m\<rparr>)"
    by (simp add: RemoveNode_def run)
  then show ?thesis
    using ne empty by (auto simp: h_def GetNode_def Let_def)
qed

lemma AddNode_twice_RemoveNode_orphans_example:
  "\<exists>h'. RemoveNode ''m'' (AddNode ''m'' (AddNode ''m'' (NewHashRing 1))) = Inr h'
    \<and> ring h' \<noteq> [] \<and> (\<forall>key. GetNode key h' = '''')"
  by (rule AddNode_twice_RemoveNode_orphans) (simp_all add: vnode_hashes_def)

text \<open>Removing a node twice panics: on a ring that holds one node, the first \<open>RemoveNode\<close> succeeds and
  empties the ring, and the next \<open>RemoveNode\<close>, of that node or of any other, asks \<open>make\<close> for a
  negative capacity.\<close>

lemma RemoveNode_twice_panics:
  assumes "0 < vn" and "distinct (vnode_hashes n vn)" and "n \<noteq> ''''"
  shows "\<exists>h'. RemoveNode n (AddNode n (NewHashRing vn)) = Inr h'
    \<and> RemoveNode m h' = Inl (Panic ''makeslice: cap out of range'')"
proof -
  have "RemoveNode n (AddNode n (NewHashRing vn)) = Inr (NewHashRing vn)"
    using assms by (intro RemoveNode_AddNode ring_wf_New) (simp_all add: no_collision_def NewHashRing_def)
  moreover have "RemoveNode m (NewHashRing vn) = Inl (Panic ''makeslice: cap out of range'')"
    using assms(1) by (simp add: RemoveNode_def NewHashRing_def)
  ultimately show ?thesis by blast
qed

lemma RemoveNode_twice_panics_example:
  "\<exists>h'. RemoveNode ''m'' (AddNode ''m'' (NewHashRing 1)) = Inr h'
    \<and> RemoveNode ''m'' h' = Inl (Panic ''makeslice: cap out of range'')"
  by (rule RemoveNode_twice_panics) (simp_all add: vnode_hashes_def)

end
