(* ===== verification/Roomserver.thy ===== *)
theory Roomserver
  imports SessionService RoomService Recovery HashRing
begin

text \<open>
  The roomserver (\<open>internal/roomserver/server.go\<close> and \<open>grpc_server.go\<close>). The state joins the
  room service, the session service and the recovery bookkeeping with the registry of gateway
  connections. Connections are shared by pointer between the registry and the goroutine that
  serves the stream, so they live in a store and the registry holds their addresses: replacing,
  closing and removing a connection act on the object they act on in the code. Each handler of
  a gateway message is one function of the whole state that may fault.
\<close>

section \<open>State\<close>

type_synonym conn_ref = nat

record GatewayConnection =
  gc_id :: gateway_id
  gc_addr :: string
  gc_sendCh :: "Envelope chan"
  gc_closed :: bool

record Server =
  ServerID :: string
  status :: ServerStatus
  epoch :: uint64
  roomSvc :: RoomService
  sessionSvc :: SessionService
  gateways :: "(gateway_id, conn_ref) fmap"
  recovery :: RecoveryState
  hashRing :: HashRing
  RoomserverRecoveryMode :: int
  conns :: "(conn_ref, GatewayConnection) fmap"
  next_ref :: conn_ref

text \<open>\<open>epoch\<close> is the start time in milliseconds; \<open>time.Now().UnixMilli()\<close> rounds down.\<close>

definition UnixMilli :: "instant \<Rightarrow> int" where
  "UnixMilli t = t div 1000000"

definition NewServer :: "string \<Rightarrow> duration \<Rightarrow> int \<Rightarrow> instant \<Rightarrow> Server" where
  "NewServer cfgID recoveryTimeout vnodes now =
     \<lparr>ServerID = cfgID, status = ServerStatusRecovering, epoch = word_of_int (UnixMilli now),
      roomSvc = NewRoomService, sessionSvc = NewSessionService, gateways = fmempty,
      recovery = NewRecoveryState recoveryTimeout now, hashRing = NewHashRing vnodes,
      RoomserverRecoveryMode = 0, conns = fmempty, next_ref = 0\<rparr>"

text \<open>The part of \<open>Start\<close> that changes state; the rest starts goroutines.\<close>

definition Start :: "Server \<Rightarrow> Server" where
  "Start s = s\<lparr>RoomserverRecoveryMode := 1\<rparr>"

section \<open>Rooms and sessions (server.go)\<close>

definition JoinRoom :: "user_id \<Rightarrow> room_id \<Rightarrow> gateway_id \<Rightarrow> instant \<Rightarrow> Server \<Rightarrow> Server" where
  "JoinRoom userID roomID gatewayID now s =
     (let oldRoomID = GetUserRoom userID (sessionSvc s);
          s1 = (if oldRoomID \<noteq> '''' \<and> oldRoomID \<noteq> roomID
                then s\<lparr>roomSvc := RemoveUser oldRoomID userID (roomSvc s)\<rparr> else s);
          s2 = s1\<lparr>roomSvc := AddUser roomID userID gatewayID now (roomSvc s1)\<rparr>
      in s2\<lparr>sessionSvc := UpdateSession userID roomID gatewayID now (sessionSvc s2)\<rparr>)"

definition LeaveRoom :: "user_id \<Rightarrow> room_id \<Rightarrow> Server \<Rightarrow> Server" where
  "LeaveRoom userID roomID s =
     s\<lparr>roomSvc := RemoveUser roomID userID (roomSvc s), sessionSvc := DeleteSession userID (sessionSvc s)\<rparr>"

definition Resume :: "user_id \<Rightarrow> room_id \<Rightarrow> gateway_id \<Rightarrow> instant \<Rightarrow> Server \<Rightarrow> (int \<times> room_id) \<times> Server" where
  "Resume userID roomID gatewayID now s =
     (case GetSession userID (sessionSvc s) of
        None \<Rightarrow> ((ErrCodeUserNotInRoom, ''''), s)
      | Some session \<Rightarrow>
          if s_RoomID session \<noteq> roomID then ((ErrCodeRoomMismatch, s_RoomID session), s)
          else if \<not> RoomExists roomID (roomSvc s) then ((ErrCodeRoomClosed, ''''), s)
          else ((ErrCodeSuccess, ''''),
                s\<lparr>roomSvc := snd (UpdateUserGateway roomID userID gatewayID (roomSvc s)),
                  sessionSvc := UpdateSession userID roomID gatewayID now (sessionSvc s)\<rparr>))"

definition UserDisconnect :: "user_id \<Rightarrow> room_id \<Rightarrow> instant \<Rightarrow> Server \<Rightarrow> Server" where
  "UserDisconnect userID roomID now s =
     s\<lparr>roomSvc := SetUserDisconnected roomID userID now (roomSvc s),
       sessionSvc := SetDisconnected userID now (sessionSvc s)\<rparr>"

definition timeout_user :: "duration \<Rightarrow> instant \<Rightarrow> user_id \<Rightarrow> Server \<Rightarrow> Server" where
  "timeout_user tmo now userID s =
     (if IsUserDisconnected userID (sessionSvc s) then
        if GetDisconnectedDuration userID now (sessionSvc s) \<ge> tmo then
          (case GetSession userID (sessionSvc s) of
             None \<Rightarrow> s
           | Some session \<Rightarrow> LeaveRoom userID (s_RoomID session) s)
        else s
      else s)"

definition checkDisconnectTimeout :: "range_order \<Rightarrow> duration \<Rightarrow> instant \<Rightarrow> Server \<Rightarrow> Server" where
  "checkDisconnectTimeout ord tmo now s =
     fold (timeout_user tmo now) (GetAllUserIDs ord (sessionSvc s)) s"

text \<open>The body of \<open>recoveryMonitor\<close> once \<open>Wait\<close> has returned; \<open>None\<close> while it is blocked.\<close>

definition recoveryMonitor :: "instant \<Rightarrow> instant \<Rightarrow> Server \<Rightarrow> Server option" where
  "recoveryMonitor started now s =
     (case Wait started now (recovery s) of
        None \<Rightarrow> None
      | Some r \<Rightarrow> Some (s\<lparr>recovery := r, status := ServerStatusReady, RoomserverRecoveryMode := 0\<rparr>))"

section \<open>Gateway connections (grpc\_server.go)\<close>

definition sendToGateway :: "conn_ref \<Rightarrow> uint32 \<Rightarrow> bytes \<Rightarrow> Server \<Rightarrow> Server go" where
  "sendToGateway ref msgType payload s =
     (case fmlookup (conns s) ref of
        None \<Rightarrow> Inl (Panic ''nil pointer dereference'')
      | Some conn \<Rightarrow>
          if gc_closed conn then Inr s
          else go_bind (try_send \<lparr>env_MsgType = msgType, env_Payload = payload\<rparr> (gc_sendCh conn))
            (\<lambda>(ch, sent). Inr (s\<lparr>conns := fmupd ref (conn\<lparr>gc_sendCh := ch\<rparr>) (conns s)\<rparr>)))"

definition close_conn :: "conn_ref \<Rightarrow> Server \<Rightarrow> Server go" where
  "close_conn ref s =
     (case fmlookup (conns s) ref of
        None \<Rightarrow> Inl (Panic ''nil pointer dereference'')
      | Some conn \<Rightarrow>
          go_bind (close_chan (gc_sendCh conn))
            (\<lambda>ch. Inr (s\<lparr>conns := fmupd ref (conn\<lparr>gc_sendCh := ch, gc_closed := True\<rparr>) (conns s)\<rparr>)))"

definition addGateway :: "conn_ref \<Rightarrow> Server \<Rightarrow> Server go" where
  "addGateway ref s =
     (case fmlookup (conns s) ref of
        None \<Rightarrow> Inl (Panic ''nil pointer dereference'')
      | Some conn \<Rightarrow>
          go_bind (case fmlookup (gateways s) (gc_id conn) of
                     Some old \<Rightarrow> close_conn old s
                   | None \<Rightarrow> Inr s)
            (\<lambda>s1. Inr (s1\<lparr>gateways := fmupd (gc_id conn) ref (gateways s1)\<rparr>)))"

definition removeGateway :: "gateway_id \<Rightarrow> Server \<Rightarrow> Server" where
  "removeGateway gatewayID s = s\<lparr>gateways := fmdrop gatewayID (gateways s)\<rparr>"

definition getGateway :: "gateway_id \<Rightarrow> Server \<Rightarrow> conn_ref option" where
  "getGateway gatewayID s = fmlookup (gateways s) gatewayID"

definition GetGatewayByID :: "gateway_id \<Rightarrow> Server \<Rightarrow> conn_ref option" where
  "GetGatewayByID gatewayID s = fmlookup (gateways s) gatewayID"

definition sendEpochNotify :: "codec \<Rightarrow> conn_ref \<Rightarrow> Server \<Rightarrow> Server go" where
  "sendEpochNotify c ref s =
     sendToGateway ref InternalMsgEpochNotify
       (Encode c (WEpochNotify \<lparr>en_ServerID = ServerID s, en_Epoch = epoch s, en_Timestamp = 0\<rparr>)) s"

definition sendJoinRoomAck ::
  "codec \<Rightarrow> conn_ref \<Rightarrow> user_id \<Rightarrow> room_id \<Rightarrow> bool \<Rightarrow> int \<Rightarrow> string \<Rightarrow> Server \<Rightarrow> Server go" where
  "sendJoinRoomAck c ref userID roomID success code message s =
     sendToGateway ref InternalMsgJoinRoomAck
       (Encode c (WJoinRoomAck \<lparr>ja_UserID = userID, ja_RoomID = roomID, ja_Success = success,
          ja_Code = code, ja_Message = message\<rparr>)) s"

text \<open>
  \<open>NotifyRoomClose\<close> and \<open>NotifyEpochChange\<close> (server.go) send over the same path, one gateway of a
  list at a time; a gateway that is not registered is skipped.
\<close>

definition forward :: "uint32 \<Rightarrow> bytes \<Rightarrow> gateway_id \<Rightarrow> Server \<Rightarrow> Server go" where
  "forward msgType payload gwID s =
     (case fmlookup (gateways s) gwID of
        Some gw \<Rightarrow> sendToGateway gw msgType payload s
      | None \<Rightarrow> Inr s)"

definition NotifyRoomClose :: "codec \<Rightarrow> range_order \<Rightarrow> room_id \<Rightarrow> string \<Rightarrow> Server \<Rightarrow> Server go" where
  "NotifyRoomClose c ord roomID reason s =
     (let gatewayIDs = GetRoomGatewayIDs ord roomID (roomSvc s);
          payload = Encode c (WRoomCloseNotify \<lparr>rn_RoomID = roomID, rn_Reason = reason\<rparr>)
      in go_fold (forward InternalMsgRoomClose payload) gatewayIDs s)"

definition NotifyEpochChange :: "codec \<Rightarrow> range_order \<Rightarrow> instant \<Rightarrow> Server \<Rightarrow> Server go" where
  "NotifyEpochChange c ord now s =
     (let payload = Encode c (WEpochNotify \<lparr>en_ServerID = ServerID s, en_Epoch = epoch s,
                      en_Timestamp = UnixMilli now\<rparr>)
      in go_fold (forward InternalMsgEpochNotify payload) (ord (fmdom (gateways s))) s)"

section \<open>Handlers of gateway messages (grpc\_server.go)\<close>

text \<open>A new stream allocates its connection object with a send queue of 10000 envelopes.\<close>

definition Channel_open :: "Server \<Rightarrow> conn_ref \<times> Server" where
  "Channel_open s =
     (next_ref s,
      s\<lparr>conns := fmupd (next_ref s)
          \<lparr>gc_id = '''', gc_addr = '''', gc_sendCh = make_chan 10000, gc_closed = False\<rparr> (conns s),
        next_ref := Suc (next_ref s)\<rparr>)"

definition handleGatewayInfo :: "codec \<Rightarrow> conn_ref \<Rightarrow> bytes \<Rightarrow> Server \<Rightarrow> Server go" where
  "handleGatewayInfo c ref payload s =
     (case decGatewayInfo c payload of
        None \<Rightarrow> Inr s
      | Some info \<Rightarrow>
          (case fmlookup (conns s) ref of
             None \<Rightarrow> Inl (Panic ''nil pointer dereference'')
           | Some conn \<Rightarrow>
               let s1 = s\<lparr>conns := fmupd ref (conn\<lparr>gc_id := gi_GatewayID info, gc_addr := gi_Addr info\<rparr>) (conns s)\<rparr>
               in go_bind (addGateway ref s1) (sendEpochNotify c ref)))"

text \<open>\<open>JoinRoom\<close> always returns a nil error, so the acknowledgement reports success.\<close>

definition handleJoinRoom :: "codec \<Rightarrow> conn_ref \<Rightarrow> bytes \<Rightarrow> instant \<Rightarrow> Server \<Rightarrow> Server go" where
  "handleJoinRoom c ref payload now s =
     (case decJoinRoomRequest c payload of
        None \<Rightarrow> Inr s
      | Some req \<Rightarrow>
          sendJoinRoomAck c ref (jr_UserID req) (jr_RoomID req) True ErrCodeSuccess ''''
            (JoinRoom (jr_UserID req) (jr_RoomID req) (jr_GatewayID req) now s))"

definition handleLeaveRoom :: "codec \<Rightarrow> conn_ref \<Rightarrow> bytes \<Rightarrow> Server \<Rightarrow> Server go" where
  "handleLeaveRoom c ref payload s =
     (case decLeaveRoomRequest c payload of
        None \<Rightarrow> Inr s
      | Some req \<Rightarrow> Inr (LeaveRoom (lr_UserID req) (lr_RoomID req) s))"

definition handleResume :: "codec \<Rightarrow> conn_ref \<Rightarrow> bytes \<Rightarrow> instant \<Rightarrow> Server \<Rightarrow> Server go" where
  "handleResume c ref payload now s =
     (case decResumeRequest c payload of
        None \<Rightarrow> Inr s
      | Some req \<Rightarrow>
          (case Resume (rr_UserID req) (rr_RoomID req) (rr_GatewayID req) now s of
             ((code, _), s1) \<Rightarrow>
               sendJoinRoomAck c ref (rr_UserID req) (rr_RoomID req) (code = ErrCodeSuccess) code
                 (ErrCodeMessage code) s1))"

definition handleDisconnect :: "codec \<Rightarrow> conn_ref \<Rightarrow> bytes \<Rightarrow> instant \<Rightarrow> Server \<Rightarrow> Server go" where
  "handleDisconnect c ref payload now s =
     (case decDisconnectNotify c payload of
        None \<Rightarrow> Inr s
      | Some notify \<Rightarrow> Inr (UserDisconnect (dn_UserID notify) (dn_RoomID notify) now s))"

definition resync_users :: "gateway_id \<Rightarrow> UserRoomPair list \<Rightarrow> instant \<Rightarrow> Server \<Rightarrow> Server" where
  "resync_users gatewayID users now s =
     fold (\<lambda>pair. JoinRoom (up_UserID pair) (up_RoomID pair) gatewayID now) users s"

definition handleBatchReSync :: "codec \<Rightarrow> conn_ref \<Rightarrow> bytes \<Rightarrow> instant \<Rightarrow> Server \<Rightarrow> Server go" where
  "handleBatchReSync c ref payload now s =
     (case decBatchReSync c payload of
        None \<Rightarrow> Inr s
      | Some req \<Rightarrow>
          let s1 = resync_users (br_GatewayID req) (br_Users req) now s
          in Inr (s1\<lparr>recovery := OnUsersReceived (int (length (br_Users req))) (recovery s1)\<rparr>))"

definition handleReSyncComplete :: "codec \<Rightarrow> conn_ref \<Rightarrow> bytes \<Rightarrow> Server \<Rightarrow> Server go" where
  "handleReSyncComplete c ref payload s =
     (case decReSyncComplete c payload of
        None \<Rightarrow> Inr s
      | Some req \<Rightarrow> Inr (s\<lparr>recovery := OnGatewayComplete (recovery s)\<rparr>))"

definition handleGatewayMessage :: "codec \<Rightarrow> conn_ref \<Rightarrow> Envelope \<Rightarrow> instant \<Rightarrow> Server \<Rightarrow> Server go" where
  "handleGatewayMessage c ref envelope now s =
     (let t = env_MsgType envelope; p = env_Payload envelope in
      if t = InternalMsgGatewayInfo then handleGatewayInfo c ref p s
      else if t = InternalMsgJoinRoom then handleJoinRoom c ref p now s
      else if t = InternalMsgLeaveRoom then handleLeaveRoom c ref p s
      else if t = InternalMsgResume then handleResume c ref p now s
      else if t = InternalMsgDisconnect then handleDisconnect c ref p now s
      else if t = InternalMsgBatchReSync then handleBatchReSync c ref p now s
      else if t = InternalMsgReSyncComplete then handleReSyncComplete c ref p s
      else Inr s)"

text \<open>The clean-up at the end of \<open>Channel\<close>, after the stream has ended.\<close>

definition Channel_close :: "conn_ref \<Rightarrow> Server \<Rightarrow> Server go" where
  "Channel_close ref s =
     go_bind (close_conn ref s)
       (\<lambda>s1. case fmlookup (conns s1) ref of
          None \<Rightarrow> Inl (Panic ''nil pointer dereference'')
        | Some conn \<Rightarrow> Inr (if gc_id conn \<noteq> '''' then removeGateway (gc_id conn) s1 else s1))"

text \<open>
  One round of \<open>gatewayWriteLoop\<close>: the oldest envelope leaves the queue for the stream. \<open>None\<close> when
  the queue is empty.
\<close>

definition gatewayWriteLoop :: "conn_ref \<Rightarrow> Server \<Rightarrow> (Envelope \<times> Server) option" where
  "gatewayWriteLoop ref s =
     (case fmlookup (conns s) ref of
        None \<Rightarrow> None
      | Some conn \<Rightarrow>
          (case buf (gc_sendCh conn) of
             [] \<Rightarrow> None
           | e # es \<Rightarrow>
               Some (e, s\<lparr>conns := fmupd ref (conn\<lparr>gc_sendCh := (gc_sendCh conn)\<lparr>buf := es\<rparr>\<rparr>) (conns s)\<rparr>)))"

section \<open>What the operations do to sessions and members\<close>

abbreviation sess :: "user_id \<Rightarrow> Server \<Rightarrow> Session option" where
  "sess u s \<equiv> GetSession u (sessionSvc s)"

abbreviation memb :: "room_id \<Rightarrow> user_id \<Rightarrow> Server \<Rightarrow> RoomMember option" where
  "memb r u s \<equiv> member r u (roomSvc s)"

definition server_wf :: "Server \<Rightarrow> bool" where
  "server_wf s \<longleftrightarrow> rooms_wf (roomSvc s) \<and> session_wf (sessionSvc s)"

lemma server_wfI: "rooms_wf (roomSvc s) \<Longrightarrow> session_wf (sessionSvc s) \<Longrightarrow> server_wf s"
  by (simp add: server_wf_def)

lemma server_wfD [simp]: "server_wf s \<Longrightarrow> rooms_wf (roomSvc s)" "server_wf s \<Longrightarrow> session_wf (sessionSvc s)"
  by (simp_all add: server_wf_def)

lemma server_wf_cong:
  "roomSvc t = roomSvc s \<Longrightarrow> sessionSvc t = sessionSvc s \<Longrightarrow> server_wf t = server_wf s"
  unfolding server_wf_def by (rule arg_cong2 [of _ _ _ _ conj]; simp only:)

lemma server_wf_New: "server_wf (NewServer i t v now)"
  by (rule server_wfI) (simp_all add: NewServer_def NewRoomService_wf session_wf_New)

lemma sess_JoinRoom [server_simps]:
  "server_wf s \<Longrightarrow> sess j (JoinRoom u r g now s) =
     (if j = u then Some (updated_session u r g now (sess u s)) else sess j s)"
  by (simp add: JoinRoom_def Let_def session_simps)

lemma memb_JoinRoom [server_simps]:
  "memb r' u' (JoinRoom u r g now s) =
     (if u' = u \<and> r' = r then Some (new_member u g now)
      else if u' = u \<and> r' \<noteq> '''' \<and> r' = GetUserRoom u (sessionSvc s) then None
      else memb r' u' s)"
  by (auto simp: JoinRoom_def Let_def room_simps)

lemma sess_LeaveRoom [server_simps]:
  "server_wf s \<Longrightarrow> sess j (LeaveRoom u r s) = (if j = u then None else sess j s)"
  by (simp add: LeaveRoom_def session_simps)

lemma memb_LeaveRoom [server_simps]:
  "memb r' u' (LeaveRoom u r s) = (if r' = r \<and> u' = u then None else memb r' u' s)"
  by (simp add: LeaveRoom_def room_simps)

lemma sess_UserDisconnect [server_simps]:
  "server_wf s \<Longrightarrow> sess j (UserDisconnect u r now s) =
     (if j = u then map_option (\<lambda>x. x\<lparr>s_Status := MemberStatusDisconnected, s_DisconnectedAt := now\<rparr>) (sess u s)
      else sess j s)"
  by (simp add: UserDisconnect_def session_simps)

lemma memb_UserDisconnect [server_simps]:
  "memb r' u' (UserDisconnect u r now s) =
     (if r' = r \<and> u' = u
      then map_option (\<lambda>m. m\<lparr>rm_Status := MemberStatusDisconnected, rm_DisconnectTime := now\<rparr>) (memb r u s)
      else memb r' u' s)"
  by (simp add: UserDisconnect_def room_simps)

text \<open>\<open>Resume\<close> acts on one condition: the user has a session in a room that exists under that name.\<close>

definition resumable :: "user_id \<Rightarrow> room_id \<Rightarrow> Server \<Rightarrow> bool" where
  "resumable u r s \<longleftrightarrow> (\<exists>x. sess u s = Some x \<and> s_RoomID x = r) \<and> RoomExists r (roomSvc s)"

lemma Resume_resumable:
  "resumable u r s \<Longrightarrow> Resume u r g now s = ((ErrCodeSuccess, ''''),
     s\<lparr>roomSvc := snd (UpdateUserGateway r u g (roomSvc s)), sessionSvc := UpdateSession u r g now (sessionSvc s)\<rparr>)"
  by (auto simp: resumable_def Resume_def)

lemma Resume_refused: "\<not> resumable u r s \<Longrightarrow> snd (Resume u r g now s) = s \<and> fst (fst (Resume u r g now s)) \<noteq> ErrCodeSuccess"
  by (auto simp: resumable_def Resume_def err_codes split: option.split)

lemma sess_Resume [server_simps]:
  "server_wf s \<Longrightarrow> sess j (snd (Resume u r g now s)) =
     (if resumable u r s \<and> j = u then Some (updated_session u r g now (sess u s)) else sess j s)"
  by (cases "resumable u r s") (auto simp: Resume_resumable Resume_refused session_simps)

lemma memb_Resume [server_simps]:
  "memb r' u' (snd (Resume u r g now s)) =
     (if resumable u r s \<and> r' = r \<and> u' = u
      then map_option (\<lambda>m. m\<lparr>rm_GatewayID := g, rm_Status := MemberStatusOnline,
        rm_DisconnectTime := zero_time\<rparr>) (memb r u s)
      else memb r' u' s)"
  by (cases "resumable u r s") (auto simp: Resume_resumable Resume_refused room_simps)

lemma server_wf_ops:
  assumes "server_wf s"
  shows "server_wf (JoinRoom u r g now s)" "server_wf (LeaveRoom u r s)"
    "server_wf (snd (Resume u r g now s))" "server_wf (UserDisconnect u r now s)"
  using assms
  by (auto intro!: server_wfI simp: JoinRoom_def LeaveRoom_def UserDisconnect_def Resume_def Let_def
      rooms_wf_ops split: option.split)

section \<open>The disconnect timeout\<close>

definition timed_out :: "duration \<Rightarrow> instant \<Rightarrow> Session option \<Rightarrow> bool" where
  "timed_out tmo now x =
     (case x of None \<Rightarrow> False
      | Some y \<Rightarrow> s_Status y = MemberStatusDisconnected \<and> tmo \<le> time_since now (s_DisconnectedAt y))"

lemma timeout_user_eq:
  "timeout_user tmo now u s =
     (if timed_out tmo now (sess u s) then LeaveRoom u (s_RoomID (the (sess u s))) s else s)"
  by (auto simp: timeout_user_def timed_out_def IsUserDisconnected_def GetDisconnectedDuration_def
      split: option.split)

lemma server_wf_timeout_user: "server_wf s \<Longrightarrow> server_wf (timeout_user tmo now u s)"
  by (simp add: timeout_user_eq server_wf_ops)

lemma fold_timeout:
  assumes "distinct us" and "server_wf s"
  shows "server_wf (fold (timeout_user tmo now) us s)
    \<and> sess j (fold (timeout_user tmo now) us s) =
       (if j \<in> set us \<and> timed_out tmo now (sess j s) then None else sess j s)
    \<and> memb r j (fold (timeout_user tmo now) us s) =
       (if j \<in> set us \<and> timed_out tmo now (sess j s) \<and> s_RoomID (the (sess j s)) = r then None else memb r j s)"
  using assms
proof (induction us arbitrary: s)
  case Nil
  then show ?case by simp
next
  case (Cons u us)
  let ?s = "timeout_user tmo now u s"
  have "server_wf ?s" using Cons.prems(2) by (rule server_wf_timeout_user)
  then have "server_wf (fold (timeout_user tmo now) us ?s)
    \<and> sess j (fold (timeout_user tmo now) us ?s) =
       (if j \<in> set us \<and> timed_out tmo now (sess j ?s) then None else sess j ?s)
    \<and> memb r j (fold (timeout_user tmo now) us ?s) =
       (if j \<in> set us \<and> timed_out tmo now (sess j ?s) \<and> s_RoomID (the (sess j ?s)) = r then None else memb r j ?s)"
    using Cons.prems(1) by (intro Cons.IH) simp_all
  moreover have "sess j ?s = (if j = u \<and> timed_out tmo now (sess u s) then None else sess j s)"
    "memb r j ?s = (if j = u \<and> timed_out tmo now (sess u s) \<and> s_RoomID (the (sess u s)) = r then None else memb r j s)"
    using Cons.prems(2) by (auto simp: timeout_user_eq server_simps)
  ultimately show ?case
    using Cons.prems(1) by (auto simp: timed_out_def)
qed

lemma checkDisconnectTimeout_effect:
  assumes "go_range ord" and "server_wf s"
  shows "server_wf (checkDisconnectTimeout ord tmo now s)"
    and "sess j (checkDisconnectTimeout ord tmo now s) = (if timed_out tmo now (sess j s) then None else sess j s)"
    and "memb r j (checkDisconnectTimeout ord tmo now s) =
      (if timed_out tmo now (sess j s) \<and> s_RoomID (the (sess j s)) = r then None else memb r j s)"
proof -
  let ?us = "GetAllUserIDs ord (sessionSvc s)"
  have "distinct ?us" and us: "j \<in> set ?us \<longleftrightarrow> sess j s \<noteq> None"
    using assms by (simp_all add: distinct_GetAllUserIDs set_GetAllUserIDs)
  from fold_timeout [OF this(1) assms(2), of tmo now j r] us
  show "server_wf (checkDisconnectTimeout ord tmo now s)"
    and "sess j (checkDisconnectTimeout ord tmo now s) = (if timed_out tmo now (sess j s) then None else sess j s)"
    and "memb r j (checkDisconnectTimeout ord tmo now s) =
      (if timed_out tmo now (sess j s) \<and> s_RoomID (the (sess j s)) = r then None else memb r j s)"
    by (auto simp: checkDisconnectTimeout_def timed_out_def split: option.splits)
qed

section \<open>Sessions and members agree\<close>

definition CloseRoom_call :: "room_id \<Rightarrow> Server \<Rightarrow> Server" where
  "CloseRoom_call r s = s\<lparr>roomSvc := snd (CloseRoom r (roomSvc s))\<rparr>"

lemma CloseRoom_call_effect [server_simps]:
  "sess u (CloseRoom_call r s) = sess u s"
  "memb r' u (CloseRoom_call r s) = (if r' = r then None else memb r' u s)"
  by (simp_all add: CloseRoom_call_def room_simps)

lemma server_wf_CloseRoom_call: "server_wf s \<Longrightarrow> server_wf (CloseRoom_call r s)"
  by (rule server_wfI) (simp_all add: CloseRoom_call_def rooms_wf_ops)

definition agree :: "Server \<Rightarrow> bool" where
  "agree s \<longleftrightarrow> (\<forall>r u m. memb r u s = Some m \<longrightarrow> r \<noteq> '''' \<and>
     (\<exists>x. sess u s = Some x \<and> s_RoomID x = r \<and> s_GatewayID x = rm_GatewayID m \<and> s_Status x = rm_Status m))"

lemma agreeD:
  "agree s \<Longrightarrow> memb r u s = Some m \<Longrightarrow> r \<noteq> '''' \<and>
     (\<exists>x. sess u s = Some x \<and> s_RoomID x = r \<and> s_GatewayID x = rm_GatewayID m \<and> s_Status x = rm_Status m)"
  unfolding agree_def by blast

lemma agreeI:
  assumes "\<And>r u m. memb r u s = Some m \<Longrightarrow> r \<noteq> '''' \<and>
     (\<exists>x. sess u s = Some x \<and> s_RoomID x = r \<and> s_GatewayID x = rm_GatewayID m \<and> s_Status x = rm_Status m)"
  shows "agree s"
  using assms unfolding agree_def by blast

text \<open>A request of a gateway that names the room the session names.\<close>

definition names_own_room :: "user_id \<Rightarrow> room_id \<Rightarrow> Server \<Rightarrow> bool" where
  "names_own_room u r s = (case sess u s of None \<Rightarrow> True | Some x \<Rightarrow> s_RoomID x = r)"

lemma agree_JoinRoom:
  assumes "agree s" and "server_wf s" and "r \<noteq> ''''"
  shows "agree (JoinRoom u r g now s)"
proof (rule agreeI)
  fix r' u' m assume m: "memb r' u' (JoinRoom u r g now s) = Some m"
  show "r' \<noteq> '''' \<and> (\<exists>x. sess u' (JoinRoom u r g now s) = Some x \<and> s_RoomID x = r'
      \<and> s_GatewayID x = rm_GatewayID m \<and> s_Status x = rm_Status m)"
  proof (cases "u' = u")
    case True
    have "r' = r"
    proof (rule ccontr)
      assume "r' \<noteq> r"
      with m True have "memb r' u s = Some m" and "r' \<noteq> GetUserRoom u (sessionSvc s) \<or> r' = ''''"
        by (auto simp: server_simps split: if_splits)
      with agreeD [OF assms(1), of r' u m] show False by (auto simp: GetUserRoom_def)
    qed
    with m True assms(2,3) show ?thesis by (auto simp: server_simps new_member_def)
  next
    case False
    with m have "memb r' u' s = Some m" by (simp add: server_simps)
    from agreeD [OF assms(1) this] False show ?thesis using assms(2) by (simp add: server_simps)
  qed
qed

lemma agree_LeaveRoom:
  assumes "agree s" and "server_wf s" and "names_own_room u r s"
  shows "agree (LeaveRoom u r s)"
proof (rule agreeI)
  fix r' u' m assume m: "memb r' u' (LeaveRoom u r s) = Some m"
  then have old: "memb r' u' s = Some m" and "\<not> (r' = r \<and> u' = u)"
    by (auto simp: server_simps split: if_splits)
  moreover from agreeD [OF assms(1) old] assms(3) have "u' = u \<longrightarrow> r' = r"
    by (auto simp: names_own_room_def split: option.splits)
  ultimately show "r' \<noteq> '''' \<and> (\<exists>x. sess u' (LeaveRoom u r s) = Some x \<and> s_RoomID x = r'
      \<and> s_GatewayID x = rm_GatewayID m \<and> s_Status x = rm_Status m)"
    using agreeD [OF assms(1) old] assms(2) by (auto simp: server_simps)
qed

lemma agree_UserDisconnect:
  assumes "agree s" and "server_wf s" and "names_own_room u r s"
  shows "agree (UserDisconnect u r now s)"
proof (rule agreeI)
  fix r' u' m assume m: "memb r' u' (UserDisconnect u r now s) = Some m"
  then obtain m0 where m0: "memb r' u' s = Some m0"
    and "m = (if r' = r \<and> u' = u then m0\<lparr>rm_Status := MemberStatusDisconnected, rm_DisconnectTime := now\<rparr> else m0)"
    by (auto simp: server_simps split: if_splits)
  moreover from agreeD [OF assms(1) m0] assms(3) have "u' = u \<longrightarrow> r' = r"
    by (auto simp: names_own_room_def split: option.splits)
  ultimately show "r' \<noteq> '''' \<and> (\<exists>x. sess u' (UserDisconnect u r now s) = Some x \<and> s_RoomID x = r'
      \<and> s_GatewayID x = rm_GatewayID m \<and> s_Status x = rm_Status m)"
    using agreeD [OF assms(1) m0] assms(2) by (auto simp: server_simps)
qed

lemma agree_Resume:
  assumes "agree s" and "server_wf s"
  shows "agree (snd (Resume u r g now s))"
proof (rule agreeI)
  fix r' u' m assume m: "memb r' u' (snd (Resume u r g now s)) = Some m"
  then obtain m0 where m0: "memb r' u' s = Some m0"
    and "m = (if resumable u r s \<and> r' = r \<and> u' = u then m0\<lparr>rm_GatewayID := g, rm_Status := MemberStatusOnline,
        rm_DisconnectTime := zero_time\<rparr> else m0)"
    by (auto simp: server_simps split: if_splits)
  moreover from agreeD [OF assms(1) m0] have "resumable u r s \<longrightarrow> u' = u \<longrightarrow> r' = r"
    by (auto simp: resumable_def)
  ultimately show "r' \<noteq> '''' \<and> (\<exists>x. sess u' (snd (Resume u r g now s)) = Some x \<and> s_RoomID x = r'
      \<and> s_GatewayID x = rm_GatewayID m \<and> s_Status x = rm_Status m)"
    using agreeD [OF assms(1) m0] assms(2) by (auto simp: server_simps)
qed

lemma agree_timeout:
  assumes "agree s" and "server_wf s" and "go_range ord"
  shows "agree (checkDisconnectTimeout ord tmo now s)"
proof (rule agreeI)
  fix r' u' m assume m: "memb r' u' (checkDisconnectTimeout ord tmo now s) = Some m"
  then have old: "memb r' u' s = Some m" and "\<not> (timed_out tmo now (sess u' s) \<and> s_RoomID (the (sess u' s)) = r')"
    using assms(2,3) by (auto simp: checkDisconnectTimeout_effect split: if_splits)
  with agreeD [OF assms(1) old] assms(2,3)
  show "r' \<noteq> '''' \<and> (\<exists>x. sess u' (checkDisconnectTimeout ord tmo now s) = Some x \<and> s_RoomID x = r'
      \<and> s_GatewayID x = rm_GatewayID m \<and> s_Status x = rm_Status m)"
    by (auto simp: checkDisconnectTimeout_effect)
qed

lemma agree_CloseRoom_call: "agree s \<Longrightarrow> agree (CloseRoom_call r s)"
  unfolding agree_def by (simp add: server_simps)

lemma agree_New: "agree (NewServer i t v now)"
  unfolding agree_def by (simp add: NewServer_def room_simps)

inductive call_step :: "Server \<Rightarrow> Server \<Rightarrow> bool" where
  call_Join: "r \<noteq> '''' \<Longrightarrow> call_step s (JoinRoom u r g now s)"
| call_Leave: "names_own_room u r s \<Longrightarrow> call_step s (LeaveRoom u r s)"
| call_Resume: "call_step s (snd (Resume u r g now s))"
| call_Disconnect: "names_own_room u r s \<Longrightarrow> call_step s (UserDisconnect u r now s)"
| call_Timeout: "go_range ord \<Longrightarrow> call_step s (checkDisconnectTimeout ord tmo now s)"
| call_Close: "call_step s (CloseRoom_call r s)"

inductive_cases call_stepE: "call_step s t"

interpretation agreement: inductive_invariant "\<lambda>s. \<exists>i t v now. s = NewServer i t v now" call_step
  "\<lambda>s. server_wf s \<and> agree s"
proof
  show "server_wf t \<and> agree t" if "server_wf s \<and> agree s" and "call_step s t" for s t
    using that(2,1)
    by cases (simp_all add: server_wf_ops agree_JoinRoom agree_LeaveRoom agree_Resume agree_UserDisconnect
        agree_timeout agree_CloseRoom_call checkDisconnectTimeout_effect server_wf_CloseRoom_call)
qed (auto simp: server_wf_New agree_New)

abbreviation reachable_server :: "Server \<Rightarrow> bool" where
  "reachable_server \<equiv> reachable_by (\<lambda>s. \<exists>i t v now. s = NewServer i t v now) call_step"

lemma reachable_server_New: "reachable_server (NewServer i t v now)"
  by (rule reachable_init) blast

lemma reachable_server_JoinRoom:
  "reachable_server s \<Longrightarrow> r \<noteq> '''' \<Longrightarrow> reachable_server (JoinRoom u r g now s)"
  by (rule reachable_step, assumption, rule call_Join)

lemma reachable_server_Close: "reachable_server s \<Longrightarrow> reachable_server (CloseRoom_call r s)"
  by (rule reachable_step, assumption, rule call_Close)

section \<open>Properties of rooms and sessions\<close>



text \<open>A leave request that names another room than the user's splits the user: the session is deleted
  while the membership stays, and the next join of a third room does not find the old one, so
  the user is then a member of two rooms at once.\<close>

lemma mismatched_leave_splits_user:
  assumes "server_wf s" and "memb r u s = Some m" and "r' \<noteq> r" and "r'' \<noteq> r"
  shows "let s1 = LeaveRoom u r' s; s2 = JoinRoom u r'' g now s1 in
    sess u s1 = None \<and> memb r u s1 = Some m \<and> memb r u s2 = Some m \<and> memb r'' u s2 = Some (new_member u g now)"
  using assms by (simp add: server_simps server_wf_ops GetUserRoom_def)

lemma mismatched_leave_splits_user_example:
  "let s1 = LeaveRoom ''u'' ''x'' (JoinRoom ''u'' ''a'' ''g'' 7 (NewServer ''rs'' 0 1 5));
       s2 = JoinRoom ''u'' ''b'' ''g'' 9 s1 in
    sess ''u'' s1 = None \<and> memb ''a'' ''u'' s1 = Some (new_member ''u'' ''g'' 7)
    \<and> memb ''a'' ''u'' s2 = Some (new_member ''u'' ''g'' 7) \<and> memb ''b'' ''u'' s2 = Some (new_member ''u'' ''g'' 9)"
  by (rule mismatched_leave_splits_user) (simp_all add: server_wf_ops server_wf_New server_simps)

text \<open>\<open>Resume\<close> on every branch: an unknown user gets 2002, a user whose session names another room gets
  2004 and that room, a user whose room is gone gets 2003, and in these cases nothing changes;
  otherwise the code is success, the session is online on the new gateway, the membership (if
  there is one) moves to the new gateway and comes back online, and nobody else is touched.\<close>

lemma Resume_branches:
  assumes "server_wf s"
  shows "(sess u s = None \<longrightarrow> Resume u r g now s = ((ErrCodeUserNotInRoom, ''''), s))
    \<and> (\<forall>x. sess u s = Some x \<and> s_RoomID x \<noteq> r \<longrightarrow> Resume u r g now s = ((ErrCodeRoomMismatch, s_RoomID x), s))
    \<and> (\<forall>x. sess u s = Some x \<and> s_RoomID x = r \<and> \<not> RoomExists r (roomSvc s) \<longrightarrow>
         Resume u r g now s = ((ErrCodeRoomClosed, ''''), s))
    \<and> (\<forall>x. sess u s = Some x \<and> s_RoomID x = r \<and> RoomExists r (roomSvc s) \<longrightarrow>
         (let s' = snd (Resume u r g now s) in
           fst (Resume u r g now s) = (ErrCodeSuccess, '''')
           \<and> sess u s' = Some (x\<lparr>s_RoomID := r, s_GatewayID := g, s_Status := MemberStatusOnline, s_DisconnectedAt := zero_time\<rparr>)
           \<and> memb r u s' = map_option (\<lambda>m. m\<lparr>rm_GatewayID := g, rm_Status := MemberStatusOnline,
               rm_DisconnectTime := zero_time\<rparr>) (memb r u s)
           \<and> (\<forall>v. v \<noteq> u \<longrightarrow> sess v s' = sess v s \<and> (\<forall>r'. memb r' v s' = memb r' v s))))"
proof -
  have "resumable u r s \<longleftrightarrow> (\<exists>x. sess u s = Some x \<and> s_RoomID x = r) \<and> RoomExists r (roomSvc s)"
    by (simp add: resumable_def)
  then show ?thesis
    using assms by (auto simp: Resume_resumable server_simps session_simps room_simps updated_session_def)
       (auto simp: Resume_def)
qed

lemma Resume_branches_example:
  "let s = UserDisconnect ''u'' ''a'' 8 (JoinRoom ''u'' ''a'' ''g'' 7 (NewServer ''rs'' 0 1 5)) in
   fst (Resume ''v'' ''a'' ''h'' 9 s) = (ErrCodeUserNotInRoom, '''')
   \<and> fst (Resume ''u'' ''b'' ''h'' 9 s) = (ErrCodeRoomMismatch, ''a'')
   \<and> fst (Resume ''u'' ''a'' ''h'' 9 s) = (ErrCodeSuccess, '''')"
proof -
  let ?s = "UserDisconnect ''u'' ''a'' 8 (JoinRoom ''u'' ''a'' ''g'' 7 (NewServer ''rs'' 0 1 5))"
  have wf: "server_wf (JoinRoom ''u'' ''a'' ''g'' 7 (NewServer ''rs'' 0 1 5))"
    by (simp add: server_wf_ops server_wf_New)
  then have "server_wf ?s" by (rule server_wf_ops)
  note b = Resume_branches [OF this]
  have "sess ''v'' ?s = None" "\<exists>x. sess ''u'' ?s = Some x \<and> s_RoomID x = ''a''"
    using wf by (auto simp: server_simps server_wf_New) (simp add: NewServer_def)
  moreover have "RoomExists ''a'' (roomSvc ?s)"
    by (simp add: UserDisconnect_def JoinRoom_def Let_def room_simps)
  ultimately show ?thesis
    using b [of "''v''" "''a''" "''h''" 9] b [of "''u''" "''b''" "''h''" 9] b [of "''u''" "''a''" "''h''" 9]
    by (auto simp: Let_def)
qed

text \<open>Success without membership: a user joins a room, the room is closed, another user re-creates it by
  joining, and the first user resumes. The roomserver answers success and records an online
  session in the room, but the user is not a member of it and will receive none of its
  broadcasts.\<close>

lemma resume_into_recreated_room:
  "let s = JoinRoom ''v'' ''a'' ''g'' 9 (CloseRoom_call ''a'' (JoinRoom ''u'' ''a'' ''g'' 7 (NewServer ''rs'' 0 1 5)));
       s' = snd (Resume ''u'' ''a'' ''h'' 10 s) in
   reachable_server s' \<and> fst (Resume ''u'' ''a'' ''h'' 10 s) = (ErrCodeSuccess, '''')
   \<and> IsUserOnline ''u'' (sessionSvc s') \<and> GetUserRoom ''u'' (sessionSvc s') = ''a''
   \<and> memb ''a'' ''u'' s' = None \<and> ''h'' \<notin> set (GetRoomGatewayIDs sorted_list_of_fset ''a'' (roomSvc s'))"
proof -
  define s0 where "s0 = CloseRoom_call ''a'' (JoinRoom ''u'' ''a'' ''g'' 7 (NewServer ''rs'' 0 1 5))"
  define s where "s = JoinRoom ''v'' ''a'' ''g'' 9 s0"
  have wf1: "server_wf (JoinRoom ''u'' ''a'' ''g'' 7 (NewServer ''rs'' 0 1 5))"
    by (simp add: server_wf_ops server_wf_New)
  then have wf0: "server_wf s0" by (simp add: s0_def server_wf_CloseRoom_call)
  then have wf: "server_wf s" by (simp add: s_def server_wf_ops)
  have "reachable_server s0"
    by (simp add: s0_def reachable_server_Close reachable_server_JoinRoom reachable_server_New)
  then have r: "reachable_server s" by (simp add: s_def reachable_server_JoinRoom)
  have u: "\<exists>x. sess ''u'' s = Some x \<and> s_RoomID x = ''a''"
    using wf0 by (simp add: s_def server_simps) (simp add: s0_def server_simps wf1 server_wf_New)
  have m: "memb ''a'' ''u'' s = None" by (simp add: s_def s0_def server_simps)
  have v: "view_in ''a'' ''h'' (roomSvc s) = {||}"
    by (simp add: s_def s0_def JoinRoom_def CloseRoom_call_def Let_def room_simps)
  have "RoomExists ''a'' (roomSvc s)" by (simp add: s_def JoinRoom_def Let_def room_simps)
  with u have ok: "resumable ''u'' ''a'' s" by (simp add: resumable_def)
  let ?s' = "snd (Resume ''u'' ''a'' ''h'' 10 s)"
  have wf': "server_wf ?s'" using wf by (rule server_wf_ops)
  have "reachable_server ?s'" by (rule reachable_step, rule r, rule call_Resume)
  moreover have "sess ''u'' ?s' = Some (updated_session ''u'' ''a'' ''h'' 10 (sess ''u'' s))"
    using ok wf by (simp add: server_simps)
  moreover have "memb ''a'' ''u'' ?s' = None" using ok m by (simp add: server_simps)
  moreover have "view_in ''a'' ''h'' (roomSvc ?s') = {||}"
    using ok m v by (simp add: Resume_resumable room_simps)
  then have "''h'' \<notin> set (GetRoomGatewayIDs sorted_list_of_fset ''a'' (roomSvc ?s'))"
    using wf' by (simp add: set_GetRoomGatewayIDs [OF go_range_sorted])
  moreover have "fst (Resume ''u'' ''a'' ''h'' 10 s) = (ErrCodeSuccess, '''')"
    by (simp add: Resume_resumable [OF ok])
  ultimately show ?thesis
    unfolding s0_def [symmetric] s_def [symmetric] Let_def by (simp add: IsUserOnline_def GetUserRoom_def)
qed

text \<open>C33. The periodic check removes exactly the users who have been disconnected for at least the timeout:
  their session is deleted and they leave the room the session names; every other session and
  membership is unchanged, whatever order the sessions are visited in.\<close>

theorem timeout_removes_exactly_expired:
  assumes "go_range ord" and "server_wf s"
  shows "let s' = checkDisconnectTimeout ord tmo now s in
    sess u s' = (if timed_out tmo now (sess u s) then None else sess u s)
    \<and> memb r u s' = (if timed_out tmo now (sess u s) \<and> GetUserRoom u (sessionSvc s) = r then None else memb r u s)"
  using checkDisconnectTimeout_effect [OF assms]
  by (auto simp: timed_out_def GetUserRoom_def split: option.splits)

theorem timeout_removes_exactly_expired_witness:
  "let s = UserDisconnect ''u'' ''a'' 100 (JoinRoom ''u'' ''a'' ''g'' 7 (NewServer ''rs'' 0 1 5));
       s' = checkDisconnectTimeout sorted_list_of_fset 30 130 s in
    sess ''u'' s' = None \<and> memb ''a'' ''u'' s' = None"
proof -
  let ?s = "UserDisconnect ''u'' ''a'' 100 (JoinRoom ''u'' ''a'' ''g'' 7 (NewServer ''rs'' 0 1 5))"
  have wf: "server_wf (JoinRoom ''u'' ''a'' ''g'' 7 (NewServer ''rs'' 0 1 5))"
    by (simp add: server_wf_ops server_wf_New)
  then have "server_wf ?s" by (rule server_wf_ops)
  moreover have "timed_out 30 130 (sess ''u'' ?s)" "GetUserRoom ''u'' (sessionSvc ?s) = ''a''"
    using wf
    by (simp_all add: timed_out_def GetUserRoom_def server_simps server_wf_New time_since_def
        min_duration_def max_duration_def)
  ultimately show ?thesis
    using timeout_removes_exactly_expired [OF go_range_sorted, of ?s 30 130 "''u''" "''a''"] by (simp add: Let_def)
qed

end
