(* ===== verification/Sample_Codec.thy ===== *)
theory Sample_Codec
  imports Protocol
begin

text \<open>
  One computable codec that satisfies the contract \<open>codec_ok\<close>: a message is a list of fields, and
  a field is written as its bytes, each behind a marker 1, with a closing 0. The repository uses
  msgpack; this codec only shows that the contract can be met, and the witnesses of properties
  that assume the contract use it.
\<close>

section \<open>Fields\<close>

definition put_fields :: "bytes list \<Rightarrow> bytes" where
  "put_fields fs = concat (map (\<lambda>f. concat (map (\<lambda>b. [1, b]) f) @ [0]) fs)"

fun get_fields :: "bytes \<Rightarrow> bytes \<Rightarrow> bytes list" where
  "get_fields cur [] = []"
| "get_fields cur [x] = (if x = 0 then [rev cur] else [])"
| "get_fields cur (x # b # bs) = (if x = 0 then rev cur # get_fields [] (b # bs) else get_fields (b # cur) bs)"

lemma get_fields_close: "get_fields cur (0 # bs) = rev cur # get_fields [] bs"
  by (cases bs) simp_all

lemma get_fields_field:
  "get_fields cur (concat (map (\<lambda>b. [1, b]) f) @ 0 # bs) = (rev cur @ f) # get_fields [] bs"
  by (induction f arbitrary: cur) (simp_all add: get_fields_close)

lemma get_put_fields [simp]: "get_fields [] (put_fields fs) = fs"
  by (induction fs) (simp_all add: put_fields_def get_fields_field)

definition str_field :: "string \<Rightarrow> bytes" where
  "str_field = map of_char"

definition field_str :: "bytes \<Rightarrow> string" where
  "field_str = map (\<lambda>b. char_of (unat b))"

lemma unat_of_char: "unat (of_char c :: byte) = of_char c"
proof -
  have "unat (of_nat (of_char c) :: byte) = of_char c"
    by (simp add: unsigned_of_nat take_bit_nat_eq_self)
  then show ?thesis by (simp only: of_nat_of_char)
qed

lemma field_str [simp]: "field_str (str_field s) = s"
  by (simp add: field_str_def str_field_def unat_of_char o_def)

definition nat_field :: "nat \<Rightarrow> bytes" where
  "nat_field n = replicate n 0"

definition int_field :: "int \<Rightarrow> bytes" where
  "int_field i = (if i < 0 then 1 else 0) # replicate (nat \<bar>i\<bar>) 0"

definition field_int :: "bytes \<Rightarrow> int" where
  "field_int f = (if hd f = 1 then - int (length (tl f)) else int (length (tl f)))"

lemma field_int [simp]: "field_int (int_field i) = i"
  by (simp add: field_int_def int_field_def)

definition bool_field :: "bool \<Rightarrow> bytes" where
  "bool_field b = (if b then [1] else [])"

section \<open>Messages\<close>

definition pair_field :: "UserRoomPair \<Rightarrow> bytes" where
  "pair_field p = put_fields [str_field (up_UserID p), str_field (up_RoomID p)]"

fun pair_of :: "bytes list \<Rightarrow> UserRoomPair" where
  "pair_of [u, r] = \<lparr>up_UserID = field_str u, up_RoomID = field_str r\<rparr>"
| "pair_of _ = \<lparr>up_UserID = '''', up_RoomID = ''''\<rparr>"

lemma pair_of_field [simp]: "pair_of (get_fields [] (pair_field p)) = p"
  by (simp add: pair_field_def)

fun sample_fields :: "wire \<Rightarrow> bytes list" where
  "sample_fields (WJoinRoomRequest m) = [str_field (jr_UserID m), str_field (jr_RoomID m), str_field (jr_GatewayID m)]"
| "sample_fields (WLeaveRoomRequest m) = [str_field (lr_UserID m), str_field (lr_RoomID m)]"
| "sample_fields (WResumeRequest m) = [str_field (rr_UserID m), str_field (rr_RoomID m), str_field (rr_GatewayID m)]"
| "sample_fields (WBatchReSync m) = str_field (br_GatewayID m) # map pair_field (br_Users m)"
| "sample_fields (WReSyncComplete m) = [str_field (rc_GatewayID m), nat_field (rc_TotalUsers m)]"
| "sample_fields (WDisconnectNotify m) = [str_field (dn_UserID m), str_field (dn_RoomID m),
     str_field (dn_GatewayID m), int_field (dn_Timestamp m)]"
| "sample_fields (WGatewayInfo m) = [str_field (gi_GatewayID m), str_field (gi_Addr m), nat_field (gi_Connections m)]"
| "sample_fields (WJoinRoomAck m) = [str_field (ja_UserID m), str_field (ja_RoomID m), bool_field (ja_Success m),
     int_field (ja_Code m), str_field (ja_Message m)]"
| "sample_fields (WBroadcastMessage m) = [str_field (bm_RoomID m), PutUint64 (bm_Seq m), bm_Payload m]"
| "sample_fields (WUnicastMessage m) = [str_field (um_UserID m), um_Payload m]"
| "sample_fields (WMulticastMessage m) = str_field (mm_RoomID m) # mm_Payload m # map str_field (mm_UserIDs m)"
| "sample_fields (WEpochNotify m) = [str_field (en_ServerID m), PutUint64 (en_Epoch m), int_field (en_Timestamp m)]"
| "sample_fields (WRoomCloseNotify m) = [str_field (rn_RoomID m), str_field (rn_Reason m)]"
| "sample_fields (WCodeResp ok code msg) = [bool_field ok, int_field code, str_field msg]"
| "sample_fields (WLeaveResp ok) = [bool_field ok]"
| "sample_fields (WAuthResp ok u g code msg) = [bool_field ok, str_field u, str_field g, int_field code, str_field msg]"
| "sample_fields (WPush t r u q p) = [str_field t, str_field r, str_field u, PutUint64 q, p]"

definition sample_codec :: codec where
  "sample_codec =
    \<lparr>Marshal = \<lambda>w. Some (put_fields (sample_fields w)),
     decJoinRoomRequest = \<lambda>b. (case get_fields [] b of
       [u, r, g] \<Rightarrow> Some \<lparr>jr_UserID = field_str u, jr_RoomID = field_str r, jr_GatewayID = field_str g\<rparr> | _ \<Rightarrow> None),
     decLeaveRoomRequest = \<lambda>b. (case get_fields [] b of
       [u, r] \<Rightarrow> Some \<lparr>lr_UserID = field_str u, lr_RoomID = field_str r\<rparr> | _ \<Rightarrow> None),
     decResumeRequest = \<lambda>b. (case get_fields [] b of
       [u, r, g] \<Rightarrow> Some \<lparr>rr_UserID = field_str u, rr_RoomID = field_str r, rr_GatewayID = field_str g\<rparr> | _ \<Rightarrow> None),
     decBatchReSync = \<lambda>b. (case get_fields [] b of
       g # ps \<Rightarrow> Some \<lparr>br_GatewayID = field_str g, br_Users = map (\<lambda>p. pair_of (get_fields [] p)) ps\<rparr> | _ \<Rightarrow> None),
     decReSyncComplete = \<lambda>b. (case get_fields [] b of
       [g, n] \<Rightarrow> Some \<lparr>rc_GatewayID = field_str g, rc_TotalUsers = length n\<rparr> | _ \<Rightarrow> None),
     decDisconnectNotify = \<lambda>b. (case get_fields [] b of
       [u, r, g, t] \<Rightarrow> Some \<lparr>dn_UserID = field_str u, dn_RoomID = field_str r, dn_GatewayID = field_str g,
         dn_Timestamp = field_int t\<rparr> | _ \<Rightarrow> None),
     decGatewayInfo = \<lambda>b. (case get_fields [] b of
       [g, a, n] \<Rightarrow> Some \<lparr>gi_GatewayID = field_str g, gi_Addr = field_str a, gi_Connections = length n\<rparr> | _ \<Rightarrow> None),
     decJoinRoomAck = \<lambda>b. (case get_fields [] b of
       [u, r, ok, k, msg] \<Rightarrow> Some \<lparr>ja_UserID = field_str u, ja_RoomID = field_str r, ja_Success = (ok \<noteq> []),
         ja_Code = field_int k, ja_Message = field_str msg\<rparr> | _ \<Rightarrow> None),
     decBroadcastMessage = \<lambda>b. (case get_fields [] b of
       [r, q, p] \<Rightarrow> Some \<lparr>bm_RoomID = field_str r, bm_Seq = Uint64 q, bm_Payload = p\<rparr> | _ \<Rightarrow> None),
     decUnicastMessage = \<lambda>b. (case get_fields [] b of
       [u, p] \<Rightarrow> Some \<lparr>um_UserID = field_str u, um_Payload = p\<rparr> | _ \<Rightarrow> None),
     decMulticastMessage = \<lambda>b. (case get_fields [] b of
       r # p # us \<Rightarrow> Some \<lparr>mm_RoomID = field_str r, mm_UserIDs = map field_str us, mm_Payload = p\<rparr> | _ \<Rightarrow> None),
     decEpochNotify = \<lambda>b. (case get_fields [] b of
       [i, e, t] \<Rightarrow> Some \<lparr>en_ServerID = field_str i, en_Epoch = Uint64 e, en_Timestamp = field_int t\<rparr> | _ \<Rightarrow> None),
     decRoomCloseNotify = \<lambda>b. (case get_fields [] b of
       [r, x] \<Rightarrow> Some \<lparr>rn_RoomID = field_str r, rn_Reason = field_str x\<rparr> | _ \<Rightarrow> None),
     decRoomReq = \<lambda>b. (case get_fields [] b of r # _ \<Rightarrow> Some (field_str r) | _ \<Rightarrow> None),
     decAuthReq = \<lambda>b. (case get_fields [] b of [t, u] \<Rightarrow> Some (field_str t, field_str u) | _ \<Rightarrow> None)\<rparr>"

lemma Encode_sample [simp]: "Encode sample_codec w = put_fields (sample_fields w)"
  by (simp add: Encode_def sample_codec_def)

lemma sample_codec_ok: "codec_ok sample_codec"
  unfolding codec_ok_def Encode_sample
  by (simp add: sample_codec_def o_def map_idI nat_field_def bool_field_def)

end
