(* ===== verification/Registry.thy ===== *)
theory Registry
  imports Roomserver Sample_Codec
begin

text \<open>
  The gateway connections of the roomserver: when the handlers of \<open>grpc_server.go\<close> can fault, what
  they queue for a gateway, what a second stream of the same gateway does to the first, and how
  a server leaves recovery.
\<close>

section \<open>Well-formed connections\<close>

definition conn_ok :: "GatewayConnection \<Rightarrow> bool" where
  "conn_ok conn \<longleftrightarrow> gc_closed conn = shut (gc_sendCh conn) \<and> cap (gc_sendCh conn) = 10000
     \<and> length (buf (gc_sendCh conn)) \<le> 10000"

definition conns_ok :: "Server \<Rightarrow> bool" where
  "conns_ok s \<longleftrightarrow>
     (\<forall>ref conn. fmlookup (conns s) ref = Some conn \<longrightarrow> conn_ok conn \<and> ref < next_ref s) \<and>
     (\<forall>g ref. fmlookup (gateways s) g = Some ref \<longrightarrow> fmlookup (conns s) ref \<noteq> None)"

text \<open>A non-blocking send seen from the connection; a closed connection accepts nothing.\<close>

definition conn_send :: "GatewayConnection \<Rightarrow> Envelope \<Rightarrow> GatewayConnection" where
  "conn_send conn e =
     (if gc_closed conn \<or> cap (gc_sendCh conn) \<le> length (buf (gc_sendCh conn)) then conn
      else conn\<lparr>gc_sendCh := (gc_sendCh conn)\<lparr>buf := buf (gc_sendCh conn) @ [e]\<rparr>\<rparr>)"

definition conn_queue :: "GatewayConnection \<Rightarrow> Envelope list" where
  "conn_queue conn = buf (gc_sendCh conn)"

definition conn_capacity :: "GatewayConnection \<Rightarrow> nat" where
  "conn_capacity conn = (if gc_closed conn then 0 else cap (gc_sendCh conn))"

interpretation gq: bounded_queue conn_queue conn_capacity conn_send
  by unfold_locales (auto simp: conn_queue_def conn_capacity_def conn_send_def)

lemma conn_send_ok: "conn_ok conn \<Longrightarrow> conn_ok (conn_send conn e)"
  by (auto simp: conn_ok_def conn_send_def)

lemma conn_send_frame [simp]:
  "gc_id (conn_send conn e) = gc_id conn" "gc_closed (conn_send conn e) = gc_closed conn"
  by (simp_all add: conn_send_def)

definition put_conn :: "conn_ref \<Rightarrow> GatewayConnection \<Rightarrow> Server \<Rightarrow> Server" where
  "put_conn ref conn s = s\<lparr>conns := fmupd ref conn (conns s)\<rparr>"

lemma put_conn_frame [simp]:
  "ServerID (put_conn ref conn s) = ServerID s" "status (put_conn ref conn s) = status s"
  "epoch (put_conn ref conn s) = epoch s" "roomSvc (put_conn ref conn s) = roomSvc s"
  "sessionSvc (put_conn ref conn s) = sessionSvc s" "gateways (put_conn ref conn s) = gateways s"
  "recovery (put_conn ref conn s) = recovery s" "next_ref (put_conn ref conn s) = next_ref s"
  "fmlookup (conns (put_conn ref conn s)) x = (if x = ref then Some conn else fmlookup (conns s) x)"
  by (simp_all add: put_conn_def)

lemma conns_ok_put:
  "conns_ok s \<Longrightarrow> fmlookup (conns s) ref = Some old \<Longrightarrow> conn_ok conn \<Longrightarrow> conns_ok (put_conn ref conn s)"
  by (auto simp: conns_ok_def)

text \<open>Sending to a connection of the store never faults.\<close>

lemma sendToGateway_eq:
  assumes "conns_ok s" and "fmlookup (conns s) ref = Some conn"
  shows "sendToGateway ref t p s = Inr (put_conn ref (conn_send conn \<lparr>env_MsgType = t, env_Payload = p\<rparr>) s)"
proof -
  have "conn_ok conn" using assms by (simp add: conns_ok_def)
  moreover have "fmupd ref conn (conns s) = conns s" using assms(2) by (rule fmupd_same)
  ultimately show ?thesis
    using assms(2)
    by (auto simp: sendToGateway_def conn_send_def conn_ok_def try_send_def put_conn_def)
qed

lemma JoinRoom_frame [simp]:
  "conns (JoinRoom u r g now s) = conns s" "gateways (JoinRoom u r g now s) = gateways s"
  "next_ref (JoinRoom u r g now s) = next_ref s" "recovery (JoinRoom u r g now s) = recovery s"
  "status (JoinRoom u r g now s) = status s"
  by (simp_all add: JoinRoom_def Let_def)

lemma Resume_frame [simp]:
  "conns (snd (Resume u r g now s)) = conns s" "gateways (snd (Resume u r g now s)) = gateways s"
  "next_ref (snd (Resume u r g now s)) = next_ref s" "recovery (snd (Resume u r g now s)) = recovery s"
  "status (snd (Resume u r g now s)) = status s"
  by (simp_all add: Resume_def split: option.split)

lemma Resume_eq_frame: "Resume u r g now s = (x, t) \<Longrightarrow> status t = status s \<and> recovery t = recovery s"
  using Resume_frame(4,5) [of u r g now s] by simp

lemma LeaveRoom_frame [simp]:
  "conns (LeaveRoom u r s) = conns s" "gateways (LeaveRoom u r s) = gateways s"
  "next_ref (LeaveRoom u r s) = next_ref s" "recovery (LeaveRoom u r s) = recovery s"
  "status (LeaveRoom u r s) = status s"
  by (simp_all add: LeaveRoom_def)

lemma UserDisconnect_frame [simp]:
  "conns (UserDisconnect u r now s) = conns s" "gateways (UserDisconnect u r now s) = gateways s"
  "next_ref (UserDisconnect u r now s) = next_ref s" "recovery (UserDisconnect u r now s) = recovery s"
  "status (UserDisconnect u r now s) = status s"
  by (simp_all add: UserDisconnect_def)

lemma resync_users_frame [simp]:
  "conns (resync_users g us now s) = conns s" "gateways (resync_users g us now s) = gateways s"
  "next_ref (resync_users g us now s) = next_ref s" "recovery (resync_users g us now s) = recovery s"
  "status (resync_users g us now s) = status s"
  by (induction us arbitrary: s) (simp_all add: resync_users_def)

lemma conns_ok_cong:
  "conns t = conns s \<Longrightarrow> gateways t = gateways s \<Longrightarrow> next_ref t = next_ref s \<Longrightarrow> conns_ok t = conns_ok s"
  by (simp add: conns_ok_def)
section \<open>Handlers that touch no registry entry\<close>

lemma sendJoinRoomAck_eq:
  assumes "conns_ok s" and "fmlookup (conns s) ref = Some conn"
  shows "sendJoinRoomAck c ref u r ok code msg s =
    Inr (put_conn ref (conn_send conn \<lparr>env_MsgType = InternalMsgJoinRoomAck, env_Payload =
      Encode c (WJoinRoomAck \<lparr>ja_UserID = u, ja_RoomID = r, ja_Success = ok, ja_Code = code, ja_Message = msg\<rparr>)\<rparr>) s)"
  using assms by (simp add: sendJoinRoomAck_def sendToGateway_eq)

text \<open>
  Every message but \<open>GatewayInfo\<close> is handled without a fault and leaves the registry alone; of
  the connections at most the sender's queue changes.
\<close>

definition quiet :: "conn_ref \<Rightarrow> GatewayConnection \<Rightarrow> Server \<Rightarrow> Server \<Rightarrow> bool" where
  "quiet ref conn s s' \<longleftrightarrow> gateways s' = gateways s \<and> next_ref s' = next_ref s \<and>
     (conns s' = conns s \<or> (\<exists>e. conns s' = fmupd ref (conn_send conn e) (conns s)))"

lemma quiet_JoinRoomAck:
  assumes "conns_ok s" and "fmlookup (conns s) ref = Some conn" and "conns t = conns s"
    and "gateways t = gateways s" and "next_ref t = next_ref s"
  shows "\<exists>s'. sendJoinRoomAck c ref u r ok code msg t = Inr s' \<and> quiet ref conn s s' \<and> recovery s' = recovery t"
proof -
  have "conns_ok t" using assms conns_ok_cong by metis
  then show ?thesis
    using assms by (auto simp: sendJoinRoomAck_eq quiet_def put_conn_def)
qed

lemma handleGatewayMessage_quiet:
  assumes "conns_ok s" and "fmlookup (conns s) ref = Some conn"
    and "env_MsgType e \<noteq> InternalMsgGatewayInfo"
  shows "\<exists>s'. handleGatewayMessage c ref e now s = Inr s' \<and> quiet ref conn s s'"
proof -
  have q: "quiet ref conn s t" if "conns t = conns s" "gateways t = gateways s" "next_ref t = next_ref s" for t
    using that by (simp add: quiet_def)
  have join: "\<exists>s'. handleJoinRoom c ref p now s = Inr s' \<and> quiet ref conn s s'" for p
    using quiet_JoinRoomAck [OF assms(1,2)]
    by (auto simp: handleJoinRoom_def q split: option.split) (metis JoinRoom_frame(1-3))
  have resume: "\<exists>s'. handleResume c ref p now s = Inr s' \<and> quiet ref conn s s'" for p
    using quiet_JoinRoomAck [OF assms(1,2)]
    by (auto simp: handleResume_def q split: option.split prod.split) (metis Resume_frame(1-3) snd_conv)
  show ?thesis
    using assms(3) join resume
    by (simp add: handleGatewayMessage_def Let_def handleLeaveRoom_def handleDisconnect_def
        handleBatchReSync_def handleReSyncComplete_def q split: option.split)
qed

section \<open>One stream per gateway\<close>

definition registry_ok :: "Server \<Rightarrow> bool" where
  "registry_ok s \<longleftrightarrow> conns_ok s \<and>
     (\<forall>g ref. fmlookup (gateways s) g = Some ref \<longrightarrow>
        g \<noteq> '''' \<and> (\<exists>conn. fmlookup (conns s) ref = Some conn \<and> \<not> gc_closed conn \<and> gc_id conn = g))"

lemma registry_okD:
  "registry_ok s \<Longrightarrow> fmlookup (gateways s) g = Some ref \<Longrightarrow>
     g \<noteq> '''' \<and> (\<exists>conn. fmlookup (conns s) ref = Some conn \<and> \<not> gc_closed conn \<and> gc_id conn = g)"
  by (simp add: registry_ok_def)

lemma quiet_conns_ok:
  assumes "conns_ok s" and "fmlookup (conns s) ref = Some conn" and "quiet ref conn s s'"
  shows "conns_ok s'"
  using assms conn_send_ok [of conn] by (auto simp: conns_ok_def quiet_def split: if_splits)

lemma quiet_registry_ok:
  assumes "registry_ok s" and "fmlookup (conns s) ref = Some conn" and "quiet ref conn s s'"
  shows "registry_ok s'"
proof -
  have "conns_ok s'" using assms quiet_conns_ok registry_ok_def by blast
  moreover have "g \<noteq> '''' \<and> (\<exists>conn'. fmlookup (conns s') x = Some conn' \<and> \<not> gc_closed conn' \<and> gc_id conn' = g)"
    if "fmlookup (gateways s') g = Some x" for g x
    using that assms registry_okD [OF assms(1), of g x] by (cases "x = ref") (auto simp: quiet_def)
  ultimately show ?thesis by (simp add: registry_ok_def)
qed

lemma close_conn_eq:
  assumes "conns_ok s" and "fmlookup (conns s) ref = Some conn"
  shows "close_conn ref s = (if gc_closed conn then Inl (Panic ''close of closed channel'')
    else Inr (put_conn ref (conn\<lparr>gc_sendCh := (gc_sendCh conn)\<lparr>shut := True\<rparr>, gc_closed := True\<rparr>) s))"
proof -
  have "gc_closed conn = shut (gc_sendCh conn)" using assms by (simp add: conns_ok_def conn_ok_def)
  then show ?thesis using assms(2) by (simp add: close_conn_def close_chan_def put_conn_def)
qed

lemma Channel_close_eq:
  assumes "conns_ok s" and "fmlookup (conns s) ref = Some conn"
  shows "Channel_close ref s = (if gc_closed conn then Inl (Panic ''close of closed channel'')
    else Inr (let s1 = put_conn ref (conn\<lparr>gc_sendCh := (gc_sendCh conn)\<lparr>shut := True\<rparr>, gc_closed := True\<rparr>) s
              in if gc_id conn \<noteq> '''' then removeGateway (gc_id conn) s1 else s1))"
  by (simp add: Channel_close_def close_conn_eq [OF assms] Let_def)

lemma Channel_close_registry_ok:
  assumes "registry_ok s" and "fmlookup (conns s) ref = Some conn" and "\<not> gc_closed conn"
  shows "\<exists>s'. Channel_close ref s = Inr s' \<and> registry_ok s' \<and> fmlookup (gateways s') (gc_id conn) = None"
proof -
  have ok: "conns_ok s" using assms(1) by (simp add: registry_ok_def)
  let ?conn = "conn\<lparr>gc_sendCh := (gc_sendCh conn)\<lparr>shut := True\<rparr>, gc_closed := True\<rparr>"
  have "conns_ok (put_conn ref ?conn s)"
    using ok assms(2) by (intro conns_ok_put) (auto simp: conns_ok_def conn_ok_def)
  moreover have none: "fmlookup (gateways s) '''' = None"
    using registry_okD [OF assms(1), of "''''"] by (cases "fmlookup (gateways s) ''''") auto
  moreover have "x \<noteq> ref" if "fmlookup (gateways s) g = Some x" and "g \<noteq> gc_id conn" for g x
    using that registry_okD [OF assms(1), of g x] assms(2) by auto
  ultimately show ?thesis
    using assms registry_okD [OF assms(1)]
    by (auto simp: Channel_close_eq [OF ok assms(2)] Let_def registry_ok_def removeGateway_def conns_ok_def)
qed

section \<open>Registration\<close>

definition registered_conn :: "GatewayInfo \<Rightarrow> GatewayConnection \<Rightarrow> GatewayConnection" where
  "registered_conn info conn = conn\<lparr>gc_id := gi_GatewayID info, gc_addr := gi_Addr info\<rparr>"

definition epoch_envelope :: "codec \<Rightarrow> Server \<Rightarrow> Envelope" where
  "epoch_envelope c s = \<lparr>env_MsgType = InternalMsgEpochNotify, env_Payload =
     Encode c (WEpochNotify \<lparr>en_ServerID = ServerID s, en_Epoch = epoch s, en_Timestamp = 0\<rparr>)\<rparr>"

lemma conn_ok_registered: "conn_ok conn \<Longrightarrow> conn_ok (registered_conn info conn)"
  by (simp add: conn_ok_def registered_conn_def)

text \<open>A gateway id that is not registered yet.\<close>

lemma handleGatewayInfo_fresh:
  assumes "conns_ok s" and "fmlookup (conns s) ref = Some conn" and "decGatewayInfo c p = Some info"
    and "fmlookup (gateways s) (gi_GatewayID info) = None"
  shows "handleGatewayInfo c ref p s =
    Inr ((put_conn ref (conn_send (registered_conn info conn) (epoch_envelope c s)) s)
      \<lparr>gateways := fmupd (gi_GatewayID info) ref (gateways s)\<rparr>)"
proof -
  let ?s1 = "(put_conn ref (registered_conn info conn) s)\<lparr>gateways := fmupd (gi_GatewayID info) ref (gateways s)\<rparr>"
  have ok: "conns_ok ?s1"
    using assms(1,2) conn_ok_registered [of conn info] by (auto simp: conns_ok_def)
  have "addGateway ref (put_conn ref (registered_conn info conn) s) = Inr ?s1"
    using assms(4) by (simp add: addGateway_def registered_conn_def)
  moreover have "sendEpochNotify c ref ?s1 =
      Inr (put_conn ref (conn_send (registered_conn info conn) (epoch_envelope c s)) ?s1)"
    by (simp add: sendEpochNotify_def sendToGateway_eq [OF ok] epoch_envelope_def)
  moreover have "put_conn ref x ?s1 = (put_conn ref x s)\<lparr>gateways := fmupd (gi_GatewayID info) ref (gateways s)\<rparr>" for x
    by (simp add: put_conn_def)
  ultimately show ?thesis
    using assms(2,3) by (simp add: handleGatewayInfo_def put_conn_def registered_conn_def)
qed

text \<open>A gateway id that another open stream holds: the other stream's queue is closed.\<close>

lemma handleGatewayInfo_replace:
  assumes "conns_ok s" and "fmlookup (conns s) ref = Some conn" and "decGatewayInfo c p = Some info"
    and "fmlookup (gateways s) (gi_GatewayID info) = Some old" and "old \<noteq> ref"
    and "fmlookup (conns s) old = Some oconn" and "\<not> gc_closed oconn"
  shows "\<exists>s'. handleGatewayInfo c ref p s = Inr s' \<and> conns_ok s'
    \<and> fmlookup (gateways s') (gi_GatewayID info) = Some ref
    \<and> (\<exists>oconn'. fmlookup (conns s') old = Some oconn' \<and> gc_closed oconn')"
proof -
  let ?oconn = "oconn\<lparr>gc_sendCh := (gc_sendCh oconn)\<lparr>shut := True\<rparr>, gc_closed := True\<rparr>"
  let ?s0 = "put_conn ref (registered_conn info conn) s"
  let ?s1 = "(put_conn old ?oconn ?s0)\<lparr>gateways := fmupd (gi_GatewayID info) ref (gateways s)\<rparr>"
  have ok0: "conns_ok ?s0"
    using assms(1,2) by (intro conns_ok_put) (auto simp: conns_ok_def conn_ok_registered)
  have "conn_ok ?oconn" using assms(1,6) by (simp add: conns_ok_def conn_ok_def)
  then have "conns_ok (put_conn old ?oconn ?s0)"
    using conns_ok_put [OF ok0, of old oconn] assms(5,6) by simp
  then have ok1: "conns_ok ?s1" by (simp add: conns_ok_def)
  have "addGateway ref ?s0 = Inr ?s1"
    using assms(4,5,6,7) close_conn_eq [OF ok0, of old oconn] by (simp add: addGateway_def registered_conn_def)
  moreover have r: "fmlookup (conns ?s1) ref = Some (registered_conn info conn)"
    using assms(5) by simp
  ultimately have "handleGatewayInfo c ref p s =
      Inr (put_conn ref (conn_send (registered_conn info conn) (epoch_envelope c s)) ?s1)"
    using assms(2,3)
    by (simp add: handleGatewayInfo_def put_conn_def [of ref, symmetric] registered_conn_def [symmetric]
        sendEpochNotify_def sendToGateway_eq [OF ok1 r] epoch_envelope_def)
  moreover have "conn_ok (conn_send (registered_conn info conn) e)" for e
    using ok1 r conn_send_ok by (simp add: conns_ok_def)
  then have "conns_ok (put_conn ref (conn_send (registered_conn info conn) (epoch_envelope c s)) ?s1)"
    using ok1 r by (intro conns_ok_put)
  ultimately show ?thesis using assms(5) by auto
qed

lemma registry_ok_fresh:
  assumes "registry_ok s" and "fmlookup (conns s) ref = Some conn" and "\<not> gc_closed conn"
    and "gc_id conn = ''''" and "g \<noteq> ''''" and "conn_ok conn'" and "\<not> gc_closed conn'" and "gc_id conn' = g"
  shows "registry_ok ((put_conn ref conn' s)\<lparr>gateways := fmupd g ref (gateways s)\<rparr>)"
proof -
  let ?t = "(put_conn ref conn' s)\<lparr>gateways := fmupd g ref (gateways s)\<rparr>"
  have "conns_ok ?t" using assms(1,2,6) by (auto simp: registry_ok_def conns_ok_def)
  moreover have "x \<noteq> ref" if "fmlookup (gateways s) g' = Some x" for g' x
    using that assms(2,4) registry_okD [OF assms(1), of g' x] by auto
  ultimately show ?thesis
    using assms(5-8) registry_okD [OF assms(1)] by (auto simp: registry_ok_def)
qed

lemma registry_ok_cong:
  "conns t = conns s \<Longrightarrow> gateways t = gateways s \<Longrightarrow> next_ref t = next_ref s \<Longrightarrow> registry_ok t = registry_ok s"
  by (simp add: registry_ok_def conns_ok_def)

lemma registry_ok_open: "registry_ok s \<Longrightarrow> registry_ok (snd (Channel_open s))"
  by (auto simp: Channel_open_def registry_ok_def conns_ok_def conn_ok_def make_chan_def less_SucI) force+

section \<open>Recovery\<close>

definition recovering :: "Server \<Rightarrow> bool" where
  "recovering s \<longleftrightarrow> status s = ServerStatusRecovering \<and> \<not> is_done (recovery s) \<and> expectedGateways (recovery s) = 0"

lemma recovering_cong:
  "status t = status s \<Longrightarrow> recovery t = recovery s \<Longrightarrow> recovering t = recovering s"
  by (simp add: recovering_def)

lemma send_frame:
  assumes "sendToGateway ref t p s = Inr s'"
  shows "status s' = status s \<and> recovery s' = recovery s"
  using assms by (auto simp: sendToGateway_def go_bind_Inr_iff split: option.splits if_splits)

lemma close_conn_frame:
  assumes "close_conn ref s = Inr s'"
  shows "status s' = status s \<and> recovery s' = recovery s"
  using assms by (auto simp: close_conn_def go_bind_Inr_iff split: option.splits)

lemma addGateway_frame:
  assumes "addGateway ref s = Inr s'"
  shows "status s' = status s \<and> recovery s' = recovery s"
  using assms by (auto simp: addGateway_def go_bind_Inr_iff dest!: close_conn_frame split: option.splits)

lemma handleGatewayMessage_recovery:
  assumes "handleGatewayMessage c ref e now s = Inr s'"
  shows "status s' = status s \<and> expectedGateways (recovery s') = expectedGateways (recovery s)
    \<and> timeout (recovery s') = timeout (recovery s)
    \<and> (recovering s \<longrightarrow> \<not> is_done (recovery s'))"
proof -
  have info: "status s' = status s \<and> recovery s' = recovery s" if "handleGatewayInfo c ref p s = Inr s'" for p
    using that
    by (auto simp: handleGatewayInfo_def go_bind_Inr_iff Let_def sendEpochNotify_def
        dest!: addGateway_frame send_frame split: option.splits)
  have join: "status s' = status s \<and> recovery s' = recovery s" if "handleJoinRoom c ref p now s = Inr s'" for p
    using that by (auto simp: handleJoinRoom_def sendJoinRoomAck_def dest!: send_frame split: option.splits)
  have resume: "status s' = status s \<and> recovery s' = recovery s" if "handleResume c ref p now s = Inr s'" for p
    using that
    by (auto simp: handleResume_def sendJoinRoomAck_def dest!: send_frame Resume_eq_frame
        split: option.splits prod.splits)
  show ?thesis
    using assms info join resume
    by (auto simp: handleGatewayMessage_def Let_def handleLeaveRoom_def handleDisconnect_def
        handleBatchReSync_def handleReSyncComplete_def recovering_def OnGatewayComplete_done
        split: if_splits option.splits)
qed

lemma handleGatewayMessages_recovery:
  assumes "go_fold (\<lambda>(ref, e, now). handleGatewayMessage c ref e now) ms s = Inr s'" and "recovering s"
  shows "recovering s' \<and> timeout (recovery s') = timeout (recovery s)"
  using assms
proof (induction ms arbitrary: s)
  case (Cons m ms)
  obtain ref e now where m: "m = (ref, e, now)" by (cases m)
  with Cons.prems(1) obtain s1 where "handleGatewayMessage c ref e now s = Inr s1"
    and rest: "go_fold (\<lambda>(ref, e, now). handleGatewayMessage c ref e now) ms s1 = Inr s'"
    by (auto simp: go_bind_Inr_iff)
  from handleGatewayMessage_recovery [OF this(1)] Cons.prems(2)
  have "recovering s1" "timeout (recovery s1) = timeout (recovery s)" by (simp_all add: recovering_def)
  with Cons.IH [OF rest] show ?case by simp
qed simp

section \<open>Properties\<close>

text \<open>C30. No fault while every gateway has one stream. On a consistent registry: opening a stream, any message
  but a registration, the first registration of a stream under a non-empty id that is free, and
  the end of a stream are all handled without a panic and keep the registry consistent, where
  every entry is the open connection of that gateway; the end of a stream frees its id.\<close>

theorem single_stream_never_faults:
  assumes "registry_ok s" and "fmlookup (conns s) ref = Some conn" and "\<not> gc_closed conn"
  shows "registry_ok (snd (Channel_open s))
    \<and> (env_MsgType e \<noteq> InternalMsgGatewayInfo \<longrightarrow> (\<exists>s'. handleGatewayMessage c ref e now s = Inr s' \<and> registry_ok s'))
    \<and> (\<forall>info. decGatewayInfo c p = Some info \<and> gi_GatewayID info \<noteq> '''' \<and> gc_id conn = ''''
         \<and> fmlookup (gateways s) (gi_GatewayID info) = None \<longrightarrow>
         (\<exists>s'. handleGatewayInfo c ref p s = Inr s' \<and> registry_ok s' \<and> fmlookup (gateways s') (gi_GatewayID info) = Some ref))
    \<and> (\<exists>s'. Channel_close ref s = Inr s' \<and> registry_ok s' \<and> fmlookup (gateways s') (gc_id conn) = None)"
proof (intro conjI impI allI)
  have ok: "conns_ok s" using assms(1) by (simp add: registry_ok_def)
  show "registry_ok (snd (Channel_open s))" using assms(1) by (rule registry_ok_open)
  show "\<exists>s'. handleGatewayMessage c ref e now s = Inr s' \<and> registry_ok s'"
    if "env_MsgType e \<noteq> InternalMsgGatewayInfo"
    using handleGatewayMessage_quiet [OF ok assms(2) that] quiet_registry_ok [OF assms(1,2)] by blast
  show "\<exists>s'. Channel_close ref s = Inr s' \<and> registry_ok s' \<and> fmlookup (gateways s') (gc_id conn) = None"
    using assms by (rule Channel_close_registry_ok)
  fix info assume i: "decGatewayInfo c p = Some info \<and> gi_GatewayID info \<noteq> '''' \<and> gc_id conn = ''''
    \<and> fmlookup (gateways s) (gi_GatewayID info) = None"
  have "conn_ok (conn_send (registered_conn info conn) (epoch_envelope c s))"
    using ok assms(2) by (simp add: conns_ok_def conn_send_ok conn_ok_registered)
  then have "registry_ok ((put_conn ref (conn_send (registered_conn info conn) (epoch_envelope c s)) s)
      \<lparr>gateways := fmupd (gi_GatewayID info) ref (gateways s)\<rparr>)"
    using assms i by (intro registry_ok_fresh) (auto simp: registered_conn_def)
  then show "\<exists>s'. handleGatewayInfo c ref p s = Inr s' \<and> registry_ok s'
      \<and> fmlookup (gateways s') (gi_GatewayID info) = Some ref"
    using handleGatewayInfo_fresh [OF ok assms(2)] i by auto
qed

lemma registry_ok_New: "registry_ok (NewServer i t v now)"
  by (simp add: registry_ok_def conns_ok_def NewServer_def)

definition one_stream :: Server where
  "one_stream = snd (Channel_open (NewServer ''rs'' 0 1 5))"

definition idle_conn :: GatewayConnection where
  "idle_conn = \<lparr>gc_id = '''', gc_addr = '''', gc_sendCh = make_chan 10000, gc_closed = False\<rparr>"

lemma one_stream_ok: "registry_ok one_stream" "fmlookup (conns one_stream) 0 = Some idle_conn"
  "gateways one_stream = fmempty" "next_ref one_stream = 1"
  by (simp_all add: one_stream_def Channel_open_def NewServer_def registry_ok_def conns_ok_def
      conn_ok_def make_chan_def idle_conn_def)

theorem single_stream_never_faults_witness:
  "let p = Encode sample_codec (WGatewayInfo \<lparr>gi_GatewayID = ''g'', gi_Addr = ''a'', gi_Connections = 0\<rparr>) in
   registry_ok (snd (Channel_open one_stream))
   \<and> (\<exists>s'. handleGatewayInfo sample_codec 0 p one_stream = Inr s' \<and> registry_ok s' \<and> fmlookup (gateways s') ''g'' = Some 0)
   \<and> (\<exists>s'. Channel_close 0 one_stream = Inr s' \<and> registry_ok s' \<and> fmlookup (gateways s') '''' = None)"
  using single_stream_never_faults [OF one_stream_ok(1,2), of undefined sample_codec 0
      "Encode sample_codec (WGatewayInfo \<lparr>gi_GatewayID = ''g'', gi_Addr = ''a'', gi_Connections = 0\<rparr>)"]
  by (simp add: one_stream_ok idle_conn_def sample_codec_ok del: Encode_sample)


definition g_info :: GatewayInfo where
  "g_info = \<lparr>gi_GatewayID = ''g'', gi_Addr = ''a'', gi_Connections = 0\<rparr>"

definition two_streams :: Server where
  "two_streams = snd (Channel_open
     ((put_conn 0 (registered_conn g_info idle_conn) one_stream)\<lparr>gateways := fmupd ''g'' 0 (gateways one_stream)\<rparr>))"

lemma two_streams_ok:
  "registry_ok two_streams" "fmlookup (conns two_streams) 1 = Some idle_conn" "fmlookup (gateways two_streams) ''g'' = Some 0"
proof -
  have "registry_ok ((put_conn 0 (registered_conn g_info idle_conn) one_stream)\<lparr>gateways := fmupd ''g'' 0 (gateways one_stream)\<rparr>)"
    by (rule registry_ok_fresh [OF one_stream_ok(1,2)])
      (simp_all add: idle_conn_def registered_conn_def g_info_def conn_ok_def make_chan_def)
  then show "registry_ok two_streams" unfolding two_streams_def by (rule registry_ok_open)
  show "fmlookup (conns two_streams) 1 = Some idle_conn" "fmlookup (gateways two_streams) ''g'' = Some 0"
    by (simp_all add: two_streams_def Channel_open_def one_stream_ok idle_conn_def)
qed




definition join_envelope :: "codec \<Rightarrow> JoinRoomRequest \<Rightarrow> Envelope" where
  "join_envelope c req = \<lparr>env_MsgType = InternalMsgJoinRoom, env_Payload = Encode c (WJoinRoomRequest req)\<rparr>"

definition join_ack :: "codec \<Rightarrow> JoinRoomRequest \<Rightarrow> Envelope" where
  "join_ack c req = \<lparr>env_MsgType = InternalMsgJoinRoomAck, env_Payload = Encode c (WJoinRoomAck
     \<lparr>ja_UserID = jr_UserID req, ja_RoomID = jr_RoomID req, ja_Success = True, ja_Code = ErrCodeSuccess, ja_Message = ''''\<rparr>)\<rparr>"

lemma handle_join_envelope:
  assumes "codec_ok c" and "conns_ok s" and "fmlookup (conns s) ref = Some conn"
  shows "handleGatewayMessage c ref (join_envelope c req) now s =
    Inr (put_conn ref (conn_send conn (join_ack c req)) (JoinRoom (jr_UserID req) (jr_RoomID req) (jr_GatewayID req) now s))"
proof -
  have "conns_ok (JoinRoom (jr_UserID req) (jr_RoomID req) (jr_GatewayID req) now s)"
    using assms(2) by (simp add: conns_ok_def)
  then show ?thesis
    using assms(1,3)
    by (simp add: handleGatewayMessage_def join_envelope_def internal_msg_types handleJoinRoom_def
        sendJoinRoomAck_eq join_ack_def)
qed

lemma handle_join_envelopes:
  assumes "codec_ok c" and "conns_ok s" and "fmlookup (conns s) ref = Some conn"
  shows "\<exists>s'. go_fold (\<lambda>req. handleGatewayMessage c ref (join_envelope c req) now) reqs s = Inr s' \<and> conns_ok s'
    \<and> fmlookup (conns s') ref = Some (foldl conn_send conn (map (join_ack c) reqs))"
  using assms(2,3)
proof (induction reqs arbitrary: s conn)
  case Nil
  then show ?case by simp
next
  case (Cons req reqs)
  let ?j = "JoinRoom (jr_UserID req) (jr_RoomID req) (jr_GatewayID req) now s"
  let ?s = "put_conn ref (conn_send conn (join_ack c req)) ?j"
  have "conns_ok ?j" using Cons.prems(1) by (simp add: conns_ok_def)
  moreover have "conn_ok conn" using Cons.prems by (simp add: conns_ok_def)
  ultimately have "conns_ok ?s"
    using Cons.prems(2) by (intro conns_ok_put [of _ _ conn]) (simp_all add: conn_send_ok)
  from Cons.IH [OF this] show ?case
    by (simp add: handle_join_envelope [OF assms(1) Cons.prems])
qed

text \<open>Joins are acknowledged in order. A sequence of join requests that arrives on an open stream is
  processed without a fault, and the stream's send queue then holds its earlier content followed
  by one success acknowledgement per request, in the order of the requests; from the
  10000th queued envelope on acknowledgements are dropped, and the queue never grows beyond it.\<close>

lemma joins_acknowledged_in_order:
  assumes "codec_ok c" and "registry_ok s" and "fmlookup (conns s) ref = Some conn" and "\<not> gc_closed conn"
  shows "\<exists>s' conn'. go_fold (\<lambda>req. handleGatewayMessage c ref (join_envelope c req) now) reqs s = Inr s'
    \<and> fmlookup (conns s') ref = Some conn'
    \<and> buf (gc_sendCh conn') = buf (gc_sendCh conn)
        @ take (10000 - length (buf (gc_sendCh conn))) (map (join_ack c) reqs)
    \<and> length (buf (gc_sendCh conn')) \<le> 10000"
proof -
  have ok: "conns_ok s" using assms(2) by (simp add: registry_ok_def)
  then have cap: "conn_capacity conn = 10000" "length (conn_queue conn) \<le> 10000"
    using assms(3,4) by (simp_all add: conns_ok_def conn_ok_def conn_capacity_def conn_queue_def)
  obtain s' where "go_fold (\<lambda>req. handleGatewayMessage c ref (join_envelope c req) now) reqs s = Inr s'"
    and "fmlookup (conns s') ref = Some (foldl conn_send conn (map (join_ack c) reqs))"
    using handle_join_envelopes [OF assms(1) ok assms(3)] by blast
  moreover have "buf (gc_sendCh (foldl conn_send conn (map (join_ack c) reqs))) = buf (gc_sendCh conn)
      @ take (10000 - length (buf (gc_sendCh conn))) (map (join_ack c) reqs)"
    using gq.content_sends [of conn] cap by (simp add: conn_queue_def)
  moreover have "length (buf (gc_sendCh (foldl conn_send conn (map (join_ack c) reqs)))) \<le> 10000"
    using gq.within_capacity [of conn] cap by (simp add: conn_queue_def)
  ultimately show ?thesis by blast
qed

lemma joins_acknowledged_in_order_example:
  "\<exists>s' conn'. go_fold (\<lambda>req. handleGatewayMessage sample_codec 0 (join_envelope sample_codec req) 7)
      [\<lparr>jr_UserID = ''u'', jr_RoomID = ''r'', jr_GatewayID = ''g''\<rparr>, \<lparr>jr_UserID = ''v'', jr_RoomID = ''r'', jr_GatewayID = ''g''\<rparr>]
      one_stream = Inr s'
    \<and> fmlookup (conns s') 0 = Some conn'
    \<and> buf (gc_sendCh conn') = map (join_ack sample_codec)
      [\<lparr>jr_UserID = ''u'', jr_RoomID = ''r'', jr_GatewayID = ''g''\<rparr>, \<lparr>jr_UserID = ''v'', jr_RoomID = ''r'', jr_GatewayID = ''g''\<rparr>]"
  using joins_acknowledged_in_order [OF sample_codec_ok one_stream_ok(1,2), of 7
      "[\<lparr>jr_UserID = ''u'', jr_RoomID = ''r'', jr_GatewayID = ''g''\<rparr>, \<lparr>jr_UserID = ''v'', jr_RoomID = ''r'', jr_GatewayID = ''g''\<rparr>]"]
  by (auto simp: idle_conn_def make_chan_def simp del: go_fold.simps)

section \<open>Resynchronisation\<close>

lemma resync_users_Nil [simp]: "resync_users g [] now s = s"
  by (simp add: resync_users_def)

lemma resync_users_Cons [simp]:
  "resync_users g (p # ps) now s = resync_users g ps now (JoinRoom (up_UserID p) (up_RoomID p) g now s)"
  by (simp add: resync_users_def)

lemma resync_users_append [simp]:
  "resync_users g (ps @ qs) now s = resync_users g qs now (resync_users g ps now s)"
  by (simp add: resync_users_def)

lemma server_wf_resync: "server_wf s \<Longrightarrow> server_wf (resync_users g ps now s)"
  by (induction ps arbitrary: s) (simp_all add: server_wf_ops)

lemma resync_users_other:
  assumes "server_wf s" and "u \<notin> up_UserID ` set ps"
  shows "sess u (resync_users g ps now s) = sess u s \<and> memb r u (resync_users g ps now s) = memb r u s"
  using assms by (induction ps arbitrary: s) (simp_all add: server_simps server_wf_ops)

lemma resync_users_listed:
  assumes "server_wf s" and "distinct (map up_UserID users)" and p: "p \<in> set users"
  shows "memb (up_RoomID p) (up_UserID p) (resync_users g users now s) = Some (new_member (up_UserID p) g now)
    \<and> sess (up_UserID p) (resync_users g users now s) =
        Some (updated_session (up_UserID p) (up_RoomID p) g now (sess (up_UserID p) s))
    \<and> (\<forall>r. r \<noteq> up_RoomID p \<longrightarrow> memb r (up_UserID p) (resync_users g users now s) =
         (if r \<noteq> '''' \<and> r = GetUserRoom (up_UserID p) (sessionSvc s) then None else memb r (up_UserID p) s))"
proof -
  obtain ps qs where split: "users = ps @ p # qs" using p by (meson split_list)
  let ?u = "up_UserID p" and ?s' = "resync_users g users now s"
  let ?a = "resync_users g ps now s" and ?b = "JoinRoom ?u (up_RoomID p) g now (resync_users g ps now s)"
  have out: "?u \<notin> up_UserID ` set ps" "?u \<notin> up_UserID ` set qs" using assms(2) split by auto
  have wf: "server_wf ?a" "server_wf ?b" using assms(1) by (simp_all add: server_wf_resync server_wf_ops)
  have a: "sess ?u ?a = sess ?u s" "memb r ?u ?a = memb r ?u s" for r
    using resync_users_other [OF assms(1) out(1)] by blast+
  then have room: "GetUserRoom ?u (sessionSvc ?a) = GetUserRoom ?u (sessionSvc s)"
    by (simp add: GetUserRoom_def)
  have "sess ?u ?s' = sess ?u ?b" "memb r ?u ?s' = memb r ?u ?b" for r
    using resync_users_other [OF wf(2) out(2)] by (simp_all add: split)
  then show ?thesis using wf(1) a room by (auto simp: server_simps)
qed

text \<open>A resync batch rebuilds its users. When every user occurs once in a batch, the roomserver processes
  the batch without a fault, and then each listed user is an online member of the listed room on
  the reporting gateway with a session that says the same; the user is in no other room the
  session named before, users outside the batch are untouched, and the counter of received users
  grows by the size of the batch.\<close>

lemma resync_rebuilds_users:
  assumes "codec_ok c" and "server_wf s" and "distinct (map up_UserID users)"
  shows "\<exists>s'. handleBatchReSync c ref (Encode c (WBatchReSync \<lparr>br_GatewayID = g, br_Users = users\<rparr>)) now s = Inr s'
    \<and> (\<forall>p \<in> set users. memb (up_RoomID p) (up_UserID p) s' = Some (new_member (up_UserID p) g now)
         \<and> sess (up_UserID p) s' = Some (updated_session (up_UserID p) (up_RoomID p) g now (sess (up_UserID p) s))
         \<and> (\<forall>r. r = GetUserRoom (up_UserID p) (sessionSvc s) \<and> r \<noteq> '''' \<and> r \<noteq> up_RoomID p \<longrightarrow> memb r (up_UserID p) s' = None))
    \<and> (\<forall>u. u \<notin> up_UserID ` set users \<longrightarrow> sess u s' = sess u s \<and> (\<forall>r. memb r u s' = memb r u s))
    \<and> receivedUsers (recovery s') = receivedUsers (recovery s) + of_nat (length users)"
proof -
  let ?s' = "resync_users g users now s"
  have "handleBatchReSync c ref (Encode c (WBatchReSync \<lparr>br_GatewayID = g, br_Users = users\<rparr>)) now s =
      Inr (?s'\<lparr>recovery := OnUsersReceived (int (length users)) (recovery ?s')\<rparr>)"
    using assms(1) by (simp add: handleBatchReSync_def Let_def)
  then show ?thesis
    using resync_users_listed [OF assms(2,3)] resync_users_other [OF assms(2), of _ users]
    by (auto simp: OnUsersReceived_def)
qed

lemma resync_rebuilds_users_example:
  "\<exists>s'. handleBatchReSync sample_codec 0 (Encode sample_codec (WBatchReSync
       \<lparr>br_GatewayID = ''g'', br_Users = [\<lparr>up_UserID = ''u'', up_RoomID = ''r''\<rparr>]\<rparr>)) 7 (NewServer ''rs'' 0 1 5) = Inr s'
    \<and> memb ''r'' ''u'' s' = Some (new_member ''u'' ''g'' 7) \<and> receivedUsers (recovery s') = 1"
  using resync_rebuilds_users [OF sample_codec_ok server_wf_New [of "''rs''" 0 1 5],
      of "[\<lparr>up_UserID = ''u'', up_RoomID = ''r''\<rparr>]" 0 "''g''" 7]
  by (auto simp: NewServer_def NewRecoveryState_def simp del: Encode_sample)

end
