(* ===== verification/Push_API.thy ===== *)
theory Push_API
  imports Registry
begin

text \<open>
  The HTTP interface of the roomserver for the business backend
  (\<open>internal/roomserver/push_api.go\<close>): unicast, multicast, room broadcast, global broadcast and
  room close. A handler gets the method and the decoded JSON body (nothing when decoding fails)
  and returns the response with the new state. Broadcast counters and the response's JSON
  rendering are left out.
\<close>

section \<open>Requests and responses\<close>

datatype http_response = HttpError nat string | HttpOK string

definition MethodPost :: string where "MethodPost = ''POST''"
definition StatusMethodNotAllowed :: nat where "StatusMethodNotAllowed = 405"
definition StatusServiceUnavailable :: nat where "StatusServiceUnavailable = 503"
definition StatusBadRequest :: nat where "StatusBadRequest = 400"
definition StatusNotFound :: nat where "StatusNotFound = 404"

lemmas http_defs = MethodPost_def StatusMethodNotAllowed_def StatusServiceUnavailable_def
  StatusBadRequest_def StatusNotFound_def

record UnicastRequest =
  ur_RoomID :: room_id
  ur_UserID :: user_id
  ur_Message :: bytes

record MulticastRequest =
  mr_RoomID :: room_id
  mr_UserIDs :: "user_id list"
  mr_Message :: bytes

record RoomBroadcastRequest =
  rb_RoomID :: room_id
  rb_Message :: bytes

record GlobalBroadcastRequest =
  gb_Message :: bytes

record RoomCloseRequest =
  rq_RoomID :: room_id
  rq_Reason :: string

type_synonym http_result = "(http_response \<times> Server) go"

text \<open>The checks that open every push handler.\<close>

definition push_guard :: "string \<Rightarrow> 'req option \<Rightarrow> Server \<Rightarrow> ('req \<Rightarrow> http_result) \<Rightarrow> http_result" where
  "push_guard meth body s k =
     (if meth \<noteq> MethodPost then Inr (HttpError StatusMethodNotAllowed ''method not allowed'', s)
      else if status s = ServerStatusRecovering then Inr (HttpError StatusServiceUnavailable ''service recovering'', s)
      else (case body of
              None \<Rightarrow> Inr (HttpError StatusBadRequest ''invalid request'', s)
            | Some req \<Rightarrow> k req))"

section \<open>Handlers\<close>

definition handleUnicastHTTP :: "codec \<Rightarrow> string \<Rightarrow> UnicastRequest option \<Rightarrow> Server \<Rightarrow> http_result" where
  "handleUnicastHTTP c meth body s = push_guard meth body s (\<lambda>req.
     case GetSession (ur_UserID req) (sessionSvc s) of
       None \<Rightarrow> Inr (HttpError StatusNotFound ''user not found'', s)
     | Some session \<Rightarrow>
         (case GetGatewayByID (s_GatewayID session) s of
            None \<Rightarrow> Inr (HttpError StatusNotFound ''gateway not found'', s)
          | Some gw \<Rightarrow>
              go_bind (sendToGateway gw InternalMsgUnicast
                  (Encode c (WUnicastMessage \<lparr>um_UserID = ur_UserID req, um_Payload = ur_Message req\<rparr>)) s)
                (\<lambda>s1. Inr (HttpOK '''', s1))))"

definition append_user :: "gateway_id \<Rightarrow> user_id \<Rightarrow> (gateway_id, user_id list) fmap \<Rightarrow> (gateway_id, user_id list) fmap" where
  "append_user g u m = fmupd g ((case fmlookup m g of None \<Rightarrow> [] | Some us \<Rightarrow> us) @ [u]) m"

definition gatewayUsers :: "user_id list \<Rightarrow> SessionService \<Rightarrow> (gateway_id, user_id list) fmap" where
  "gatewayUsers userIDs ss =
     foldl (\<lambda>m u. case GetSession u ss of None \<Rightarrow> m | Some session \<Rightarrow> append_user (s_GatewayID session) u m)
       fmempty userIDs"

definition multicast_to :: "codec \<Rightarrow> MulticastRequest \<Rightarrow> (gateway_id, user_id list) fmap \<Rightarrow> gateway_id \<Rightarrow> Server \<Rightarrow> Server go" where
  "multicast_to c req groups gwID s =
     forward InternalMsgMulticast
       (Encode c (WMulticastMessage \<lparr>mm_RoomID = mr_RoomID req,
          mm_UserIDs = (case fmlookup groups gwID of None \<Rightarrow> [] | Some us \<Rightarrow> us), mm_Payload = mr_Message req\<rparr>)) gwID s"

definition handleMulticastHTTP ::
  "codec \<Rightarrow> range_order \<Rightarrow> string \<Rightarrow> MulticastRequest option \<Rightarrow> Server \<Rightarrow> http_result" where
  "handleMulticastHTTP c ord meth body s = push_guard meth body s (\<lambda>req.
     let groups = gatewayUsers (mr_UserIDs req) (sessionSvc s)
     in go_bind (go_fold (multicast_to c req groups) (ord (fmdom groups)) s) (\<lambda>s1. Inr (HttpOK '''', s1)))"

definition handleRoomBroadcastHTTP ::
  "codec \<Rightarrow> range_order \<Rightarrow> string \<Rightarrow> RoomBroadcastRequest option \<Rightarrow> Server \<Rightarrow> http_result" where
  "handleRoomBroadcastHTTP c ord meth body s = push_guard meth body s (\<lambda>req.
     case GetRoom (rb_RoomID req) (roomSvc s) of
       None \<Rightarrow> Inr (HttpError StatusNotFound ''room not found'', s)
     | Some room \<Rightarrow>
         let gatewayIDs = GetRoomGatewayIDs ord (rb_RoomID req) (roomSvc s)
         in if gatewayIDs = [] then Inr (HttpOK ''no gateways'', s)
            else
              go_bind (go_fold (forward InternalMsgBroadcast
                  (Encode c (WBroadcastMessage \<lparr>bm_RoomID = rb_RoomID req, bm_Seq = 0, bm_Payload = rb_Message req\<rparr>)))
                  gatewayIDs s)
                (\<lambda>s1. Inr (HttpOK '''', s1)))"

definition allGatewayIDs :: "range_order \<Rightarrow> RoomService \<Rightarrow> gateway_id fset" where
  "allGatewayIDs ord rs =
     foldl (\<lambda>acc roomID. foldl (\<lambda>acc gwID. finsert gwID acc) acc (GetRoomGatewayIDs ord roomID rs)) {||}
       (GetAllRoomIDs ord rs)"

definition handleGlobalBroadcastHTTP ::
  "codec \<Rightarrow> range_order \<Rightarrow> string \<Rightarrow> GlobalBroadcastRequest option \<Rightarrow> Server \<Rightarrow> http_result" where
  "handleGlobalBroadcastHTTP c ord meth body s = push_guard meth body s (\<lambda>req.
     go_bind (go_fold (forward InternalMsgBroadcast
         (Encode c (WBroadcastMessage \<lparr>bm_RoomID = '''', bm_Seq = 0, bm_Payload = gb_Message req\<rparr>)))
         (ord (allGatewayIDs ord (roomSvc s))) s)
       (\<lambda>s1. Inr (HttpOK '''', s1)))"

text \<open>Closing a room is allowed while the server recovers.\<close>

definition handleRoomCloseHTTP ::
  "codec \<Rightarrow> range_order \<Rightarrow> string \<Rightarrow> RoomCloseRequest option \<Rightarrow> Server \<Rightarrow> http_result" where
  "handleRoomCloseHTTP c ord meth body s =
     (if meth \<noteq> MethodPost then Inr (HttpError StatusMethodNotAllowed ''method not allowed'', s)
      else (case body of
              None \<Rightarrow> Inr (HttpError StatusBadRequest ''invalid request'', s)
            | Some req \<Rightarrow>
                (case GetRoom (rq_RoomID req) (roomSvc s) of
                   None \<Rightarrow> Inr (HttpError StatusNotFound ''room not found'', s)
                 | Some room \<Rightarrow>
                     go_bind (go_fold (forward InternalMsgRoomClose
                         (Encode c (WRoomCloseNotify \<lparr>rn_RoomID = rq_RoomID req, rn_Reason = rq_Reason req\<rparr>)))
                         (GetRoomGatewayIDs ord (rq_RoomID req) (roomSvc s)) s)
                       (\<lambda>s1. Inr (HttpOK '''', s1\<lparr>roomSvc := snd (CloseRoom (rq_RoomID req) (roomSvc s1))\<rparr>)))))"

section \<open>Sending to registered gateways\<close>

definition gw_conn :: "gateway_id \<Rightarrow> Server \<Rightarrow> GatewayConnection option" where
  "gw_conn g s = (case fmlookup (gateways s) g of None \<Rightarrow> None | Some ref \<Rightarrow> fmlookup (conns s) ref)"

definition same_but_conns :: "Server \<Rightarrow> Server \<Rightarrow> bool" where
  "same_but_conns s s' \<longleftrightarrow> ServerID s' = ServerID s \<and> status s' = status s \<and> epoch s' = epoch s
     \<and> roomSvc s' = roomSvc s \<and> sessionSvc s' = sessionSvc s \<and> gateways s' = gateways s
     \<and> recovery s' = recovery s \<and> hashRing s' = hashRing s
     \<and> RoomserverRecoveryMode s' = RoomserverRecoveryMode s \<and> next_ref s' = next_ref s"

lemma same_but_conns_refl [simp]: "same_but_conns s s"
  by (simp add: same_but_conns_def)

lemma same_but_conns_trans: "same_but_conns s t \<Longrightarrow> same_but_conns t u \<Longrightarrow> same_but_conns s u"
  by (simp add: same_but_conns_def)

lemma same_but_conns_put [simp]: "same_but_conns s (put_conn ref conn s)"
  by (simp add: same_but_conns_def) (simp add: put_conn_def)

definition envelope :: "uint32 \<Rightarrow> bytes \<Rightarrow> Envelope" where
  "envelope t p = \<lparr>env_MsgType = t, env_Payload = p\<rparr>"

text \<open>
  In a consistent registry two gateways never share a connection, so forwarding to one gateway
  changes that gateway's queue only.
\<close>

lemma forward_effect:
  assumes "registry_ok s"
  shows "\<exists>s'. forward t p g s = Inr s' \<and> registry_ok s' \<and> same_but_conns s s'
    \<and> (\<forall>h. gw_conn h s' = (if h = g then map_option (\<lambda>x. conn_send x (envelope t p)) (gw_conn g s) else gw_conn h s))"
proof (cases "fmlookup (gateways s) g")
  case None
  then show ?thesis using assms by (simp add: forward_def gw_conn_def)
next
  case (Some ref)
  obtain conn where conn: "fmlookup (conns s) ref = Some conn" "gc_id conn = g"
    using registry_okD [OF assms Some] by blast
  let ?s' = "put_conn ref (conn_send conn (envelope t p)) s"
  have "conns_ok s" using assms by (simp add: registry_ok_def)
  then have eq: "forward t p g s = Inr ?s'"
    using Some conn by (simp add: forward_def sendToGateway_eq envelope_def)
  have q: "quiet ref conn s ?s'" by (auto simp: quiet_def put_conn_def)
  have "registry_ok ?s'" by (rule quiet_registry_ok [OF assms conn(1) q])
  moreover have "x \<noteq> ref" if "fmlookup (gateways s) h = Some x" and "h \<noteq> g" for h x
    using that registry_okD [OF assms that(1)] conn by auto
  then have "gw_conn h ?s' = (if h = g then map_option (\<lambda>x. conn_send x (envelope t p)) (gw_conn g s) else gw_conn h s)" for h
    using Some conn by (auto simp: gw_conn_def split: option.split)
  ultimately show ?thesis using eq by (intro exI [of _ ?s']) simp
qed

lemma forward_fold:
  assumes "registry_ok s" and "distinct gs"
  shows "\<exists>s'. go_fold (\<lambda>g. forward t (pl g) g) gs s = Inr s' \<and> registry_ok s' \<and> same_but_conns s s'
    \<and> (\<forall>h. gw_conn h s' = (if h \<in> set gs then map_option (\<lambda>x. conn_send x (envelope t (pl h))) (gw_conn h s) else gw_conn h s))"
  using assms
proof (induction gs arbitrary: s)
  case Nil
  then show ?case by simp
next
  case (Cons g gs)
  obtain s1 where s1: "forward t (pl g) g s = Inr s1" "registry_ok s1" "same_but_conns s s1"
    and c1: "\<And>h. gw_conn h s1 = (if h = g then map_option (\<lambda>x. conn_send x (envelope t (pl g))) (gw_conn g s) else gw_conn h s)"
    using forward_effect [OF Cons.prems(1)] by blast
  obtain s2 where s2: "go_fold (\<lambda>g. forward t (pl g) g) gs s1 = Inr s2" "registry_ok s2" "same_but_conns s1 s2"
    and c2: "\<And>h. gw_conn h s2 = (if h \<in> set gs then map_option (\<lambda>x. conn_send x (envelope t (pl h))) (gw_conn h s1) else gw_conn h s1)"
    using Cons.IH [OF s1(2)] Cons.prems(2) by auto
  have "go_fold (\<lambda>g. forward t (pl g) g) (g # gs) s = Inr s2" using s1(1) s2(1) by simp
  moreover have "same_but_conns s s2" using s1(3) s2(3) by (rule same_but_conns_trans)
  moreover have "gw_conn h s2 = (if h \<in> set (g # gs) then map_option (\<lambda>x. conn_send x (envelope t (pl h))) (gw_conn h s)
      else gw_conn h s)" for h
    using Cons.prems(2) by (auto simp: c1 c2)
  ultimately show ?case using s2(2) by blast
qed

section \<open>Grouping users by gateway\<close>

definition user_gateway :: "SessionService \<Rightarrow> user_id \<Rightarrow> gateway_id option" where
  "user_gateway ss u = map_option s_GatewayID (GetSession u ss)"

lemma gatewayUsers_lookup:
  "fmlookup (gatewayUsers us ss) g =
     (let l = filter (\<lambda>u. user_gateway ss u = Some g) us in if l = [] then None else Some l)"
  unfolding gatewayUsers_def
  by (induction us rule: rev_induct)
     (auto simp: append_user_def user_gateway_def Let_def split: option.split)

lemma gatewayUsers_dom: "g |\<in>| fmdom (gatewayUsers us ss) \<longleftrightarrow> (\<exists>u \<in> set us. user_gateway ss u = Some g)"
  by (simp add: fmdom_iff_lookup gatewayUsers_lookup Let_def filter_empty_conv)

lemma foldl_finsert: "foldl (\<lambda>acc x. finsert x acc) A xs = fset_of_list xs |\<union>| A"
  by (induction xs arbitrary: A) auto

lemma allGatewayIDs_mem:
  assumes "go_range ord" and "rooms_wf rs"
  shows "g |\<in>| allGatewayIDs ord rs \<longleftrightarrow> (\<exists>r. view_in r g rs \<noteq> {||})"
proof -
  have *: "g |\<in>| foldl (\<lambda>acc r. foldl (\<lambda>acc x. finsert x acc) acc (f r)) A rs' \<longleftrightarrow>
      g |\<in>| A \<or> (\<exists>r \<in> set rs'. g \<in> set (f r))" for f A and rs' :: "room_id list"
    by (induction rs' arbitrary: A) (auto simp: foldl_finsert fset_of_list_elem)
  have "(\<exists>r \<in> fset (fmdom (rooms rs)). view_in r g rs \<noteq> {||}) \<longleftrightarrow> (\<exists>r. view_in r g rs \<noteq> {||})"
    by (auto simp: view_in_def GetRoom_def fmdom_iff_lookup split: option.splits)
  then show ?thesis
    using assms by (simp add: allGatewayIDs_def * GetAllRoomIDs_def set_GetRoomGatewayIDs)
qed

text \<open>A room broadcast reaches every member. On a ready server with a consistent registry, a broadcast to
  an existing room answers OK and queues exactly one broadcast message with the room id on every
  registered gateway of the room's gateway list, which covers the gateway of every member; every
  other gateway's queue, every room and every session is unchanged.\<close>

lemma room_broadcast_effect:
  assumes "go_range ord" and "registry_ok s" and "rooms_wf (roomSvc s)" and "status s = ServerStatusReady"
    and "RoomExists r (roomSvc s)"
  shows "\<exists>note s'. handleRoomBroadcastHTTP c ord MethodPost (Some \<lparr>rb_RoomID = r, rb_Message = p\<rparr>) s = Inr (HttpOK note, s')
    \<and> registry_ok s' \<and> same_but_conns s s'
    \<and> (\<forall>u m. member r u (roomSvc s) = Some m \<longrightarrow> rm_GatewayID m \<in> set (GetRoomGatewayIDs ord r (roomSvc s)))
    \<and> (\<forall>g. gw_conn g s' = (if g \<in> set (GetRoomGatewayIDs ord r (roomSvc s))
         then map_option (\<lambda>x. conn_send x (envelope InternalMsgBroadcast
           (Encode c (WBroadcastMessage \<lparr>bm_RoomID = r, bm_Seq = 0, bm_Payload = p\<rparr>)))) (gw_conn g s)
         else gw_conn g s))"
proof -
  let ?gs = "GetRoomGatewayIDs ord r (roomSvc s)"
  let ?pl = "Encode c (WBroadcastMessage \<lparr>bm_RoomID = r, bm_Seq = 0, bm_Payload = p\<rparr>)"
  obtain room where room: "GetRoom r (roomSvc s) = Some room"
    using assms(5) by (auto simp: RoomExists_def GetRoom_def)
  have "distinct ?gs" using assms(1) by (simp add: GetRoomGatewayIDs_def split: option.split)
  then obtain s' where s': "go_fold (forward InternalMsgBroadcast ?pl) ?gs s = Inr s'" "registry_ok s'" "same_but_conns s s'"
    "\<And>h. gw_conn h s' = (if h \<in> set ?gs then map_option (\<lambda>x. conn_send x (envelope InternalMsgBroadcast ?pl)) (gw_conn h s) else gw_conn h s)"
    using forward_fold [OF assms(2), of ?gs InternalMsgBroadcast "\<lambda>_. ?pl"] by auto
  have "\<exists>note. handleRoomBroadcastHTTP c ord MethodPost (Some \<lparr>rb_RoomID = r, rb_Message = p\<rparr>) s = Inr (HttpOK note, s')"
    using s'(1) assms(4) room
    by (cases "?gs = []") (simp_all add: handleRoomBroadcastHTTP_def push_guard_def)
  moreover have "rm_GatewayID m \<in> set ?gs" if "member r u (roomSvc s) = Some m" for u m
    using view_in_wf [OF assms(3) that] assms(1,3) by (auto simp: set_GetRoomGatewayIDs)
  ultimately show ?thesis using s'(2-4) by blast
qed

section \<open>Properties\<close>

definition ready_stream :: Server where
  "ready_stream =
     (let s = (put_conn 0 (registered_conn g_info idle_conn) one_stream)\<lparr>gateways := fmupd ''g'' 0 (gateways one_stream)\<rparr>
      in (JoinRoom ''u'' ''r'' ''g'' 7 s)\<lparr>status := ServerStatusReady\<rparr>)"

lemma ready_stream_ok:
  "registry_ok ready_stream" "server_wf ready_stream" "status ready_stream = ServerStatusReady"
  "RoomExists ''r'' (roomSvc ready_stream)" "memb ''r'' ''u'' ready_stream = Some (new_member ''u'' ''g'' 7)"
  "gw_conn ''g'' ready_stream = Some (registered_conn g_info idle_conn)"
proof -
  let ?s = "(put_conn 0 (registered_conn g_info idle_conn) one_stream)\<lparr>gateways := fmupd ''g'' 0 (gateways one_stream)\<rparr>"
  have "registry_ok ?s"
    by (rule registry_ok_fresh [OF one_stream_ok(1,2)])
      (simp_all add: idle_conn_def registered_conn_def g_info_def conn_ok_def make_chan_def)
  then show "registry_ok ready_stream"
    by (rule iffD2 [OF registry_ok_cong, rotated -1]) (simp_all add: ready_stream_def Let_def)
  have "server_wf ?s"
    by (rule iffD2 [OF server_wf_cong server_wf_New [of "''rs''" 0 1 5]]) (simp_all add: one_stream_def Channel_open_def)
  then have "server_wf (JoinRoom ''u'' ''r'' ''g'' 7 ?s)" by (rule server_wf_ops)
  then show "server_wf ready_stream"
    by (rule iffD2 [OF server_wf_cong, rotated -1]) (simp_all add: ready_stream_def Let_def)
  show "status ready_stream = ServerStatusReady" "RoomExists ''r'' (roomSvc ready_stream)"
    "memb ''r'' ''u'' ready_stream = Some (new_member ''u'' ''g'' 7)"
    "gw_conn ''g'' ready_stream = Some (registered_conn g_info idle_conn)"
    by (simp_all add: ready_stream_def Let_def server_simps gw_conn_def)
       (simp add: JoinRoom_def Let_def room_simps)
qed

lemma room_broadcast_example:
  "\<exists>note s'. handleRoomBroadcastHTTP sample_codec sorted_list_of_fset MethodPost (Some \<lparr>rb_RoomID = ''r'', rb_Message = [1]\<rparr>) ready_stream
      = Inr (HttpOK note, s')
    \<and> gw_conn ''g'' s' = Some (conn_send (registered_conn g_info idle_conn) (envelope InternalMsgBroadcast
        (Encode sample_codec (WBroadcastMessage \<lparr>bm_RoomID = ''r'', bm_Seq = 0, bm_Payload = [1]\<rparr>))))"
proof -
  from room_broadcast_effect [OF go_range_sorted ready_stream_ok(1) server_wfD(1) [OF ready_stream_ok(2)]
      ready_stream_ok(3,4), of sample_codec "[1]"]
  show ?thesis
    using ready_stream_ok(5,6) by (fastforce simp: new_member_def simp del: Encode_sample)
qed

text \<open>A multicast partitions its users. On a ready server with a consistent registry, each registered
  gateway receives one multicast message with exactly those requested users whose session is on
  it, in the order of the request, and no message when there is none; users without a session are
  skipped, and rooms and sessions are unchanged.\<close>

lemma multicast_partitions_users:
  assumes "go_range ord" and "registry_ok s" and "status s = ServerStatusReady"
  shows "\<exists>s'. handleMulticastHTTP c ord MethodPost (Some \<lparr>mr_RoomID = r, mr_UserIDs = us, mr_Message = p\<rparr>) s
      = Inr (HttpOK '''', s')
    \<and> registry_ok s' \<and> same_but_conns s s'
    \<and> (\<forall>g. gw_conn g s' =
        (let mine = filter (\<lambda>u. user_gateway (sessionSvc s) u = Some g) us in
         if mine = [] then gw_conn g s
         else map_option (\<lambda>x. conn_send x (envelope InternalMsgMulticast
           (Encode c (WMulticastMessage \<lparr>mm_RoomID = r, mm_UserIDs = mine, mm_Payload = p\<rparr>)))) (gw_conn g s)))"
proof -
  let ?groups = "gatewayUsers us (sessionSvc s)"
  let ?req = "\<lparr>mr_RoomID = r, mr_UserIDs = us, mr_Message = p\<rparr>"
  let ?pl = "\<lambda>g. Encode c (WMulticastMessage \<lparr>mm_RoomID = r,
    mm_UserIDs = (case fmlookup ?groups g of None \<Rightarrow> [] | Some us \<Rightarrow> us), mm_Payload = p\<rparr>)"
  have "distinct (ord (fmdom ?groups))" using assms(1) by simp
  then obtain s' where s': "go_fold (\<lambda>g. forward InternalMsgMulticast (?pl g) g) (ord (fmdom ?groups)) s = Inr s'"
    "registry_ok s'" "same_but_conns s s'"
    and c: "\<And>h. gw_conn h s' = (if h \<in> set (ord (fmdom ?groups))
       then map_option (\<lambda>x. conn_send x (envelope InternalMsgMulticast (?pl h))) (gw_conn h s) else gw_conn h s)"
    using forward_fold [OF assms(2), of "ord (fmdom ?groups)" InternalMsgMulticast ?pl] by blast
  have "multicast_to c ?req ?groups = (\<lambda>g. forward InternalMsgMulticast (?pl g) g)"
    by (intro ext) (simp add: multicast_to_def)
  then have "handleMulticastHTTP c ord MethodPost (Some ?req) s = Inr (HttpOK '''', s')"
    using s'(1) assms(3) by (simp add: handleMulticastHTTP_def push_guard_def)
  moreover have "gw_conn g s' =
      (let mine = filter (\<lambda>u. user_gateway (sessionSvc s) u = Some g) us in
       if mine = [] then gw_conn g s
       else map_option (\<lambda>x. conn_send x (envelope InternalMsgMulticast
         (Encode c (WMulticastMessage \<lparr>mm_RoomID = r, mm_UserIDs = mine, mm_Payload = p\<rparr>)))) (gw_conn g s))" for g
    using assms(1) by (simp add: c gatewayUsers_lookup fmdom_iff_lookup Let_def)
  ultimately show ?thesis using s'(2,3) by blast
qed

lemma multicast_partitions_users_example:
  "\<exists>s'. handleMulticastHTTP sample_codec sorted_list_of_fset MethodPost
      (Some \<lparr>mr_RoomID = ''r'', mr_UserIDs = [''w'', ''u''], mr_Message = [1]\<rparr>) ready_stream = Inr (HttpOK '''', s')
    \<and> gw_conn ''g'' s' = Some (conn_send (registered_conn g_info idle_conn) (envelope InternalMsgMulticast
        (Encode sample_codec (WMulticastMessage \<lparr>mm_RoomID = ''r'', mm_UserIDs = [''u''], mm_Payload = [1]\<rparr>))))"
proof -
  have wf: "server_wf ((put_conn 0 (registered_conn g_info idle_conn) one_stream)\<lparr>gateways := fmupd ''g'' 0 (gateways one_stream)\<rparr>)"
    by (rule iffD2 [OF server_wf_cong server_wf_New [of "''rs''" 0 1 5]]) (simp_all add: one_stream_def Channel_open_def)
  have "sess ''u'' ready_stream = Some (updated_session ''u'' ''r'' ''g'' 7 None)" "sess ''w'' ready_stream = None"
    using wf by (simp_all add: ready_stream_def Let_def server_simps)
      (simp_all add: one_stream_def Channel_open_def NewServer_def)
  then have "filter (\<lambda>u. user_gateway (sessionSvc ready_stream) u = Some ''g'') [''w'', ''u''] = [''u'']"
    by (simp add: user_gateway_def)
  with multicast_partitions_users [OF go_range_sorted ready_stream_ok(1,3), of sample_codec "''r''" "[''w'', ''u'']" "[1]"]
  show ?thesis by (auto simp: Let_def ready_stream_ok(6) simp del: Encode_sample filter.simps)
qed

text \<open>C34. Closing a room, ready or recovering: the handler answers OK, queues one close notice on every
  registered gateway of the room's list, and removes the room with all its members; other rooms
  are unchanged, and so are all sessions, the sessions of the former members included.\<close>

theorem room_close_notifies_and_removes:
  assumes "go_range ord" and "registry_ok s" and "rooms_wf (roomSvc s)" and "RoomExists r (roomSvc s)"
  shows "\<exists>s'. handleRoomCloseHTTP c ord MethodPost (Some \<lparr>rq_RoomID = r, rq_Reason = x\<rparr>) s = Inr (HttpOK '''', s')
    \<and> registry_ok s' \<and> rooms_wf (roomSvc s') \<and> \<not> RoomExists r (roomSvc s')
    \<and> (\<forall>r' u. memb r' u s' = (if r' = r then None else memb r' u s)) \<and> sessionSvc s' = sessionSvc s
    \<and> (\<forall>g. gw_conn g s' = (if g \<in> set (GetRoomGatewayIDs ord r (roomSvc s))
         then map_option (\<lambda>y. conn_send y (envelope InternalMsgRoomClose
           (Encode c (WRoomCloseNotify \<lparr>rn_RoomID = r, rn_Reason = x\<rparr>)))) (gw_conn g s)
         else gw_conn g s))"
proof -
  let ?gs = "GetRoomGatewayIDs ord r (roomSvc s)"
  let ?pl = "Encode c (WRoomCloseNotify \<lparr>rn_RoomID = r, rn_Reason = x\<rparr>)"
  obtain room where room: "GetRoom r (roomSvc s) = Some room"
    using assms(4) by (auto simp: RoomExists_def GetRoom_def)
  have "distinct ?gs" using assms(1) by (simp add: GetRoomGatewayIDs_def split: option.split)
  then obtain s1 where s1: "go_fold (forward InternalMsgRoomClose ?pl) ?gs s = Inr s1" "registry_ok s1" "same_but_conns s s1"
    and c: "\<And>h. gw_conn h s1 = (if h \<in> set ?gs then map_option (\<lambda>y. conn_send y (envelope InternalMsgRoomClose ?pl)) (gw_conn h s) else gw_conn h s)"
    using forward_fold [OF assms(2), of ?gs InternalMsgRoomClose "\<lambda>_. ?pl"] by auto
  let ?s' = "CloseRoom_call r s1"
  have same: "roomSvc s1 = roomSvc s" "sessionSvc s1 = sessionSvc s" using s1(3) by (simp_all add: same_but_conns_def)
  have "handleRoomCloseHTTP c ord MethodPost (Some \<lparr>rq_RoomID = r, rq_Reason = x\<rparr>) s = Inr (HttpOK '''', ?s')"
    using s1(1) room by (simp add: handleRoomCloseHTTP_def CloseRoom_call_def)
  moreover have "registry_ok ?s'"
    using s1(2) by (rule iffD2 [OF registry_ok_cong, rotated -1]) (simp_all add: CloseRoom_call_def)
  moreover have "rooms_wf (roomSvc ?s')" "\<not> RoomExists r (roomSvc ?s')" "sessionSvc ?s' = sessionSvc s"
    using assms(3) same by (simp_all add: CloseRoom_call_def rooms_wf_ops room_simps)
  moreover have "memb r' u ?s' = (if r' = r then None else memb r' u s)" for r' u
    by (simp add: server_simps same)
  moreover have "gw_conn g ?s' = gw_conn g s1" for g
    by (simp add: gw_conn_def CloseRoom_call_def split: option.split)
  ultimately show ?thesis using c by (intro exI [of _ ?s']) simp
qed

theorem room_close_notifies_and_removes_witness:
  "\<exists>s'. handleRoomCloseHTTP sample_codec sorted_list_of_fset MethodPost (Some \<lparr>rq_RoomID = ''r'', rq_Reason = ''ended''\<rparr>) ready_stream
      = Inr (HttpOK '''', s')
    \<and> \<not> RoomExists ''r'' (roomSvc s') \<and> memb ''r'' ''u'' s' = None"
proof -
  from room_close_notifies_and_removes [OF go_range_sorted ready_stream_ok(1) server_wfD(1) [OF ready_stream_ok(2)]
      ready_stream_ok(4), of sample_codec "''ended''"]
  show ?thesis by auto
qed

end
