(* ===== verification/Frame.thy ===== *)
theory Frame
  imports Protocol
begin

text \<open>
  The WebSocket frame format of \<open>internal/protocol/frame.go\<close>: a 16-byte header (type, sequence
  number, payload length, big-endian) and the payload. \<open>EncodeFrame\<close>, \<open>DecodeFrame\<close>,
  \<open>ReadFrame\<close> and \<open>WriteFrame\<close> are modelled with their error values, as is the batching helper
  \<open>packMessages\<close> of \<open>internal/gateway/connection.go\<close> and the decoder of the test client, which
  has no size limit. A \<open>frame_reader\<close> is the contract between an encoder and a reader that
  leaves the rest of its input unread.
\<close>

section \<open>Definitions\<close>

definition HeaderSize :: nat where "HeaderSize = 16"
definition MaxPayloadLen :: uint32 where "MaxPayloadLen = 0x100000"

datatype frame_error = ErrPayloadTooLarge | ErrInvalidFrame | EOF | ErrUnexpectedEOF

record Frame =
  MsgType :: uint32
  Seq :: uint64
  Payload :: bytes

definition EncodeFrame :: "Frame \<Rightarrow> bytes" where
  "EncodeFrame f =
     PutUint32 (MsgType f) @ PutUint64 (Seq f) @ PutUint32 (of_nat (length (Payload f))) @ Payload f"

definition DecodeFrame :: "bytes \<Rightarrow> frame_error + Frame" where
  "DecodeFrame data =
     (if length data < HeaderSize then Inl ErrInvalidFrame
      else
        let msgType = Uint32 (take 4 data);
            sq = Uint64 (take 8 (drop 4 data));
            payloadLen = Uint32 (take 4 (drop 12 data))
        in if payloadLen > MaxPayloadLen then Inl ErrPayloadTooLarge
           else
             let expectedLen = HeaderSize + unat payloadLen
             in if length data < expectedLen then Inl ErrInvalidFrame
                else Inr \<lparr>MsgType = msgType, Seq = sq,
                          Payload = (if payloadLen > 0 then take (unat payloadLen) (drop HeaderSize data)
                                     else [])\<rparr>)"

text \<open>
  An \<open>io.Reader\<close> is the input that is still to come. \<open>io.ReadFull\<close> takes \<open>n\<close> bytes, or fails
  with \<open>EOF\<close> on an exhausted reader and with \<open>ErrUnexpectedEOF\<close> after a short read.
\<close>

definition ReadFull :: "nat \<Rightarrow> bytes \<Rightarrow> (frame_error + bytes) \<times> bytes" where
  "ReadFull n r =
     (if n \<le> length r then (Inr (take n r), drop n r)
      else (Inl (if r = [] then EOF else ErrUnexpectedEOF), []))"

definition ReadFrame :: "bytes \<Rightarrow> (frame_error + Frame) \<times> bytes" where
  "ReadFrame r =
     (case ReadFull HeaderSize r of
        (Inl e, r1) \<Rightarrow> (Inl e, r1)
      | (Inr header, r1) \<Rightarrow>
          let msgType = Uint32 (take 4 header);
              sq = Uint64 (take 8 (drop 4 header));
              payloadLen = Uint32 (take 4 (drop 12 header))
          in if payloadLen > MaxPayloadLen then (Inl ErrPayloadTooLarge, r1)
             else if payloadLen > 0 then
               (case ReadFull (unat payloadLen) r1 of
                  (Inl e, r2) \<Rightarrow> (Inl e, r2)
                | (Inr payload, r2) \<Rightarrow> (Inr \<lparr>MsgType = msgType, Seq = sq, Payload = payload\<rparr>, r2))
             else (Inr \<lparr>MsgType = msgType, Seq = sq, Payload = []\<rparr>, r1))"

text \<open>A writer is the bytes written so far; this one never fails.\<close>

definition WriteFrame :: "Frame \<Rightarrow> bytes \<Rightarrow> bytes" where
  "WriteFrame f w = w @ EncodeFrame f"

text \<open>\<open>packMessages\<close> of the gateway's connection: a batch of encoded messages in one buffer.\<close>

fun packMessages_loop :: "bytes list \<Rightarrow> bytes \<Rightarrow> bytes" where
  "packMessages_loop [] result = result"
| "packMessages_loop (m # messages) result = packMessages_loop messages (result @ m)"

definition packMessages :: "bytes list \<Rightarrow> bytes" where
  "packMessages messages = packMessages_loop messages []"

text \<open>
  The test client's own decoder (\<open>cmd/testclient/main.go\<close>): the same format, no payload limit,
  errors as texts.
\<close>

datatype client_error = FrameTooShort | IncompleteFrame

definition client_decodeFrame :: "bytes \<Rightarrow> client_error + Frame" where
  "client_decodeFrame data =
     (if length data < HeaderSize then Inl FrameTooShort
      else
        let msgType = Uint32 (take 4 data);
            sq = Uint64 (take 8 (drop 4 data));
            payloadLen = Uint32 (take 4 (drop 12 data));
            expectedLen = HeaderSize + unat payloadLen
        in if length data < expectedLen then Inl IncompleteFrame
           else Inr \<lparr>MsgType = msgType, Seq = sq,
                     Payload = (if payloadLen > 0 then take (unat payloadLen) (drop HeaderSize data)
                                else [])\<rparr>)"

definition client_encodeFrame :: "Frame \<Rightarrow> bytes" where
  "client_encodeFrame f =
     PutUint32 (MsgType f) @ PutUint64 (Seq f) @ PutUint32 (of_nat (length (Payload f))) @ Payload f"

text \<open>Frames an encoder may be given: the payload fits the limit the decoders enforce.\<close>

definition frame_ok :: "Frame \<Rightarrow> bool" where
  "frame_ok f \<longleftrightarrow> length (Payload f) \<le> unat MaxPayloadLen"

text \<open>Reading a given number of frames from a stream.\<close>

fun read_many :: "(bytes \<Rightarrow> ('e + 'f) \<times> bytes) \<Rightarrow> nat \<Rightarrow> bytes \<Rightarrow> 'f list \<times> bytes" where
  "read_many rd 0 r = ([], r)"
| "read_many rd (Suc n) r =
     (case rd r of
        (Inl e, r1) \<Rightarrow> ([], r1)
      | (Inr f, r1) \<Rightarrow> (case read_many rd n r1 of (fs, r2) \<Rightarrow> (f # fs, r2)))"

section \<open>The contract of an encoder and a stream reader\<close>

locale frame_reader =
  fixes enc :: "'f \<Rightarrow> bytes"
    and rd :: "bytes \<Rightarrow> ('e + 'f) \<times> bytes"
    and valid :: "'f \<Rightarrow> bool"
  assumes rd_enc: "valid f \<Longrightarrow> rd (enc f @ rest) = (Inr f, rest)"
begin

lemma read_many_concat:
  "list_all valid fs \<Longrightarrow> read_many rd (length fs) (concat (map enc fs) @ rest) = (fs, rest)"
  by (induction fs) (simp_all add: rd_enc)

lemma enc_injective: "valid f \<Longrightarrow> valid g \<Longrightarrow> enc f = enc g \<Longrightarrow> f = g"
  by (metis append_Nil2 prod.inject rd_enc sum.inject(2))

text \<open>No encoding is a proper prefix of another, so a stream splits in one way.\<close>

lemma enc_prefix_free: "valid f \<Longrightarrow> valid g \<Longrightarrow> enc f @ r = enc g @ s \<Longrightarrow> f = g \<and> r = s"
  by (metis prod.inject rd_enc sum.inject(2))

end

section \<open>Lemmas\<close>

lemma unat_MaxPayloadLen [simp]: "unat MaxPayloadLen = 1048576"
  by (simp add: MaxPayloadLen_def)

lemma frame_ok_len:
  assumes "frame_ok f"
  shows "unat (of_nat (length (Payload f)) :: uint32) = length (Payload f)"
    and "\<not> MaxPayloadLen < of_nat (length (Payload f))"
proof -
  have "length (Payload f) < 2 ^ 32" using assms by (simp add: frame_ok_def)
  then show *: "unat (of_nat (length (Payload f)) :: uint32) = length (Payload f)"
    by (simp add: unat_of_nat take_bit_nat_eq_self)
  show "\<not> MaxPayloadLen < of_nat (length (Payload f))"
    using assms by (simp add: word_less_nat_alt * frame_ok_def)
qed

lemma length_EncodeFrame [simp]: "length (EncodeFrame f) = HeaderSize + length (Payload f)"
  by (simp add: EncodeFrame_def HeaderSize_def)

text \<open>The header fields sit where the decoders look for them.\<close>

lemma EncodeFrame_fields [wire_simps]:
  "take 4 (EncodeFrame f @ r) = PutUint32 (MsgType f)"
  "take 8 (drop 4 (EncodeFrame f @ r)) = PutUint64 (Seq f)"
  "take 4 (drop 12 (EncodeFrame f @ r)) = PutUint32 (of_nat (length (Payload f)))"
  "take 16 (EncodeFrame f @ r) =
     PutUint32 (MsgType f) @ PutUint64 (Seq f) @ PutUint32 (of_nat (length (Payload f)))"
  "drop 16 (EncodeFrame f @ r) = Payload f @ r"
  by (simp_all add: EncodeFrame_def)

lemma EncodeFrame_fields' [wire_simps]:
  "take 4 (EncodeFrame f) = PutUint32 (MsgType f)"
  "take 8 (drop 4 (EncodeFrame f)) = PutUint64 (Seq f)"
  "take 4 (drop 12 (EncodeFrame f)) = PutUint32 (of_nat (length (Payload f)))"
  "take 16 (EncodeFrame f) =
     PutUint32 (MsgType f) @ PutUint64 (Seq f) @ PutUint32 (of_nat (length (Payload f)))"
  "drop 16 (EncodeFrame f) = Payload f"
  by (simp_all add: EncodeFrame_def)

lemma payload_positive: "frame_ok f \<Longrightarrow> (0 < (of_nat (length (Payload f)) :: uint32)) = (Payload f \<noteq> [])"
  by (simp add: word_less_nat_alt frame_ok_len)

lemma packMessages_loop_eq: "packMessages_loop ms r = r @ concat ms"
  by (induction ms arbitrary: r) simp_all

lemma packMessages_concat [wire_simps]: "packMessages ms = concat ms"
  by (simp add: packMessages_def packMessages_loop_eq)

lemma client_encodeFrame_eq [wire_simps]: "client_encodeFrame = EncodeFrame"
  by (simp add: fun_eq_iff client_encodeFrame_def EncodeFrame_def)

lemma DecodeFrame_EncodeFrame_append:
  "frame_ok f \<Longrightarrow> DecodeFrame (EncodeFrame f @ rest) = Inr f"
  by (simp add: DecodeFrame_def wire_simps frame_ok_len payload_positive Let_def HeaderSize_def)

lemma ReadFrame_EncodeFrame:
  "frame_ok f \<Longrightarrow> ReadFrame (EncodeFrame f @ rest) = (Inr f, rest)"
  by (simp add: ReadFrame_def ReadFull_def wire_simps frame_ok_len payload_positive Let_def
      HeaderSize_def)

interpretation fr: frame_reader EncodeFrame ReadFrame frame_ok
  by unfold_locales (rule ReadFrame_EncodeFrame)

text \<open>\<open>DecodeFrame\<close> reads a prefix of a message and tells nothing of what follows it.\<close>

definition decode_stream :: "bytes \<Rightarrow> (frame_error + Frame) \<times> bytes" where
  "decode_stream data =
     (case DecodeFrame data of
        Inl e \<Rightarrow> (Inl e, data)
      | Inr f \<Rightarrow> (Inr f, drop (HeaderSize + length (Payload f)) data))"

interpretation ds: frame_reader EncodeFrame decode_stream frame_ok
  by unfold_locales (simp add: decode_stream_def DecodeFrame_EncodeFrame_append)

text \<open>What a successful decode says about the bytes.\<close>

lemma header_split:
  "take 16 data = take 4 data @ take 8 (drop 4 data) @ take 4 (drop 12 data)"
  using take_add [of 4 12 data] take_add [of 8 4 "drop 4 data"] by simp

lemma DecodeFrame_InrD:
  assumes "DecodeFrame data = Inr f"
  shows "HeaderSize + length (Payload f) \<le> length data"
    and "frame_ok f"
    and "take (HeaderSize + length (Payload f)) data = EncodeFrame f"
proof -
  define pl where "pl = Uint32 (take 4 (drop 12 data))"
  from assms have len: "16 + unat pl \<le> length data" and max: "unat pl \<le> 1048576"
    and f: "f = \<lparr>MsgType = Uint32 (take 4 data), Seq = Uint64 (take 8 (drop 4 data)),
      Payload = take (unat pl) (drop 16 data)\<rparr>"
    by (auto simp: DecodeFrame_def Let_def pl_def HeaderSize_def word_less_nat_alt not_less
        split: if_splits)
  have lp: "length (Payload f) = unat pl" using len by (simp add: f)
  show "HeaderSize + length (Payload f) \<le> length data" using len by (simp add: lp HeaderSize_def)
  show "frame_ok f" using max by (simp add: frame_ok_def lp)
  have "take (16 + unat pl) data =
      take 4 data @ take 8 (drop 4 data) @ take 4 (drop 12 data) @ take (unat pl) (drop 16 data)"
    by (simp add: take_add header_split)
  also have "\<dots> = EncodeFrame f"
    using len by (simp add: EncodeFrame_def lp f PutUint32_Uint32 PutUint64_Uint64)
      (simp add: pl_def PutUint32_Uint32)
  finally show "take (HeaderSize + length (Payload f)) data = EncodeFrame f"
    by (simp add: lp HeaderSize_def)
qed

lemma DecodeFrame_iff:
  "DecodeFrame data = Inr f \<longleftrightarrow> frame_ok f \<and> (\<exists>rest. data = EncodeFrame f @ rest)"
  using DecodeFrame_InrD [of data f] DecodeFrame_EncodeFrame_append [of f]
  by (metis append_take_drop_id)

lemma client_decodeFrame_append:
  assumes "length (Payload f) < 2 ^ 32"
  shows "client_decodeFrame (EncodeFrame f @ rest) = Inr f"
proof -
  have len: "unat (of_nat (length (Payload f)) :: uint32) = length (Payload f)"
    using assms by (simp add: unat_of_nat take_bit_nat_eq_self)
  show ?thesis
    by (simp add: client_decodeFrame_def wire_simps len Let_def HeaderSize_def word_less_nat_alt)
qed

section \<open>Properties\<close>

text \<open>C13. Every frame whose payload is at most one megabyte survives encoding: \<open>DecodeFrame\<close> of the
  bytes of \<open>EncodeFrame\<close>, with or without further bytes behind them, \<open>ReadFrame\<close> on a stream
  that starts with them, and the test client's own decoder all give the frame back, and
  \<open>ReadFrame\<close> leaves exactly the rest of the stream.\<close>

theorem frame_roundtrip:
  assumes "frame_ok f"
  shows "DecodeFrame (EncodeFrame f @ rest) = Inr f
    \<and> ReadFrame (WriteFrame f [] @ rest) = (Inr f, rest)
    \<and> client_decodeFrame (EncodeFrame f @ rest) = Inr f
    \<and> DecodeFrame (client_encodeFrame f) = Inr f"
proof -
  have "length (Payload f) < 2 ^ 32" using assms by (simp add: frame_ok_def)
  then show ?thesis
    using assms DecodeFrame_EncodeFrame_append [of f "[]"]
    by (simp add: DecodeFrame_EncodeFrame_append ReadFrame_EncodeFrame client_decodeFrame_append
        client_encodeFrame_eq WriteFrame_def)
qed

theorem frame_roundtrip_witness:
  "DecodeFrame (EncodeFrame \<lparr>MsgType = 2, Seq = 7, Payload = [1, 2, 3]\<rparr> @ [9]) =
     Inr \<lparr>MsgType = 2, Seq = 7, Payload = [1, 2, 3]\<rparr>"
  using frame_roundtrip [of "\<lparr>MsgType = 2, Seq = 7, Payload = [1, 2, 3]\<rparr>" "[9]"]
  by (simp add: frame_ok_def)

text \<open>\<open>DecodeFrame\<close> accepts a message exactly when it starts with the encoding of a frame within the
  payload limit, and it then returns that frame: the decoder is the inverse of the encoder, no
  two frames share an encoding, and nothing else is accepted.\<close>

lemma decode_characterised:
  "DecodeFrame data = Inr f \<longleftrightarrow> frame_ok f \<and> (\<exists>rest. data = EncodeFrame f @ rest)"
  by (rule DecodeFrame_iff)

text \<open>C18. A batch written by the gateway's \<open>packMessages\<close> is a stream of frames: reading it frame by frame
  with \<open>ReadFrame\<close> gives the batch back in order and consumes exactly its bytes.\<close>

theorem packed_batch_reads_back:
  assumes "list_all frame_ok fs"
  shows "read_many ReadFrame (length fs) (packMessages (map EncodeFrame fs) @ rest) = (fs, rest)"
  using fr.read_many_concat [OF assms] by (simp add: packMessages_concat)

theorem packed_batch_reads_back_witness:
  "read_many ReadFrame 2 (packMessages (map EncodeFrame
      [\<lparr>MsgType = 1, Seq = 0, Payload = []\<rparr>, \<lparr>MsgType = 2, Seq = 5, Payload = [8]\<rparr>]) @ []) =
    ([\<lparr>MsgType = 1, Seq = 0, Payload = []\<rparr>, \<lparr>MsgType = 2, Seq = 5, Payload = [8]\<rparr>], [])"
  using packed_batch_reads_back
    [of "[\<lparr>MsgType = 1, Seq = 0, Payload = []\<rparr>, \<lparr>MsgType = 2, Seq = 5, Payload = [8]\<rparr>]" "[]"]
  by (simp add: frame_ok_def numeral_2_eq_2)

text \<open>A batch is sent as one WebSocket message, and the decoders that take one message at a time see
  only its first frame: for a batch of any length, \<open>DecodeFrame\<close> and the test client's
  \<open>decodeFrame\<close> return the first frame and report no error, so every later frame of the batch is
  lost on a client that decodes message by message.\<close>

lemma batch_decodes_to_first_frame:
  assumes "list_all frame_ok (f # fs)"
  shows "DecodeFrame (packMessages (map EncodeFrame (f # fs))) = Inr f
    \<and> client_decodeFrame (packMessages (map EncodeFrame (f # fs))) = Inr f"
proof -
  have "length (Payload f) < 2 ^ 32" using assms by (simp add: frame_ok_def)
  then show ?thesis
    using assms
    by (simp add: packMessages_concat DecodeFrame_EncodeFrame_append client_decodeFrame_append)
qed

lemma batch_decodes_to_first_frame_example:
  "client_decodeFrame (packMessages (map EncodeFrame
      [\<lparr>MsgType = 1, Seq = 0, Payload = [4]\<rparr>, \<lparr>MsgType = 2, Seq = 5, Payload = [8]\<rparr>])) =
    Inr \<lparr>MsgType = 1, Seq = 0, Payload = [4]\<rparr>"
  using batch_decodes_to_first_frame
    [of "\<lparr>MsgType = 1, Seq = 0, Payload = [4]\<rparr>" "[\<lparr>MsgType = 2, Seq = 5, Payload = [8]\<rparr>]"]
  by (simp add: frame_ok_def)

text \<open>A frame that arrives cut short is refused: any strict prefix of an encoding is an invalid frame
  to \<open>DecodeFrame\<close>, and on a stream \<open>ReadFrame\<close> reports \<open>EOF\<close> only when the cut falls before the
  header or exactly behind it, and \<open>ErrUnexpectedEOF\<close> at every other place.\<close>

lemma truncated_frame_refused:
  assumes "frame_ok f" and "n < length (EncodeFrame f)"
  shows "DecodeFrame (take n (EncodeFrame f)) = Inl ErrInvalidFrame
    \<and> ReadFrame (take n (EncodeFrame f)) =
        (Inl (if n = 0 \<or> n = HeaderSize then EOF else ErrUnexpectedEOF), [])"
proof (cases "n < 16")
  case True
  then have "length (take n (EncodeFrame f)) = n" and "take n (EncodeFrame f) = [] \<longleftrightarrow> n = 0"
    by (auto simp: HeaderSize_def EncodeFrame_def PutUint32_def)
  with True show ?thesis
    by (simp add: DecodeFrame_def ReadFrame_def ReadFull_def HeaderSize_def)
next
  case False
  define k where "k = n - 16"
  from False have n: "n = 16 + k" by (simp add: k_def)
  with assms have k: "k < length (Payload f)" by (simp add: HeaderSize_def)
  define h where "h = PutUint32 (MsgType f) @ PutUint64 (Seq f) @ PutUint32 (of_nat (length (Payload f)))"
  have t: "take n (EncodeFrame f) = h @ take k (Payload f)" and lh: "length h = 16"
    by (simp_all add: n h_def EncodeFrame_def)
  have hf: "take 4 (drop 12 h) = PutUint32 (of_nat (length (Payload f)))"
    by (simp add: h_def)
  have pos: "(0 :: uint32) < of_nat (length (Payload f))" using assms(1) k by (auto simp: payload_positive)
  have "DecodeFrame (h @ take k (Payload f)) = Inl ErrInvalidFrame"
    using assms(1) k lh by (simp add: DecodeFrame_def HeaderSize_def Let_def hf frame_ok_len)
  moreover have "ReadFrame (h @ take k (Payload f)) =
      (Inl (if k = 0 then EOF else ErrUnexpectedEOF), [])"
    using assms(1) k lh pos hf
    by (auto simp: ReadFrame_def ReadFull_def HeaderSize_def Let_def frame_ok_len)
  ultimately show ?thesis unfolding t by (simp add: n HeaderSize_def)
qed

lemma truncated_frame_refused_example:
  "ReadFrame (take 17 (EncodeFrame \<lparr>MsgType = 2, Seq = 7, Payload = [1, 2, 3]\<rparr>)) =
     (Inl ErrUnexpectedEOF, [])"
  using truncated_frame_refused [of "\<lparr>MsgType = 2, Seq = 7, Payload = [1, 2, 3]\<rparr>" 17]
  by (simp add: frame_ok_def HeaderSize_def)

end
