(* ===== verification/Connection.thy ===== *)
theory Connection
  imports Frame Complex_Main
begin

text \<open>
  A client connection of the gateway (\<open>internal/gateway/connection.go\<close>): the bounded send queue
  with its health counters, and the write loop that batches queued messages into WebSocket
  messages. The WebSocket library is not part of the repository: the outcome of each write is an
  argument. Closing a connection involves the server and is modelled with it.
\<close>

section \<open>State\<close>

record ConnHealth =
  QueueFullSince :: instant
  DropCount :: int
  ConsecutiveDrops :: int
  WriteTimeoutCount :: int
  ConsecutiveWriteTimeouts :: int
  LastWriteTime :: instant

definition new_health :: ConnHealth where
  "new_health = \<lparr>QueueFullSince = zero_time, DropCount = 0, ConsecutiveDrops = 0,
     WriteTimeoutCount = 0, ConsecutiveWriteTimeouts = 0, LastWriteTime = zero_time\<rparr>"

text \<open>
  \<open>closed\<close> records that \<open>closeOnce\<close> has run, which closes \<open>closeCh\<close>; \<open>sendCh\<close> is never closed.
  \<open>cn_distributor\<close> is the index of the distributor the connection was assigned to.
\<close>

record Connection =
  cn_UserID :: user_id
  cn_ConnID :: string
  sendCh :: "bytes chan"
  cn_JoinState :: JoinState
  cn_RoomID :: room_id
  health :: ConnHealth
  cn_distributor :: "nat option"
  closed :: bool

definition NewConnection :: "user_id \<Rightarrow> string \<Rightarrow> nat \<Rightarrow> Connection" where
  "NewConnection userID connID sendChSize =
     \<lparr>cn_UserID = userID, cn_ConnID = connID, sendCh = make_chan sendChSize,
      cn_JoinState = JoinStateInit, cn_RoomID = '''', health = new_health, cn_distributor = None,
      closed = False\<rparr>"

section \<open>Sending\<close>

definition Send :: "bytes \<Rightarrow> instant \<Rightarrow> Connection \<Rightarrow> bool \<times> Connection" where
  "Send data now c =
     (if length (buf (sendCh c)) < cap (sendCh c)
      then (True, c\<lparr>sendCh := (sendCh c)\<lparr>buf := buf (sendCh c) @ [data]\<rparr>,
                    health := (health c)\<lparr>ConsecutiveDrops := 0, QueueFullSince := zero_time\<rparr>\<rparr>)
      else (False, c\<lparr>health := (health c)\<lparr>DropCount := DropCount (health c) + 1,
                      ConsecutiveDrops := ConsecutiveDrops (health c) + 1,
                      QueueFullSince := (if QueueFullSince (health c) = zero_time then now
                                         else QueueFullSince (health c))\<rparr>\<rparr>))"

text \<open>
  \<open>QueueUsage\<close> divides two \<open>float64\<close>. It is compared with thresholds only, and for queue sizes
  below \<open>2^48\<close> the rounded quotient compares with a threshold of two decimals as the exact one
  does. For an unbuffered queue the code computes \<open>NaN\<close>, which is below no threshold; the exact
  quotient is 0 here, which reaches no positive threshold either.
\<close>

definition QueueUsage :: "Connection \<Rightarrow> rat" where
  "QueueUsage c = of_nat (length (buf (sendCh c))) / of_nat (cap (sendCh c))"

section \<open>The write loop\<close>

text \<open>The outcome of one \<open>WriteMessage\<close>; \<open>isTimeout\<close> tells the two errors apart.\<close>

datatype write_result = WriteOK | WriteTimedOut | WriteFailed

fun isTimeout :: "write_result \<Rightarrow> bool" where
  "isTimeout WriteTimedOut = True"
| "isTimeout _ = False"

text \<open>
  A flush yields the bytes handed to the WebSocket, if any, and either goes on or asks for the
  connection to be closed with a reason.
\<close>

datatype flush_result = FlushGoOn | FlushClose string

definition flushBatch :: "bytes list \<Rightarrow> bytes list" where
  "flushBatch batch = (if length batch = 0 then [] else [packMessages batch])"

definition flushBatchWithTimeout ::
  "int \<Rightarrow> bytes list \<Rightarrow> write_result \<Rightarrow> instant \<Rightarrow> ConnHealth \<Rightarrow> flush_result \<times> ConnHealth \<times> bytes list" where
  "flushBatchWithTimeout maxTimeouts batch res now h =
     (if length batch = 0 then (FlushGoOn, h, [])
      else
        let packed = packMessages batch in
        if res \<noteq> WriteOK then
          if isTimeout res then
            let h1 = h\<lparr>WriteTimeoutCount := WriteTimeoutCount h + 1,
                       ConsecutiveWriteTimeouts := ConsecutiveWriteTimeouts h + 1\<rparr>
            in if ConsecutiveWriteTimeouts h1 \<ge> maxTimeouts
               then (FlushClose ''write_timeout_exceeded'', h1, [packed])
               else (FlushGoOn, h1, [packed])
          else (FlushClose ''write_error'', h, [packed])
        else (FlushGoOn, h\<lparr>ConsecutiveWriteTimeouts := 0, LastWriteTime := now\<rparr>, [packed]))"

text \<open>
  The loop holds the batch, the connection and the messages written so far with their outcome.
  Each round waits for one of three events; a round that flushes consumes one write outcome.
\<close>

datatype write_event = EvMessage | EvTick | EvClosed

record writer =
  w_conn :: Connection
  w_batch :: "bytes list"
  w_out :: "(bytes \<times> write_result) list"
  w_stop :: "string option"
  w_running :: bool

definition flush_round :: "int \<Rightarrow> write_result \<Rightarrow> instant \<Rightarrow> writer \<Rightarrow> writer" where
  "flush_round maxTimeouts res now w =
     (case flushBatchWithTimeout maxTimeouts (w_batch w) res now (health (w_conn w)) of
        (FlushClose reason, h, out) \<Rightarrow>
          w\<lparr>w_conn := (w_conn w)\<lparr>health := h\<rparr>, w_out := w_out w @ map (\<lambda>b. (b, res)) out,
            w_batch := [], w_stop := Some reason, w_running := False\<rparr>
      | (FlushGoOn, h, out) \<Rightarrow>
          w\<lparr>w_conn := (w_conn w)\<lparr>health := h\<rparr>, w_out := w_out w @ map (\<lambda>b. (b, res)) out,
            w_batch := []\<rparr>)"

definition writeLoop_round :: "nat \<Rightarrow> int \<Rightarrow> write_event \<times> write_result \<times> instant \<Rightarrow> writer \<Rightarrow> writer" where
  "writeLoop_round batchMax maxTimeouts ev w =
     (if \<not> w_running w then w
      else (case ev of
          (EvClosed, res, now) \<Rightarrow>
            w\<lparr>w_out := w_out w @ map (\<lambda>b. (b, res)) (flushBatch (w_batch w)), w_batch := [], w_running := False\<rparr>
        | (EvMessage, res, now) \<Rightarrow>
            (case buf (sendCh (w_conn w)) of
               [] \<Rightarrow> w
             | msg # rest \<Rightarrow>
                 let w1 = w\<lparr>w_conn := (w_conn w)\<lparr>sendCh := (sendCh (w_conn w))\<lparr>buf := rest\<rparr>\<rparr>,
                            w_batch := w_batch w @ [msg]\<rparr>
                 in if length (w_batch w1) \<ge> batchMax then flush_round maxTimeouts res now w1 else w1)
        | (EvTick, res, now) \<Rightarrow>
            if length (w_batch w) > 0 then flush_round maxTimeouts res now w else w))"

definition writeLoop :: "nat \<Rightarrow> int \<Rightarrow> (write_event \<times> write_result \<times> instant) list \<Rightarrow> writer \<Rightarrow> writer" where
  "writeLoop batchMax maxTimeouts evs w = fold (writeLoop_round batchMax maxTimeouts) evs w"

definition start_writer :: "Connection \<Rightarrow> writer" where
  "start_writer c = \<lparr>w_conn = c, w_batch = [], w_out = [], w_stop = None, w_running = True\<rparr>"

definition msgTypeName :: "uint32 \<Rightarrow> string" where
  "msgTypeName t =
     (if t = MsgTypeAuth then ''auth'' else if t = MsgTypeJoinRoom then ''join_room''
      else if t = MsgTypeLeaveRoom then ''leave_room'' else if t = MsgTypeResume then ''resume''
      else if t = MsgTypeHeartbeat then ''heartbeat'' else if t = MsgTypeBizRequest then ''biz_request''
      else ''unknown'')"

section \<open>The send queue\<close>

definition conn_buf :: "Connection \<Rightarrow> bytes list" where
  "conn_buf c = buf (sendCh c)"

definition conn_cap :: "Connection \<Rightarrow> nat" where
  "conn_cap c = cap (sendCh c)"

interpretation cq: bounded_queue conn_buf conn_cap "\<lambda>c data. snd (Send data now c)" for now
  by unfold_locales (auto simp: conn_buf_def conn_cap_def Send_def)

lemma Send_frame [simp]:
  "cn_UserID (snd (Send d now c)) = cn_UserID c" "cn_ConnID (snd (Send d now c)) = cn_ConnID c"
  "cn_JoinState (snd (Send d now c)) = cn_JoinState c" "cn_RoomID (snd (Send d now c)) = cn_RoomID c"
  "cn_distributor (snd (Send d now c)) = cn_distributor c" "closed (snd (Send d now c)) = closed c"
  "cap (sendCh (snd (Send d now c))) = cap (sendCh c)"
  by (simp_all add: Send_def)

lemma Send_result: "fst (Send d now c) \<longleftrightarrow> length (conn_buf c) < conn_cap c"
  by (simp add: Send_def conn_buf_def conn_cap_def)

section \<open>The write loop keeps the order\<close>

text \<open>
  The groups written so far: every WebSocket message is the concatenation of a group of queued
  messages, and the groups, the pending batch and the queue together are the original queue.
\<close>

definition writer_inv :: "nat \<Rightarrow> bytes list \<Rightarrow> bytes list list \<Rightarrow> writer \<Rightarrow> bool" where
  "writer_inv batchMax q0 groups w \<longleftrightarrow>
     map fst (w_out w) = map packMessages groups \<and>
     concat groups @ w_batch w @ conn_buf (w_conn w) = q0 \<and>
     (\<forall>g \<in> set groups. 0 < length g \<and> length g \<le> max 1 batchMax) \<and>
     length (w_batch w) < max 1 batchMax \<and>
     (\<not> w_running w \<longrightarrow> w_batch w = [])"

lemma flush_round_effect:
  "w_batch (flush_round m res now w) = []"
  "conn_buf (w_conn (flush_round m res now w)) = conn_buf (w_conn w)"
  "map fst (w_out (flush_round m res now w)) =
     map fst (w_out w) @ (if w_batch w = [] then [] else [packMessages (w_batch w)])"
  by (auto simp: flush_round_def flushBatchWithTimeout_def conn_buf_def Let_def comp_def
      split: flush_result.split)

lemma writer_inv_round:
  assumes "writer_inv bm q0 groups w"
  shows "\<exists>groups'. writer_inv bm q0 groups' (writeLoop_round bm m ev w)"
proof -
  obtain e res now where ev: "ev = (e, res, now)" by (cases ev)
  have flush: "writer_inv bm q0 (groups @ [w_batch v]) (flush_round m res now v)"
    if "map fst (w_out v) = map packMessages groups" "concat groups @ w_batch v @ conn_buf (w_conn v) = q0"
      "0 < length (w_batch v)" "length (w_batch v) \<le> max 1 bm" for v
    using that assms by (auto simp: writer_inv_def flush_round_effect)
  consider "\<not> w_running w" | "w_running w" "e = EvClosed" | "w_running w" "e = EvTick"
    | "w_running w" "e = EvMessage"
    by (cases e) auto
  then show ?thesis
  proof cases
    case 1
    then show ?thesis using assms by (auto simp: writeLoop_round_def)
  next
    case 2
    then show ?thesis
      using assms
      by (intro exI [of _ "if w_batch w = [] then groups else groups @ [w_batch w]"])
         (auto simp: writeLoop_round_def ev writer_inv_def flushBatch_def)
  next
    case 3
    show ?thesis
    proof (cases "w_batch w = []")
      case True
      with 3 assms show ?thesis by (auto simp: writeLoop_round_def ev)
    next
      case False
      with 3 have "writeLoop_round bm m ev w = flush_round m res now w" by (simp add: writeLoop_round_def ev)
      moreover have "writer_inv bm q0 (groups @ [w_batch w]) (flush_round m res now w)"
        using assms False by (intro flush) (simp_all add: writer_inv_def)
      ultimately show ?thesis by auto
    qed
  next
    case 4
    show ?thesis
    proof (cases "buf (sendCh (w_conn w))")
      case Nil
      then show ?thesis using 4 assms by (auto simp: writeLoop_round_def ev)
    next
      case (Cons msg rest)
      let ?w1 = "w\<lparr>w_conn := (w_conn w)\<lparr>sendCh := (sendCh (w_conn w))\<lparr>buf := rest\<rparr>\<rparr>, w_batch := w_batch w @ [msg]\<rparr>"
      have round: "writeLoop_round bm m ev w = (if length (w_batch ?w1) \<ge> bm then flush_round m res now ?w1 else ?w1)"
        using 4 Cons by (simp add: writeLoop_round_def ev)
      have q: "concat groups @ w_batch ?w1 @ conn_buf (w_conn ?w1) = q0"
        using assms Cons by (simp add: writer_inv_def conn_buf_def)
      show ?thesis
      proof (cases "length (w_batch ?w1) \<ge> bm")
        case True
        have "writer_inv bm q0 (groups @ [w_batch ?w1]) (flush_round m res now ?w1)"
          using assms by (intro flush q) (simp_all add: writer_inv_def)
        with True round show ?thesis by auto
      next
        case False
        then show ?thesis
          using round q assms 4 by (auto simp: writer_inv_def)
      qed
    qed
  qed
qed

lemma writer_inv_loop: "writer_inv bm q0 groups w \<Longrightarrow> \<exists>groups'. writer_inv bm q0 groups' (writeLoop bm m evs w)"
proof (induction evs arbitrary: groups w)
  case Nil
  then show ?case by (auto simp: writeLoop_def)
next
  case (Cons ev evs)
  obtain groups' where "writer_inv bm q0 groups' (writeLoop_round bm m ev w)"
    using writer_inv_round [OF Cons.prems] by blast
  from Cons.IH [OF this] show ?case by (simp add: writeLoop_def)
qed

lemma writer_inv_start: "writer_inv bm (conn_buf c) [] (start_writer c)"
  by (simp add: writer_inv_def start_writer_def)

lemma flush_round_ok:
  "w_running (flush_round m WriteOK now w) = w_running w" "w_stop (flush_round m WriteOK now w) = w_stop w"
  by (simp_all add: flush_round_def flushBatchWithTimeout_def Let_def)

text \<open>Rounds whose writes succeed on a connection that stays open.\<close>

definition smooth :: "write_event \<times> write_result \<times> instant \<Rightarrow> bool" where
  "smooth ev \<longleftrightarrow> fst ev \<noteq> EvClosed \<and> fst (snd ev) = WriteOK"

lemma smooth_round:
  assumes "smooth ev" and "w_running w"
  shows "w_running (writeLoop_round bm m ev w)" "w_stop (writeLoop_round bm m ev w) = w_stop w"
    "conn_buf (w_conn (writeLoop_round bm m ev w)) =
      (if fst ev = EvMessage then tl (conn_buf (w_conn w)) else conn_buf (w_conn w))"
    "fst ev = EvTick \<Longrightarrow> w_batch (writeLoop_round bm m ev w) = []"
proof -
  obtain e now where "ev = (e, WriteOK, now)" and "e \<noteq> EvClosed"
    using assms(1) by (cases ev) (auto simp: smooth_def)
  then show "w_running (writeLoop_round bm m ev w)" "w_stop (writeLoop_round bm m ev w) = w_stop w"
    "conn_buf (w_conn (writeLoop_round bm m ev w)) =
      (if fst ev = EvMessage then tl (conn_buf (w_conn w)) else conn_buf (w_conn w))"
    "fst ev = EvTick \<Longrightarrow> w_batch (writeLoop_round bm m ev w) = []"
    using assms(2)
    by (cases e; simp add: writeLoop_round_def flush_round_ok flush_round_effect Let_def split: list.split;
        simp add: conn_buf_def)+
qed

lemma smooth_loop:
  assumes "list_all smooth evs" and "w_running w"
  shows "w_running (writeLoop bm m evs w) \<and> w_stop (writeLoop bm m evs w) = w_stop w
    \<and> conn_buf (w_conn (writeLoop bm m evs w)) = drop (length (filter (\<lambda>ev. fst ev = EvMessage) evs)) (conn_buf (w_conn w))"
  using assms
proof (induction evs arbitrary: w)
  case Nil
  then show ?case by (simp add: writeLoop_def)
next
  case (Cons ev evs)
  have sm: "smooth ev" "list_all smooth evs" using Cons.prems by simp_all
  show ?case
    using Cons.IH [OF sm(2) smooth_round(1) [OF sm(1) Cons.prems(2)]] smooth_round(2,3) [OF sm(1) Cons.prems(2), of bm m]
    by (simp add: writeLoop_def drop_Suc)
qed

section \<open>Properties\<close>

text \<open>C19. The write loop hands every queued message to the WebSocket at most once and in order. Whatever the
  events and the outcomes of the writes, the messages written so far are the concatenations of
  consecutive groups of queued messages, no group is empty or larger than the batch limit, and
  the groups followed by the pending batch and the remaining queue are the original queue. A
  batch whose write timed out is not written again. When the loop has ended, no batch is pending,
  and what is still queued was never written.\<close>

theorem writeLoop_preserves_order:
  "let w = writeLoop batchMax maxTimeouts evs (start_writer c) in
    \<exists>groups. map fst (w_out w) = map packMessages groups
    \<and> concat groups @ w_batch w @ buf (sendCh (w_conn w)) = buf (sendCh c)
    \<and> list_all (\<lambda>g. 0 < length g \<and> length g \<le> max 1 batchMax) groups
    \<and> length (w_batch w) < max 1 batchMax \<and> (w_running w \<or> w_batch w = [])"
proof -
  let ?w = "writeLoop batchMax maxTimeouts evs (start_writer c)"
  obtain groups where "writer_inv batchMax (conn_buf c) groups ?w"
    using writer_inv_loop [OF writer_inv_start] by blast
  then show ?thesis
    unfolding Let_def by (intro exI [of _ groups]) (auto simp: writer_inv_def conn_buf_def list_all_iff)
qed

text \<open>C20. A smooth connection drains its queue. Once the loop has been woken at least as often as messages
  were queued and the batch ticker has fired after that, while all writes succeeded and the
  connection stayed open, every queued message has been written: nothing is pending or queued,
  the bytes written are those of the original queue in order, and the loop is still running.\<close>

theorem writeLoop_drains_queue:
  assumes "list_all smooth (evs @ [(EvTick, WriteOK, t)])"
    and "length (buf (sendCh c)) \<le> length (filter (\<lambda>ev. fst ev = EvMessage) evs)"
  shows "let w = writeLoop batchMax maxTimeouts (evs @ [(EvTick, WriteOK, t)]) (start_writer c) in
    w_running w \<and> w_stop w = None \<and> w_batch w = [] \<and> buf (sendCh (w_conn w)) = []
    \<and> concat (map fst (w_out w)) = concat (buf (sendCh c))"
proof -
  define v where "v = writeLoop batchMax maxTimeouts evs (start_writer c)"
  define w where "w = writeLoop batchMax maxTimeouts (evs @ [(EvTick, WriteOK, t)]) (start_writer c)"
  have sm: "list_all smooth evs" "smooth (EvTick, WriteOK, t)" using assms(1) by simp_all
  have w: "w = writeLoop_round batchMax maxTimeouts (EvTick, WriteOK, t) v" by (simp add: w_def v_def writeLoop_def)
  have v: "w_running v" "w_stop v = None" "conn_buf (w_conn v) = []"
    using smooth_loop [OF sm(1), of "start_writer c" batchMax maxTimeouts] assms(2)
    by (simp_all add: v_def start_writer_def conn_buf_def)
  have end_: "w_running w" "w_stop w = None" "conn_buf (w_conn w) = []" "w_batch w = []"
    using smooth_round [OF sm(2) v(1), of batchMax maxTimeouts] v by (simp_all add: w)
  obtain groups where "writer_inv batchMax (conn_buf c) groups w"
    using writer_inv_loop [OF writer_inv_start] unfolding w_def by blast
  then have "map fst (w_out w) = map packMessages groups" "concat groups = conn_buf c"
    using end_ by (simp_all add: writer_inv_def)
  moreover have "concat (map packMessages groups) = concat (concat groups)"
    by (induction groups) (simp_all add: packMessages_concat)
  ultimately have "concat (map fst (w_out w)) = concat (buf (sendCh c))" by (simp add: conn_buf_def)
  then show ?thesis unfolding Let_def w_def [symmetric] using end_ by (simp add: conn_buf_def)
qed

theorem writeLoop_drains_queue_witness:
  "concat (map fst (w_out (writeLoop 10 3 [(EvMessage, WriteOK, 1), (EvMessage, WriteOK, 2), (EvTick, WriteOK, 3)]
      (start_writer (snd (Send [2] 0 (snd (Send [1] 0 (NewConnection ''u'' ''id'' 16)))))))))  = [1, 2]"
  using writeLoop_drains_queue [of "[(EvMessage, WriteOK, 1), (EvMessage, WriteOK, 2)]" 3
      "snd (Send [2] 0 (snd (Send [1] 0 (NewConnection ''u'' ''id'' 16))))" 10 3]
  by (simp add: smooth_def Let_def Send_def NewConnection_def make_chan_def)

end
