(* ===== verification/Gateway_Server.thy ===== *)
theory Gateway_Server
  imports Connection Sample_Codec
begin

text \<open>
  The gateway server: its state and connection management (\<open>internal/gateway/server.go\<close>), the
  distributors (\<open>distributor.go\<close>), closing a connection (\<open>connection.go\<close>), the requests it sends
  to the roomserver (\<open>roomserver_client.go\<close>) and the handlers of client messages (\<open>handler.go\<close>).
  Connections are shared by pointer, so they live in a store. Two mutexes that the code locks on
  one call stack twice are part of the state: locking a mutex that the stack holds is a deadlock.
\<close>

section \<open>State\<close>

type_synonym cref = nat

datatype GatewayStatus = StatusNormal | StatusDegraded

record PendingRequest =
  pr_UserID :: user_id
  pr_RoomID :: room_id
  pr_Type :: string
  pr_Time :: instant

record ProtectionConfig =
  QueueWarningRatio :: rat
  QueueSevereRatio :: rat
  QueueCriticalRatio :: rat
  QueueFullTimeout :: duration
  MaxConsecutiveDrops :: int

record DispatchMessage =
  dm_Priority :: MessagePriority
  dm_Payload :: bytes
  dm_RoomID :: room_id
  dm_UserIDs :: "user_id list"

text \<open>\<open>d_mu\<close>: whether the goroutine that is running holds the distributor's mutex for reading.\<close>

record Distributor =
  d_id :: nat
  inputQueue :: "DispatchMessage chan"
  d_conns :: "(user_id, cref) fmap"
  d_mu :: bool
  protection :: ProtectionConfig

record RoomserverClient =
  connected :: bool
  rc_sendCh :: "Envelope chan"

record BizMessage =
  bz_UserID :: user_id
  bz_RoomID :: room_id
  bz_Payload :: bytes
  bz_Seq :: uint64

text \<open>
  \<open>kafkaProducer\<close>: nil, or a producer that is or is not connected; \<open>biz_out\<close> is what was handed to
  it. \<open>GatewayConnections\<close> is the Prometheus gauge. \<open>connsMu\<close>: whether the running goroutine holds it.
\<close>

record GatewayServer =
  GatewayID :: gateway_id
  Addr :: string
  gw_status :: GatewayStatus
  degradedSince :: instant
  connections :: "(user_id, cref) fmap"
  connsMu :: bool
  distributors :: "Distributor list"
  localRooms :: "(room_id, user_id fset) fmap"
  localUsers :: "user_id fset"
  roomserverClient :: RoomserverClient
  knownEpochs :: "(string, uint64) fmap"
  kafkaProducer :: "bool option"
  biz_out :: "BizMessage list"
  pendingLeaves :: "PendingRequest list"
  pendingDisconnects :: "PendingRequest list"
  GatewayConnections :: int
  store :: "(cref, Connection) fmap"

definition NewDistributor :: "nat \<Rightarrow> nat \<Rightarrow> ProtectionConfig \<Rightarrow> Distributor" where
  "NewDistributor i queueSize prot =
     \<lparr>d_id = i, inputQueue = make_chan queueSize, d_conns = fmempty, d_mu = False, protection = prot\<rparr>"

definition NewRoomserverClient :: RoomserverClient where
  "NewRoomserverClient = \<lparr>connected = False, rc_sendCh = make_chan 10000\<rparr>"

definition NewGateway :: "gateway_id \<Rightarrow> string \<Rightarrow> nat \<Rightarrow> nat \<Rightarrow> ProtectionConfig \<Rightarrow> bool option \<Rightarrow> GatewayServer" where
  "NewGateway i addr shardCount queueSize prot kafka =
     \<lparr>GatewayID = i, Addr = addr, gw_status = StatusNormal, degradedSince = zero_time, connections = fmempty,
      connsMu = False, distributors = map (\<lambda>k. NewDistributor k queueSize prot) [0..<shardCount],
      localRooms = fmempty, localUsers = {||}, roomserverClient = NewRoomserverClient, knownEpochs = fmempty,
      kafkaProducer = kafka, biz_out = [], pendingLeaves = [], pendingDisconnects = [],
      GatewayConnections = 0, store = fmempty\<rparr>"

section \<open>Requests to the roomserver (roomserver\_client.go)\<close>

definition send :: "uint32 \<Rightarrow> bytes \<Rightarrow> RoomserverClient \<Rightarrow> RoomserverClient" where
  "send msgType payload c =
     (if length (buf (rc_sendCh c)) < cap (rc_sendCh c)
      then c\<lparr>rc_sendCh := (rc_sendCh c)\<lparr>buf := buf (rc_sendCh c) @ [\<lparr>env_MsgType = msgType, env_Payload = payload\<rparr>]\<rparr>\<rparr>
      else c)"

definition client_send :: "uint32 \<Rightarrow> bytes \<Rightarrow> GatewayServer \<Rightarrow> GatewayServer" where
  "client_send msgType payload s = s\<lparr>roomserverClient := send msgType payload (roomserverClient s)\<rparr>"

definition sendGatewayInfo :: "codec \<Rightarrow> GatewayServer \<Rightarrow> GatewayServer" where
  "sendGatewayInfo c s = client_send InternalMsgGatewayInfo
     (Encode c (WGatewayInfo \<lparr>gi_GatewayID = GatewayID s, gi_Addr = Addr s, gi_Connections = 0\<rparr>)) s"

definition SendJoinRoom :: "codec \<Rightarrow> user_id \<Rightarrow> room_id \<Rightarrow> GatewayServer \<Rightarrow> GatewayServer" where
  "SendJoinRoom c userID roomID s = client_send InternalMsgJoinRoom
     (Encode c (WJoinRoomRequest \<lparr>jr_UserID = userID, jr_RoomID = roomID, jr_GatewayID = GatewayID s\<rparr>)) s"

definition SendLeaveRoom :: "codec \<Rightarrow> user_id \<Rightarrow> room_id \<Rightarrow> GatewayServer \<Rightarrow> GatewayServer" where
  "SendLeaveRoom c userID roomID s = client_send InternalMsgLeaveRoom
     (Encode c (WLeaveRoomRequest \<lparr>lr_UserID = userID, lr_RoomID = roomID\<rparr>)) s"

definition SendResume :: "codec \<Rightarrow> user_id \<Rightarrow> room_id \<Rightarrow> GatewayServer \<Rightarrow> GatewayServer" where
  "SendResume c userID roomID s = client_send InternalMsgResume
     (Encode c (WResumeRequest \<lparr>rr_UserID = userID, rr_RoomID = roomID, rr_GatewayID = GatewayID s\<rparr>)) s"

definition SendDisconnect :: "codec \<Rightarrow> user_id \<Rightarrow> room_id \<Rightarrow> GatewayServer \<Rightarrow> GatewayServer" where
  "SendDisconnect c userID roomID s = client_send InternalMsgDisconnect
     (Encode c (WDisconnectNotify \<lparr>dn_UserID = userID, dn_RoomID = roomID, dn_GatewayID = GatewayID s,
        dn_Timestamp = zero_time\<rparr>)) s"

definition SendBatchReSync :: "codec \<Rightarrow> UserRoomPair list \<Rightarrow> GatewayServer \<Rightarrow> GatewayServer" where
  "SendBatchReSync c users s = client_send InternalMsgBatchReSync
     (Encode c (WBatchReSync \<lparr>br_GatewayID = GatewayID s, br_Users = users\<rparr>)) s"

section \<open>Local rooms (server.go)\<close>

definition AddUserToRoom :: "room_id \<Rightarrow> user_id \<Rightarrow> GatewayServer \<Rightarrow> GatewayServer" where
  "AddUserToRoom roomID userID s =
     (let users = (case fmlookup (localRooms s) roomID of None \<Rightarrow> {||} | Some us \<Rightarrow> us)
      in s\<lparr>localRooms := fmupd roomID (finsert userID users) (localRooms s)\<rparr>)"

definition RemoveUserFromRoom :: "room_id \<Rightarrow> user_id \<Rightarrow> GatewayServer \<Rightarrow> GatewayServer" where
  "RemoveUserFromRoom roomID userID s =
     (case fmlookup (localRooms s) roomID of
        None \<Rightarrow> s
      | Some users \<Rightarrow>
          (let left = users |-| {|userID|}
           in if fcard left = 0 then s\<lparr>localRooms := fmdrop roomID (localRooms s)\<rparr>
              else s\<lparr>localRooms := fmupd roomID left (localRooms s)\<rparr>))"

definition GetRoomUsers :: "range_order \<Rightarrow> room_id \<Rightarrow> GatewayServer \<Rightarrow> user_id list" where
  "GetRoomUsers ord roomID s =
     (case fmlookup (localRooms s) roomID of
        None \<Rightarrow> []
      | Some users \<Rightarrow> foldl (\<lambda>result userID. result @ [userID]) [] (ord users))"

definition ClearRoom :: "range_order \<Rightarrow> room_id \<Rightarrow> GatewayServer \<Rightarrow> user_id list \<times> GatewayServer" where
  "ClearRoom ord roomID s =
     (case fmlookup (localRooms s) roomID of
        None \<Rightarrow> ([], s)
      | Some users \<Rightarrow>
          (foldl (\<lambda>result userID. result @ [userID]) [] (ord users),
           s\<lparr>localRooms := fmdrop roomID (localRooms s)\<rparr>))"

definition GetConfirmedUsers :: "range_order \<Rightarrow> GatewayServer \<Rightarrow> (room_id, user_id list) fmap" where
  "GetConfirmedUsers ord s = fmmap ord (localRooms s)"

definition GetConnection :: "user_id \<Rightarrow> GatewayServer \<Rightarrow> cref option" where
  "GetConnection userID s = fmlookup (connections s) userID"

definition GetStatus :: "GatewayServer \<Rightarrow> GatewayStatus" where
  "GetStatus s = gw_status s"

definition IsRoomserverConnected :: "GatewayServer \<Rightarrow> bool" where
  "IsRoomserverConnected s = connected (roomserverClient s)"

section \<open>Degradation (server.go)\<close>

definition SetDegraded :: "instant \<Rightarrow> GatewayServer \<Rightarrow> GatewayServer" where
  "SetDegraded now s =
     (if gw_status s = StatusNormal then s\<lparr>gw_status := StatusDegraded, degradedSince := now\<rparr> else s)"

definition processPendingRequests :: "codec \<Rightarrow> GatewayServer \<Rightarrow> GatewayServer" where
  "processPendingRequests c s =
     (let leaves = pendingLeaves s; disconnects = pendingDisconnects s;
          s1 = s\<lparr>pendingLeaves := [], pendingDisconnects := []\<rparr>;
          s2 = fold (\<lambda>req. SendLeaveRoom c (pr_UserID req) (pr_RoomID req)) leaves s1
      in fold (\<lambda>req. SendDisconnect c (pr_UserID req) (pr_RoomID req)) disconnects s2)"

text \<open>\<open>SetNormal\<close> starts \<open>processPendingRequests\<close> in a goroutine; the flag says whether it does.\<close>

definition SetNormal :: "GatewayServer \<Rightarrow> bool \<times> GatewayServer" where
  "SetNormal s =
     (if gw_status s = StatusDegraded
      then (True, s\<lparr>gw_status := StatusNormal, degradedSince := zero_time\<rparr>)
      else (False, s))"

definition notifyDisconnect :: "codec \<Rightarrow> user_id \<Rightarrow> room_id \<Rightarrow> instant \<Rightarrow> GatewayServer \<Rightarrow> GatewayServer" where
  "notifyDisconnect c userID roomID now s =
     (if gw_status s = StatusDegraded
      then s\<lparr>pendingDisconnects := pendingDisconnects s @
              [\<lparr>pr_UserID = userID, pr_RoomID = roomID, pr_Type = ''disconnect'', pr_Time = now\<rparr>]\<rparr>
      else SendDisconnect c userID roomID s)"

section \<open>Connections (server.go, connection.go)\<close>

text \<open>
  \<open>hashUserID\<close> works on the 64-bit \<open>int\<close>: the products wrap, and the negation of the smallest
  value is itself.
\<close>

definition hashUserID :: "user_id \<Rightarrow> int" where
  "hashUserID userID =
     (let h = foldl (\<lambda>h c. 31 * h + of_nat c) (0 :: 64 word) (runes userID)
      in sint (if sint h < 0 then - h else h))"

text \<open>Go's \<open>%\<close> truncates towards zero and panics on zero; a negative index panics.\<close>

definition shard_of :: "user_id \<Rightarrow> nat \<Rightarrow> nat go" where
  "shard_of userID n =
     (if n = 0 then Inl (Panic ''integer divide by zero'')
      else let h = hashUserID userID; i = sgn h * (\<bar>h\<bar> mod int n)
           in if i < 0 then Inl (Panic ''index out of range'') else Inr (nat i))"

definition lock_conns :: "GatewayServer \<Rightarrow> GatewayServer go" where
  "lock_conns s = (if connsMu s then Inl (Deadlock ''connsMu'') else Inr (s\<lparr>connsMu := True\<rparr>))"

definition unlock_conns :: "GatewayServer \<Rightarrow> GatewayServer" where
  "unlock_conns s = s\<lparr>connsMu := False\<rparr>"

definition AddConn :: "user_id \<Rightarrow> cref \<Rightarrow> Distributor \<Rightarrow> Distributor go" where
  "AddConn userID ref d =
     (if d_mu d then Inl (Deadlock ''Distributor.mu'') else Inr (d\<lparr>d_conns := fmupd userID ref (d_conns d)\<rparr>))"

definition RemoveConn :: "user_id \<Rightarrow> Distributor \<Rightarrow> Distributor go" where
  "RemoveConn userID d =
     (if d_mu d then Inl (Deadlock ''Distributor.mu'') else Inr (d\<lparr>d_conns := fmdrop userID (d_conns d)\<rparr>))"

definition on_distributor :: "nat \<Rightarrow> (Distributor \<Rightarrow> Distributor go) \<Rightarrow> GatewayServer \<Rightarrow> GatewayServer go" where
  "on_distributor i f s =
     (if i < length (distributors s)
      then go_bind (f (distributors s ! i)) (\<lambda>d. Inr (s\<lparr>distributors := (distributors s)[i := d]\<rparr>))
      else Inl (Panic ''index out of range''))"

definition RemoveConnection :: "user_id \<Rightarrow> GatewayServer \<Rightarrow> GatewayServer go" where
  "RemoveConnection userID s =
     go_bind (lock_conns s) (\<lambda>s1.
       let found = fmlookup (connections s1) userID;
           s2 = unlock_conns (s1\<lparr>connections := fmdrop userID (connections s1)\<rparr>)
       in go_bind
            (case found of
               None \<Rightarrow> Inr s2
             | Some ref \<Rightarrow>
                 (case fmlookup (store s2) ref of
                    None \<Rightarrow> Inl (Panic ''nil pointer dereference'')
                  | Some conn \<Rightarrow>
                      (case cn_distributor conn of
                         None \<Rightarrow> Inr s2
                       | Some i \<Rightarrow> on_distributor i (RemoveConn userID) s2)))
            (\<lambda>s3. Inr (s3\<lparr>localUsers := localUsers s3 |-| {|userID|}\<rparr>)))"

definition put_connection :: "cref \<Rightarrow> Connection \<Rightarrow> GatewayServer \<Rightarrow> GatewayServer" where
  "put_connection ref conn s = s\<lparr>store := fmupd ref conn (store s)\<rparr>"

definition Close :: "codec \<Rightarrow> cref \<Rightarrow> instant \<Rightarrow> GatewayServer \<Rightarrow> GatewayServer go" where
  "Close c ref now s =
     (case fmlookup (store s) ref of
        None \<Rightarrow> Inl (Panic ''nil pointer dereference'')
      | Some conn \<Rightarrow>
          if closed conn then Inr s
          else
            let s1 = (put_connection ref (conn\<lparr>closed := True\<rparr>) s)\<lparr>GatewayConnections := GatewayConnections s - 1\<rparr>
            in go_bind (RemoveConnection (cn_UserID conn) s1)
                 (\<lambda>s2. if cn_RoomID conn \<noteq> '''' \<and> cn_JoinState conn = JoinStateConfirmed
                   then Inr (notifyDisconnect c (cn_UserID conn) (cn_RoomID conn) now
                               (RemoveUserFromRoom (cn_RoomID conn) (cn_UserID conn) s2))
                   else Inr s2))"

definition AddConnection :: "codec \<Rightarrow> cref \<Rightarrow> instant \<Rightarrow> GatewayServer \<Rightarrow> GatewayServer go" where
  "AddConnection c ref now s =
     (case fmlookup (store s) ref of
        None \<Rightarrow> Inl (Panic ''nil pointer dereference'')
      | Some conn \<Rightarrow>
          go_bind (lock_conns s) (\<lambda>s1.
          go_bind (case fmlookup (connections s1) (cn_UserID conn) of
                     Some old \<Rightarrow> Close c old now s1
                   | None \<Rightarrow> Inr s1) (\<lambda>s2.
          let s3 = s2\<lparr>connections := fmupd (cn_UserID conn) ref (connections s2)\<rparr> in
          go_bind (shard_of (cn_UserID conn) (length (distributors s3))) (\<lambda>shardIdx.
          go_bind (on_distributor shardIdx (AddConn (cn_UserID conn) ref) s3) (\<lambda>s4.
          let s5 = put_connection ref (conn\<lparr>cn_distributor := Some shardIdx\<rparr>) s4
          in Inr (unlock_conns (s5\<lparr>localUsers := finsert (cn_UserID conn) (localUsers s5)\<rparr>)))))))"

definition closeAllConnections :: "codec \<Rightarrow> range_order \<Rightarrow> instant \<Rightarrow> GatewayServer \<Rightarrow> GatewayServer go" where
  "closeAllConnections c ord now s =
     (let conns = map (\<lambda>u. the (fmlookup (connections s) u)) (ord (fmdom (connections s)))
      in go_fold (\<lambda>ref. Close c ref now) conns s)"

text \<open>
  The end of \<open>handleWebSocket\<close> (websocket\_server.go) for an authenticated user: allocate the
  connection, register it, count it.
\<close>

definition accept_connection ::
  "codec \<Rightarrow> cref \<Rightarrow> user_id \<Rightarrow> string \<Rightarrow> nat \<Rightarrow> instant \<Rightarrow> GatewayServer \<Rightarrow> GatewayServer go" where
  "accept_connection c ref userID connID sendChSize now s =
     go_bind (AddConnection c ref now (put_connection ref (NewConnection userID connID sendChSize) s))
       (\<lambda>s1. Inr (s1\<lparr>GatewayConnections := GatewayConnections s1 + 1\<rparr>))"

section \<open>Distributors (distributor.go)\<close>

definition Enqueue :: "DispatchMessage \<Rightarrow> Distributor \<Rightarrow> bool \<times> Distributor" where
  "Enqueue msg d =
     (if length (buf (inputQueue d)) < cap (inputQueue d)
      then (True, d\<lparr>inputQueue := (inputQueue d)\<lparr>buf := buf (inputQueue d) @ [msg]\<rparr>\<rparr>)
      else (False, d))"

text \<open>The drop policy: the fuller the queue, the more urgent a message must be.\<close>

definition shouldDrop :: "ProtectionConfig \<Rightarrow> rat \<Rightarrow> MessagePriority \<Rightarrow> bool" where
  "shouldDrop p queueRatio prio =
     (if queueRatio \<ge> QueueCriticalRatio p then prio > PriorityCritical
      else if queueRatio \<ge> QueueSevereRatio p then prio > PriorityHigh
      else if queueRatio \<ge> QueueWarningRatio p then prio > PriorityNormal
      else False)"

definition slow_conn :: "ProtectionConfig \<Rightarrow> instant \<Rightarrow> ConnHealth \<Rightarrow> bool" where
  "slow_conn p now h \<longleftrightarrow>
     ConsecutiveDrops h \<ge> MaxConsecutiveDrops p \<or>
     (QueueFullSince h \<noteq> zero_time \<and> time_since now (QueueFullSince h) \<ge> QueueFullTimeout p)"

definition checkAndCloseSlowConn :: "codec \<Rightarrow> ProtectionConfig \<Rightarrow> cref \<Rightarrow> instant \<Rightarrow> GatewayServer \<Rightarrow> GatewayServer go" where
  "checkAndCloseSlowConn c p ref now s =
     (case fmlookup (store s) ref of
        None \<Rightarrow> Inl (Panic ''nil pointer dereference'')
      | Some conn \<Rightarrow> if slow_conn p now (health conn) then Close c ref now s else Inr s)"

definition sendToConn ::
  "codec \<Rightarrow> ProtectionConfig \<Rightarrow> DispatchMessage \<Rightarrow> instant \<Rightarrow> cref \<Rightarrow> GatewayServer \<Rightarrow> GatewayServer go" where
  "sendToConn c p msg now ref s =
     (case fmlookup (store s) ref of
        None \<Rightarrow> Inl (Panic ''nil pointer dereference'')
      | Some conn \<Rightarrow>
          if shouldDrop p (QueueUsage conn) (dm_Priority msg)
          then
            let h = health conn;
                conn1 = conn\<lparr>health := h\<lparr>DropCount := DropCount h + 1, ConsecutiveDrops := ConsecutiveDrops h + 1\<rparr>\<rparr>
            in checkAndCloseSlowConn c p ref now (put_connection ref conn1 s)
          else
            (case Send (dm_Payload msg) now conn of
               (sent, conn1) \<Rightarrow>
                 let s1 = put_connection ref conn1 s
                 in if sent then Inr s1 else checkAndCloseSlowConn c p ref now s1))"

definition set_d_mu :: "nat \<Rightarrow> bool \<Rightarrow> GatewayServer \<Rightarrow> GatewayServer" where
  "set_d_mu i b s = s\<lparr>distributors := (distributors s)[i := (distributors s ! i)\<lparr>d_mu := b\<rparr>]\<rparr>"

text \<open>\<open>dispatch\<close> holds the distributor's mutex for reading while it sends.\<close>

definition dispatch ::
  "codec \<Rightarrow> range_order \<Rightarrow> nat \<Rightarrow> DispatchMessage \<Rightarrow> instant \<Rightarrow> GatewayServer \<Rightarrow> GatewayServer go" where
  "dispatch c ord i msg now s =
     (let d = distributors s ! i; targets = (if length (dm_UserIDs msg) > 0 then dm_UserIDs msg else ord (fmdom (d_conns d)))
      in go_bind
           (go_fold (\<lambda>userID s1. case fmlookup (d_conns (distributors s1 ! i)) userID of
               Some ref \<Rightarrow> sendToConn c (protection d) msg now ref s1
             | None \<Rightarrow> Inr s1) targets (set_d_mu i True s))
           (\<lambda>s2. Inr (set_d_mu i False s2)))"

definition GetConnsForRoom :: "range_order \<Rightarrow> user_id fset \<Rightarrow> Distributor \<Rightarrow> cref list" where
  "GetConnsForRoom ord roomUsers d =
     foldl (\<lambda>result userID. case fmlookup (d_conns d) userID of Some ref \<Rightarrow> result @ [ref] | None \<Rightarrow> result)
       [] (ord roomUsers)"

definition priorityName :: "MessagePriority \<Rightarrow> string" where
  "priorityName p =
     (if p = PriorityCritical then ''critical'' else if p = PriorityHigh then ''high''
      else if p = PriorityNormal then ''normal'' else if p = PriorityLow then ''low'' else ''unknown'')"

section \<open>Client messages (handler.go)\<close>

definition send_conn :: "cref \<Rightarrow> bytes \<Rightarrow> instant \<Rightarrow> GatewayServer \<Rightarrow> GatewayServer" where
  "send_conn ref data now s =
     (case fmlookup (store s) ref of
        None \<Rightarrow> s
      | Some conn \<Rightarrow> put_connection ref (snd (Send data now conn)) s)"

definition set_join :: "cref \<Rightarrow> JoinState \<Rightarrow> room_id \<Rightarrow> GatewayServer \<Rightarrow> GatewayServer" where
  "set_join ref st roomID s =
     (case fmlookup (store s) ref of
        None \<Rightarrow> s
      | Some conn \<Rightarrow> put_connection ref (conn\<lparr>cn_JoinState := st, cn_RoomID := roomID\<rparr>) s)"

definition conn_user :: "cref \<Rightarrow> GatewayServer \<Rightarrow> user_id" where
  "conn_user ref s = (case fmlookup (store s) ref of None \<Rightarrow> '''' | Some conn \<Rightarrow> cn_UserID conn)"

definition conn_room :: "cref \<Rightarrow> GatewayServer \<Rightarrow> room_id" where
  "conn_room ref s = (case fmlookup (store s) ref of None \<Rightarrow> '''' | Some conn \<Rightarrow> cn_RoomID conn)"

definition sendJoinRoomResp :: "codec \<Rightarrow> cref \<Rightarrow> bool \<Rightarrow> int \<Rightarrow> string \<Rightarrow> instant \<Rightarrow> GatewayServer \<Rightarrow> GatewayServer" where
  "sendJoinRoomResp c ref success code message now s =
     send_conn ref (EncodeFrame \<lparr>MsgType = MsgTypeJoinRoomResp, Seq = 0,
       Payload = Encode c (WCodeResp success code message)\<rparr>) now s"

definition sendLeaveRoomResp :: "codec \<Rightarrow> cref \<Rightarrow> bool \<Rightarrow> instant \<Rightarrow> GatewayServer \<Rightarrow> GatewayServer" where
  "sendLeaveRoomResp c ref success now s =
     send_conn ref (EncodeFrame \<lparr>MsgType = MsgTypeLeaveRoomResp, Seq = 0,
       Payload = Encode c (WLeaveResp success)\<rparr>) now s"

definition sendHeartbeatResp :: "cref \<Rightarrow> instant \<Rightarrow> GatewayServer \<Rightarrow> GatewayServer" where
  "sendHeartbeatResp ref now s =
     send_conn ref (EncodeFrame \<lparr>MsgType = MsgTypeHeartbeatResp, Seq = 0, Payload = []\<rparr>) now s"

definition sendBizResponse ::
  "codec \<Rightarrow> cref \<Rightarrow> uint64 \<Rightarrow> bool \<Rightarrow> int \<Rightarrow> string \<Rightarrow> instant \<Rightarrow> GatewayServer \<Rightarrow> GatewayServer" where
  "sendBizResponse c ref sq success code message now s =
     send_conn ref (EncodeFrame \<lparr>MsgType = MsgTypeBizResponse, Seq = sq,
       Payload = Encode c (WCodeResp success code message)\<rparr>) now s"

definition handleJoinRoom :: "codec \<Rightarrow> cref \<Rightarrow> Frame \<Rightarrow> instant \<Rightarrow> GatewayServer \<Rightarrow> GatewayServer" where
  "handleJoinRoom c ref frame now s =
     (case decRoomReq c (Payload frame) of
        None \<Rightarrow> sendJoinRoomResp c ref False ErrCodeInvalidRequest ''decode_failed'' now s
      | Some roomID \<Rightarrow>
          if gw_status s = StatusDegraded
          then sendJoinRoomResp c ref False ErrCodeServiceDegraded ''service_degraded'' now s
          else SendJoinRoom c (conn_user ref s) roomID (set_join ref JoinStatePending roomID s))"

definition handleLeaveRoom :: "codec \<Rightarrow> cref \<Rightarrow> Frame \<Rightarrow> instant \<Rightarrow> GatewayServer \<Rightarrow> GatewayServer" where
  "handleLeaveRoom c ref frame now s =
     (case decRoomReq c (Payload frame) of
        None \<Rightarrow> s
      | Some roomID \<Rightarrow>
          let u = conn_user ref s;
              s1 = set_join ref JoinStateInit '''' (RemoveUserFromRoom roomID u s)
          in if gw_status s1 = StatusDegraded
             then sendLeaveRoomResp c ref True now
                    (s1\<lparr>pendingLeaves := pendingLeaves s1 @
                        [\<lparr>pr_UserID = u, pr_RoomID = roomID, pr_Type = ''leave'', pr_Time = now\<rparr>]\<rparr>)
             else SendLeaveRoom c u roomID s1)"

definition handleResume :: "codec \<Rightarrow> cref \<Rightarrow> Frame \<Rightarrow> GatewayServer \<Rightarrow> GatewayServer" where
  "handleResume c ref frame s =
     (case decRoomReq c (Payload frame) of
        None \<Rightarrow> s
      | Some roomID \<Rightarrow> SendResume c (conn_user ref s) roomID (set_join ref JoinStatePending roomID s))"

text \<open>The first room, in the order the map is ranged over, that lists the user.\<close>

definition local_room_of :: "range_order \<Rightarrow> user_id \<Rightarrow> GatewayServer \<Rightarrow> room_id" where
  "local_room_of ord u s =
     (case find (\<lambda>r. case fmlookup (localRooms s) r of None \<Rightarrow> False | Some us \<Rightarrow> u |\<in>| us) (ord (fmdom (localRooms s))) of
        None \<Rightarrow> ''''
      | Some r \<Rightarrow> r)"

definition handleHeartbeat :: "codec \<Rightarrow> range_order \<Rightarrow> cref \<Rightarrow> Frame \<Rightarrow> instant \<Rightarrow> GatewayServer \<Rightarrow> GatewayServer" where
  "handleHeartbeat c ord ref frame now s =
     (case decRoomReq c (Payload frame) of
        None \<Rightarrow> sendHeartbeatResp ref now s
      | Some roomID \<Rightarrow>
          let u = conn_user ref s;
              localRoomID = local_room_of ord u s;
              s1 = (if roomID = '''' then s
                    else if localRoomID = '''' then SendJoinRoom c u roomID (set_join ref JoinStatePending roomID s)
                    else if localRoomID \<noteq> roomID
                    then SendJoinRoom c u roomID (set_join ref JoinStatePending roomID (SendLeaveRoom c u localRoomID s))
                    else s)
          in sendHeartbeatResp ref now s1)"

text \<open>The producer is a third-party client: whether it accepts the message is an argument.\<close>

definition handleBizRequest :: "codec \<Rightarrow> bool \<Rightarrow> cref \<Rightarrow> Frame \<Rightarrow> instant \<Rightarrow> GatewayServer \<Rightarrow> GatewayServer" where
  "handleBizRequest c accepted ref frame now s =
     (if kafkaProducer s \<noteq> Some True
      then sendBizResponse c ref (Seq frame) False ErrCodeServiceDegraded ''kafka_unavailable'' now s
      else if \<not> accepted
      then sendBizResponse c ref (Seq frame) False ErrCodeInternalError ''send_failed'' now s
      else s\<lparr>biz_out := biz_out s @ [\<lparr>bz_UserID = conn_user ref s, bz_RoomID = conn_room ref s,
                                      bz_Payload = Payload frame, bz_Seq = Seq frame\<rparr>]\<rparr>)"

definition OnJoinRoomAck ::
  "codec \<Rightarrow> user_id \<Rightarrow> room_id \<Rightarrow> bool \<Rightarrow> int \<Rightarrow> string \<Rightarrow> instant \<Rightarrow> GatewayServer \<Rightarrow> GatewayServer" where
  "OnJoinRoomAck c userID roomID success code message now s =
     (case GetConnection userID s of
        None \<Rightarrow> s
      | Some ref \<Rightarrow>
          let s1 = (if success then AddUserToRoom roomID userID (set_join ref JoinStateConfirmed roomID s)
                    else set_join ref JoinStateInit '''' s)
          in sendJoinRoomResp c ref success code message now s1)"

definition OnLeaveRoomAck :: "codec \<Rightarrow> user_id \<Rightarrow> room_id \<Rightarrow> bool \<Rightarrow> instant \<Rightarrow> GatewayServer \<Rightarrow> GatewayServer" where
  "OnLeaveRoomAck c userID roomID success now s =
     (let s1 = RemoveUserFromRoom roomID userID s
      in (case GetConnection userID s of
            None \<Rightarrow> s1
          | Some ref \<Rightarrow> sendLeaveRoomResp c ref success now (set_join ref JoinStateInit '''' s1)))"

definition handleMessage :: "codec \<Rightarrow> range_order \<Rightarrow> bool \<Rightarrow> cref \<Rightarrow> bytes \<Rightarrow> instant \<Rightarrow> GatewayServer \<Rightarrow> GatewayServer" where
  "handleMessage c ord accepted ref data now s =
     (case DecodeFrame data of
        Inl e \<Rightarrow> s
      | Inr frame \<Rightarrow>
          let t = MsgType frame in
          if t = MsgTypeJoinRoom then handleJoinRoom c ref frame now s
          else if t = MsgTypeLeaveRoom then handleLeaveRoom c ref frame now s
          else if t = MsgTypeResume then handleResume c ref frame s
          else if t = MsgTypeHeartbeat then handleHeartbeat c ord ref frame now s
          else if t = MsgTypeBizRequest then handleBizRequest c accepted ref frame now s
          else s)"

section \<open>Local rooms as a relation\<close>

definition in_room :: "room_id \<Rightarrow> user_id \<Rightarrow> GatewayServer \<Rightarrow> bool" where
  "in_room r u s = (case fmlookup (localRooms s) r of None \<Rightarrow> False | Some us \<Rightarrow> u |\<in>| us)"

definition rooms_ok :: "GatewayServer \<Rightarrow> bool" where
  "rooms_ok s \<longleftrightarrow> (\<forall>r us. fmlookup (localRooms s) r = Some us \<longrightarrow> us \<noteq> {||})"

lemma in_room_Add [gw_simps]: "in_room r' u' (AddUserToRoom r u s) \<longleftrightarrow> (r' = r \<and> u' = u) \<or> in_room r' u' s"
  by (auto simp: in_room_def AddUserToRoom_def Let_def split: option.split)

lemma in_room_Remove [gw_simps]: "in_room r' u' (RemoveUserFromRoom r u s) \<longleftrightarrow> \<not> (r' = r \<and> u' = u) \<and> in_room r' u' s"
  by (auto simp: in_room_def RemoveUserFromRoom_def Let_def split: option.split)

lemma rooms_ok_ops:
  assumes "rooms_ok s"
  shows "rooms_ok (AddUserToRoom r u s)" "rooms_ok (RemoveUserFromRoom r u s)" "rooms_ok (snd (ClearRoom ord r s))"
  using assms
  by (auto simp: rooms_ok_def AddUserToRoom_def RemoveUserFromRoom_def ClearRoom_def Let_def split: option.split)

lemma set_GetRoomUsers: "go_range ord \<Longrightarrow> set (GetRoomUsers ord r s) = {u. in_room r u s}"
  by (cases "fmlookup (localRooms s) r") (auto simp: GetRoomUsers_def in_room_def)

lemma in_room_ClearRoom [gw_simps]: "in_room r' u (snd (ClearRoom ord r s)) \<longleftrightarrow> r' \<noteq> r \<and> in_room r' u s"
  by (auto simp: in_room_def ClearRoom_def split: option.split)

text \<open>The operations that leave the local rooms alone.\<close>

lemma in_room_cong: "localRooms t = localRooms s \<Longrightarrow> in_room r u t = in_room r u s"
  by (simp add: in_room_def)

lemma localRooms_frame [simp]:
  "localRooms (put_connection ref conn s) = localRooms s"
  "localRooms (set_join ref st r s) = localRooms s"
  "localRooms (send_conn ref d now s) = localRooms s"
  "localRooms (client_send t p s) = localRooms s"
  "localRooms (unlock_conns s) = localRooms s"
  by (simp_all add: put_connection_def set_join_def send_conn_def client_send_def unlock_conns_def
      split: option.split)

lemma store_frame [simp]:
  "store (client_send t p s) = store s" "store (AddUserToRoom r u s) = store s"
  "store (RemoveUserFromRoom r u s) = store s" "store (unlock_conns s) = store s"
  "fmlookup (store (put_connection ref conn s)) x = (if x = ref then Some conn else fmlookup (store s) x)"
  by (simp_all add: client_send_def AddUserToRoom_def RemoveUserFromRoom_def put_connection_def
      unlock_conns_def Let_def split: option.split)

lemma store_set_join [simp]:
  "fmlookup (store (set_join ref st r s)) x =
     (if x = ref then map_option (\<lambda>conn. conn\<lparr>cn_JoinState := st, cn_RoomID := r\<rparr>) (fmlookup (store s) ref)
      else fmlookup (store s) x)"
  by (simp add: set_join_def split: option.split)

lemma store_send_conn [simp]:
  "fmlookup (store (send_conn ref d now s)) x =
     (if x = ref then map_option (\<lambda>conn. snd (Send d now conn)) (fmlookup (store s) ref) else fmlookup (store s) x)"
  by (simp add: send_conn_def split: option.split)

lemma connections_frame [simp]:
  "connections (put_connection ref conn s) = connections s" "connections (set_join ref st r s) = connections s"
  "connections (send_conn ref d now s) = connections s" "connections (client_send t p s) = connections s"
  "connections (AddUserToRoom r u s) = connections s" "connections (RemoveUserFromRoom r u s) = connections s"
  "connections (unlock_conns s) = connections s"
  by (simp_all add: put_connection_def set_join_def send_conn_def client_send_def AddUserToRoom_def
      RemoveUserFromRoom_def unlock_conns_def Let_def split: option.split)

lemma client_frame [simp]:
  "roomserverClient (put_connection ref conn s) = roomserverClient s"
  "roomserverClient (set_join ref st r s) = roomserverClient s"
  "roomserverClient (send_conn ref d now s) = roomserverClient s"
  "roomserverClient (AddUserToRoom r u s) = roomserverClient s"
  "roomserverClient (RemoveUserFromRoom r u s) = roomserverClient s"
  "roomserverClient (client_send t p s) = send t p (roomserverClient s)"
  by (simp_all add: put_connection_def set_join_def send_conn_def client_send_def AddUserToRoom_def
      RemoveUserFromRoom_def Let_def split: option.split)

lemma id_frame [simp]:
  "GatewayID (put_connection ref conn s) = GatewayID s" "GatewayID (set_join ref st r s) = GatewayID s"
  "GatewayID (send_conn ref d now s) = GatewayID s" "GatewayID (client_send t p s) = GatewayID s"
  "GatewayID (AddUserToRoom r u s) = GatewayID s" "GatewayID (RemoveUserFromRoom r u s) = GatewayID s"
  by (simp_all add: put_connection_def set_join_def send_conn_def client_send_def AddUserToRoom_def
      RemoveUserFromRoom_def Let_def split: option.split)

section \<open>The queue of requests to the roomserver\<close>

definition client_queue :: "RoomserverClient \<Rightarrow> Envelope list" where
  "client_queue cl = buf (rc_sendCh cl)"

definition client_capacity :: "RoomserverClient \<Rightarrow> nat" where
  "client_capacity cl = cap (rc_sendCh cl)"

interpretation rq: bounded_queue client_queue client_capacity "\<lambda>cl e. send (env_MsgType e) (env_Payload e) cl"
  by unfold_locales (auto simp: client_queue_def client_capacity_def send_def)

definition leave_envelope :: "codec \<Rightarrow> PendingRequest \<Rightarrow> Envelope" where
  "leave_envelope c req = \<lparr>env_MsgType = InternalMsgLeaveRoom,
     env_Payload = Encode c (WLeaveRoomRequest \<lparr>lr_UserID = pr_UserID req, lr_RoomID = pr_RoomID req\<rparr>)\<rparr>"

definition disconnect_envelope :: "codec \<Rightarrow> gateway_id \<Rightarrow> PendingRequest \<Rightarrow> Envelope" where
  "disconnect_envelope c g req = \<lparr>env_MsgType = InternalMsgDisconnect,
     env_Payload = Encode c (WDisconnectNotify \<lparr>dn_UserID = pr_UserID req, dn_RoomID = pr_RoomID req,
       dn_GatewayID = g, dn_Timestamp = zero_time\<rparr>)\<rparr>"

lemma fold_SendLeaveRoom:
  "fold (\<lambda>req. SendLeaveRoom c (pr_UserID req) (pr_RoomID req)) reqs s =
     s\<lparr>roomserverClient := foldl (\<lambda>cl e. send (env_MsgType e) (env_Payload e) cl) (roomserverClient s)
       (map (leave_envelope c) reqs)\<rparr>"
  by (induction reqs arbitrary: s) (simp_all add: SendLeaveRoom_def client_send_def leave_envelope_def)

lemma fold_SendDisconnect:
  "fold (\<lambda>req. SendDisconnect c (pr_UserID req) (pr_RoomID req)) reqs s =
     s\<lparr>roomserverClient := foldl (\<lambda>cl e. send (env_MsgType e) (env_Payload e) cl) (roomserverClient s)
       (map (disconnect_envelope c (GatewayID s)) reqs)\<rparr>"
  by (induction reqs arbitrary: s) (simp_all add: SendDisconnect_def client_send_def disconnect_envelope_def)

lemma processPendingRequests_eq:
  "processPendingRequests c s = s\<lparr>pendingLeaves := [], pendingDisconnects := [],
     roomserverClient := foldl (\<lambda>cl e. send (env_MsgType e) (env_Payload e) cl) (roomserverClient s)
       (map (leave_envelope c) (pendingLeaves s) @ map (disconnect_envelope c (GatewayID s)) (pendingDisconnects s))\<rparr>"
  by (simp add: processPendingRequests_def fold_SendLeaveRoom fold_SendDisconnect Let_def)

section \<open>Well-formed gateways: opening and closing connections\<close>

definition gw_ok :: "GatewayServer \<Rightarrow> bool" where
  "gw_ok s \<longleftrightarrow> \<not> connsMu s \<and> (\<forall>d \<in> set (distributors s). \<not> d_mu d) \<and>
     (\<forall>u ref. fmlookup (connections s) u = Some ref \<longrightarrow> (\<exists>conn. fmlookup (store s) ref = Some conn \<and> cn_UserID conn = u)) \<and>
     (\<forall>ref conn i. fmlookup (store s) ref = Some conn \<longrightarrow> cn_distributor conn = Some i \<longrightarrow> i < length (distributors s))"

lemma gw_okD:
  assumes "gw_ok s"
  shows "\<not> connsMu s" "i < length (distributors s) \<Longrightarrow> \<not> d_mu (distributors s ! i)"
    "fmlookup (connections s) u = Some ref \<Longrightarrow> \<exists>conn. fmlookup (store s) ref = Some conn \<and> cn_UserID conn = u"
    "fmlookup (store s) ref = Some conn \<Longrightarrow> cn_distributor conn = Some i \<Longrightarrow> i < length (distributors s)"
  using assms unfolding gw_ok_def by (blast, simp, blast, blast)

definition drop_conn :: "user_id \<Rightarrow> GatewayServer \<Rightarrow> GatewayServer" where
  "drop_conn u s =
     (let i = (case fmlookup (connections s) u of None \<Rightarrow> None
               | Some ref \<Rightarrow> (case fmlookup (store s) ref of None \<Rightarrow> None | Some conn \<Rightarrow> cn_distributor conn))
      in s\<lparr>connections := fmdrop u (connections s),
           distributors := (case i of None \<Rightarrow> distributors s
              | Some k \<Rightarrow> (distributors s)[k := (distributors s ! k)\<lparr>d_conns := fmdrop u (d_conns (distributors s ! k))\<rparr>]),
           localUsers := localUsers s |-| {|u|}\<rparr>)"

lemma drop_conn_frame [simp]:
  "localRooms (drop_conn u s) = localRooms s" "store (drop_conn u s) = store s"
  "roomserverClient (drop_conn u s) = roomserverClient s" "gw_status (drop_conn u s) = gw_status s"
  "pendingDisconnects (drop_conn u s) = pendingDisconnects s" "pendingLeaves (drop_conn u s) = pendingLeaves s"
  "GatewayID (drop_conn u s) = GatewayID s" "GatewayConnections (drop_conn u s) = GatewayConnections s"
  "connections (drop_conn u s) = fmdrop u (connections s)" "localUsers (drop_conn u s) = localUsers s |-| {|u|}"
  "connsMu (drop_conn u s) = connsMu s" "length (distributors (drop_conn u s)) = length (distributors s)"
  by (simp_all add: drop_conn_def Let_def split: option.split)

lemma RemoveConnection_eq:
  assumes "gw_ok s"
  shows "RemoveConnection u s = Inr (drop_conn u s)"
proof -
  let ?s2 = "s\<lparr>connections := fmdrop u (connections s)\<rparr>"
  have nolock: "\<not> connsMu s" using assms by (rule gw_okD)
  have s2: "unlock_conns ((s\<lparr>connsMu := True\<rparr>)\<lparr>connections := fmdrop u (connections s)\<rparr>) = ?s2"
    using nolock by (simp add: unlock_conns_def)
  show ?thesis
  proof (cases "fmlookup (connections s) u")
    case None
    then show ?thesis
      using nolock s2 by (simp add: RemoveConnection_def lock_conns_def drop_conn_def)
  next
    case (Some ref)
    then obtain conn where conn: "fmlookup (store s) ref = Some conn" using gw_okD(3) [OF assms] by blast
    show ?thesis
    proof (cases "cn_distributor conn")
      case None
      then show ?thesis
        using nolock s2 Some conn by (simp add: RemoveConnection_def lock_conns_def drop_conn_def)
    next
      case (Some i)
      then have "i < length (distributors s)" "\<not> d_mu (distributors s ! i)"
        using gw_okD(2,4) [OF assms] conn by blast+
      then show ?thesis
        using nolock s2 Some \<open>fmlookup (connections s) u = Some ref\<close> conn
        by (simp add: RemoveConnection_def lock_conns_def drop_conn_def on_distributor_def RemoveConn_def)
    qed
  qed
qed

lemma d_mu_update:
  "i < length ds \<Longrightarrow> d_mu (ds[k := (ds ! k)\<lparr>d_conns := m\<rparr>] ! i) = d_mu (ds ! i)"
  by (cases "i = k") simp_all

lemma gw_ok_drop_conn:
  assumes "gw_ok s"
  shows "gw_ok (drop_conn u s)"
proof -
  have "\<not> d_mu d" if d: "d \<in> set (distributors (drop_conn u s))" for d
  proof -
    obtain i where i: "i < length (distributors s)" "d = distributors (drop_conn u s) ! i"
      using d by (auto simp: in_set_conv_nth)
    have "d_mu (distributors (drop_conn u s) ! i) = d_mu (distributors s ! i)"
      using i(1) by (simp add: drop_conn_def Let_def d_mu_update split: option.split)
    then show ?thesis using i gw_okD(2) [OF assms] by simp
  qed
  then show ?thesis using assms by (auto simp: gw_ok_def)
qed

text \<open>Closing an open connection of a well-formed gateway, step by step.\<close>

definition closed_state :: "codec \<Rightarrow> cref \<Rightarrow> Connection \<Rightarrow> instant \<Rightarrow> GatewayServer \<Rightarrow> GatewayServer" where
  "closed_state c ref conn now s =
     (let s2 = drop_conn (cn_UserID conn)
                 ((put_connection ref (conn\<lparr>closed := True\<rparr>) s)\<lparr>GatewayConnections := GatewayConnections s - 1\<rparr>)
      in if cn_RoomID conn \<noteq> '''' \<and> cn_JoinState conn = JoinStateConfirmed
         then notifyDisconnect c (cn_UserID conn) (cn_RoomID conn) now
                (RemoveUserFromRoom (cn_RoomID conn) (cn_UserID conn) s2)
         else s2)"

lemma gw_ok_mark_closed:
  "gw_ok s \<Longrightarrow> fmlookup (store s) ref = Some conn \<Longrightarrow>
     gw_ok ((put_connection ref (conn\<lparr>closed := True\<rparr>) s)\<lparr>GatewayConnections := n\<rparr>)"
  unfolding gw_ok_def by (auto simp: put_connection_def) force+

lemma Close_eq:
  assumes "gw_ok s" and "fmlookup (store s) ref = Some conn" and "\<not> closed conn"
  shows "Close c ref now s = Inr (closed_state c ref conn now s)"
  using assms RemoveConnection_eq [OF gw_ok_mark_closed [OF assms(1,2)]]
  by (simp add: Close_def closed_state_def Let_def)

lemma notifyDisconnect_frame [simp]:
  "localRooms (notifyDisconnect c u r now s) = localRooms s" "connections (notifyDisconnect c u r now s) = connections s"
  "store (notifyDisconnect c u r now s) = store s" "localUsers (notifyDisconnect c u r now s) = localUsers s"
  "GatewayConnections (notifyDisconnect c u r now s) = GatewayConnections s"
  by (simp_all add: notifyDisconnect_def SendDisconnect_def client_send_def)

lemma localUsers_frame [simp]:
  "localUsers (RemoveUserFromRoom r u s) = localUsers s" "localUsers (AddUserToRoom r u s) = localUsers s"
  by (simp_all add: RemoveUserFromRoom_def AddUserToRoom_def Let_def split: option.split)

lemma in_room_closed_state:
  "in_room r u (closed_state c ref conn now s) \<longleftrightarrow>
     in_room r u s \<and> \<not> (cn_RoomID conn \<noteq> '''' \<and> cn_JoinState conn = JoinStateConfirmed \<and> r = cn_RoomID conn \<and> u = cn_UserID conn)"
proof -
  let ?s2 = "drop_conn (cn_UserID conn)
    ((put_connection ref (conn\<lparr>closed := True\<rparr>) s)\<lparr>GatewayConnections := GatewayConnections s - 1\<rparr>)"
  have "in_room r u ?s2 = in_room r u s" by (rule in_room_cong) (simp add: put_connection_def)
  moreover have "in_room r u (notifyDisconnect c v q now t) = in_room r u t" for v q t
    by (rule in_room_cong) simp
  ultimately show ?thesis by (auto simp: closed_state_def Let_def gw_simps)
qed

lemma gw_ok_cong:
  assumes "gw_ok s" and "connsMu t = connsMu s" and "distributors t = distributors s" and "connections t = connections s"
    and same: "\<And>x. map_option (\<lambda>k. (cn_UserID k, cn_distributor k)) (fmlookup (store t) x) =
      map_option (\<lambda>k. (cn_UserID k, cn_distributor k)) (fmlookup (store s) x)"
  shows "gw_ok t"
proof -
  have "\<exists>conn. fmlookup (store t) ref = Some conn \<and> cn_UserID conn = u"
    if c: "fmlookup (connections t) u = Some ref" for u ref
  proof -
    obtain conn where "fmlookup (store s) ref = Some conn" "cn_UserID conn = u"
      using gw_okD(3) [OF assms(1)] c assms(4) by auto
    then show ?thesis using same [of ref] by auto
  qed
  moreover have "i < length (distributors t)"
    if k: "fmlookup (store t) ref = Some conn" "cn_distributor conn = Some i" for ref conn i
  proof -
    obtain k where "fmlookup (store s) ref = Some k" "cn_distributor k = Some i"
      using same [of ref] k by (cases "fmlookup (store s) ref") auto
    then show ?thesis using gw_okD(4) [OF assms(1)] assms(3) by simp
  qed
  ultimately show ?thesis using assms(1-3) by (simp add: gw_ok_def)
qed

lemma locks_frame [simp]:
  "connsMu (put_connection ref conn s) = connsMu s" "connsMu (set_join ref st r s) = connsMu s"
  "connsMu (send_conn ref d now s) = connsMu s" "connsMu (AddUserToRoom r u s) = connsMu s"
  "distributors (put_connection ref conn s) = distributors s" "distributors (set_join ref st r s) = distributors s"
  "distributors (send_conn ref d now s) = distributors s" "distributors (AddUserToRoom r u s) = distributors s"
  by (simp_all add: put_connection_def set_join_def send_conn_def AddUserToRoom_def Let_def split: option.split)

text \<open>A confirmation for a connected user.\<close>

lemma OnJoinRoomAck_confirm:
  assumes "gw_ok x" and "fmlookup (connections x) u = Some ref" and "fmlookup (store x) ref = Some k"
    and "\<not> closed k"
  shows "\<exists>y k'. OnJoinRoomAck c u r True code msg t x = y \<and> gw_ok y \<and> fmlookup (connections y) u = Some ref
    \<and> fmlookup (store y) ref = Some k' \<and> \<not> closed k' \<and> cn_UserID k' = u \<and> cn_RoomID k' = r
    \<and> cn_JoinState k' = JoinStateConfirmed \<and> (\<forall>q v. in_room q v y \<longleftrightarrow> (q = r \<and> v = u) \<or> in_room q v x)"
proof -
  let ?z = "AddUserToRoom r u (set_join ref JoinStateConfirmed r x)"
  let ?y = "sendJoinRoomResp c ref True code msg t ?z"
  have "cn_UserID k = u" using gw_okD(3) [OF assms(1,2)] assms(3) by auto
  moreover have "OnJoinRoomAck c u r True code msg t x = ?y"
    using assms(2) by (simp add: OnJoinRoomAck_def GetConnection_def)
  moreover have "gw_ok ?y"
    using assms(1) by (rule gw_ok_cong) (simp_all add: sendJoinRoomResp_def option.map_comp o_def)
  moreover have "in_room q v ?y \<longleftrightarrow> (q = r \<and> v = u) \<or> in_room q v x" for q v
  proof -
    have "in_room q v ?y = in_room q v ?z" by (rule in_room_cong) (simp add: sendJoinRoomResp_def)
    moreover have "in_room q v (set_join ref JoinStateConfirmed r x) = in_room q v x" by (rule in_room_cong) simp
    ultimately show ?thesis by (simp add: gw_simps)
  qed
  ultimately show ?thesis
    using assms by (intro exI [of _ ?y]) (auto simp: sendJoinRoomResp_def)
qed

section \<open>Adding connections\<close>

lemma gw_ok_alloc:
  assumes "gw_ok s" and "fmlookup (store s) ref = None" and "cn_distributor conn = None"
  shows "gw_ok (put_connection ref conn s)"
proof -
  have "x \<noteq> ref" if "fmlookup (connections s) u = Some x" for u x
    using that gw_okD(3) [OF assms(1)] assms(2) by fastforce
  then show ?thesis using assms(1,3) unfolding gw_ok_def by (auto split: if_splits)
qed

lemma shard_of_less: "shard_of u n = Inr i \<Longrightarrow> i < n"
  by (auto simp: shard_of_def Let_def sgn_if nat_less_iff split: if_splits)

definition added_state :: "cref \<Rightarrow> Connection \<Rightarrow> nat \<Rightarrow> GatewayServer \<Rightarrow> GatewayServer" where
  "added_state ref conn i s =
     s\<lparr>connections := fmupd (cn_UserID conn) ref (connections s),
       distributors := (distributors s)[i := (distributors s ! i)\<lparr>d_conns := fmupd (cn_UserID conn) ref (d_conns (distributors s ! i))\<rparr>],
       store := fmupd ref (conn\<lparr>cn_distributor := Some i\<rparr>) (store s),
       localUsers := finsert (cn_UserID conn) (localUsers s)\<rparr>"

lemma AddConnection_fresh:
  assumes "gw_ok s" and "fmlookup (store s) ref = Some conn" and "fmlookup (connections s) (cn_UserID conn) = None"
    and "shard_of (cn_UserID conn) (length (distributors s)) = Inr i"
  shows "AddConnection c ref now s = Inr (added_state ref conn i s)"
proof -
  have "i < length (distributors s)" using assms(4) by (rule shard_of_less)
  moreover have "\<not> connsMu s" "\<not> d_mu (distributors s ! i)"
    using calculation gw_okD(1,2) [OF assms(1)] by auto
  ultimately show ?thesis
    using assms(2-4)
    by (simp add: AddConnection_def lock_conns_def on_distributor_def AddConn_def put_connection_def
        unlock_conns_def added_state_def Let_def)
qed

lemma gw_ok_added:
  assumes "gw_ok s" and "fmlookup (store s) ref = Some conn" and "i < length (distributors s)"
  shows "gw_ok (added_state ref conn i s)"
proof -
  have "\<not> d_mu d" if d: "d \<in> set (distributors (added_state ref conn i s))" for d
  proof -
    obtain k where "k < length (distributors s)" "d = distributors (added_state ref conn i s) ! k"
      using d by (auto simp: in_set_conv_nth added_state_def)
    then show ?thesis using gw_okD(2) [OF assms(1)] by (simp add: added_state_def d_mu_update)
  qed
  moreover have "\<exists>k. fmlookup (store (added_state ref conn i s)) x = Some k \<and> cn_UserID k = u"
    if "fmlookup (connections (added_state ref conn i s)) u = Some x" for u x
    using that gw_okD(3) [OF assms(1), of u x] assms(2)
    by (cases "u = cn_UserID conn"; cases "x = ref") (auto simp: added_state_def split: if_splits)
  moreover have "j < length (distributors (added_state ref conn i s))"
    if "fmlookup (store (added_state ref conn i s)) x = Some k" "cn_distributor k = Some j" for x k j
    using that gw_okD(4) [OF assms(1), of x k j] assms(3) by (auto simp: added_state_def split: if_splits)
  ultimately show ?thesis using assms(1) by (simp add: gw_ok_def) (simp add: added_state_def)
qed

lemma AddConnection_replacing:
  assumes "gw_ok s" and "fmlookup (store s) ref = Some conn" and "fmlookup (connections s) (cn_UserID conn) = Some old"
    and "fmlookup (store s) old = Some oconn" and "\<not> closed oconn"
  shows "AddConnection c ref now s = Inl (Deadlock ''connsMu'')"
  using assms gw_okD(1) [OF assms(1)]
  by (simp add: AddConnection_def Close_def RemoveConnection_def lock_conns_def put_connection_def Let_def)

section \<open>Properties\<close>


lemma sample_decRoomReq: "decRoomReq sample_codec (put_fields [str_field r]) = Some r"
  by (simp add: sample_codec_def)


definition default_protection :: ProtectionConfig where
  "default_protection = \<lparr>QueueWarningRatio = 1/2, QueueSevereRatio = 4/5, QueueCriticalRatio = 19/20,
     QueueFullTimeout = 30 * second, MaxConsecutiveDrops = 50\<rparr>"

definition sample_gateway :: GatewayServer where
  "sample_gateway = NewGateway ''g'' ''addr'' 4 8 default_protection None"

lemma hash_ascii:
  "list_all (\<lambda>b. b < (128 :: nat)) (map of_char u) \<Longrightarrow>
     hashUserID u = (let h = foldl (\<lambda>h c. 31 * h + of_nat c) (0 :: 64 word) (map of_char u)
                     in sint (if sint h < 0 then - h else h))"
  by (simp add: hashUserID_def runes_def runes_of_ascii)

lemma shard_of_u: "shard_of ''u'' 4 = Inr 1"
proof -
  have "hashUserID ''u'' = 117" by (subst hash_ascii) simp_all
  then show ?thesis by (simp add: shard_of_def)
qed

definition connected_gateway :: GatewayServer where
  "connected_gateway =
     added_state 0 (NewConnection ''u'' ''id'' 16) 1 (put_connection 0 (NewConnection ''u'' ''id'' 16) sample_gateway)"

lemma connected_gateway_ok:
  "gw_ok connected_gateway" "fmlookup (connections connected_gateway) ''u'' = Some 0"
  "fmlookup (store connected_gateway) 0 = Some ((NewConnection ''u'' ''id'' 16)\<lparr>cn_distributor := Some 1\<rparr>)"
  "AddConnection c 0 now (put_connection 0 (NewConnection ''u'' ''id'' 16) sample_gateway) = Inr connected_gateway"
  "localRooms connected_gateway = fmempty" "GatewayID connected_gateway = ''g''"
  "roomserverClient connected_gateway = NewRoomserverClient" "gw_status connected_gateway = StatusNormal"
proof -
  let ?s = "put_connection 0 (NewConnection ''u'' ''id'' 16) sample_gateway"
  have ok: "gw_ok ?s"
    by (auto simp: gw_ok_def sample_gateway_def NewGateway_def NewDistributor_def put_connection_def NewConnection_def)
  have l: "fmlookup (store ?s) 0 = Some (NewConnection ''u'' ''id'' 16)" "length (distributors ?s) = 4"
    by (simp_all add: sample_gateway_def NewGateway_def)
  show "gw_ok connected_gateway"
    unfolding connected_gateway_def using ok l by (intro gw_ok_added) simp_all
  show "AddConnection c 0 now ?s = Inr connected_gateway"
    unfolding connected_gateway_def
    by (rule AddConnection_fresh [OF ok l(1)])
       (simp_all only: l shard_of_u, simp_all add: NewConnection_def shard_of_u, simp add: sample_gateway_def NewGateway_def)
  show "fmlookup (connections connected_gateway) ''u'' = Some 0"
    "fmlookup (store connected_gateway) 0 = Some ((NewConnection ''u'' ''id'' 16)\<lparr>cn_distributor := Some 1\<rparr>)"
    "localRooms connected_gateway = fmempty" "GatewayID connected_gateway = ''g''"
    "roomserverClient connected_gateway = NewRoomserverClient" "gw_status connected_gateway = StatusNormal"
    by (simp_all add: connected_gateway_def added_state_def NewConnection_def sample_gateway_def NewGateway_def
        put_connection_def)
qed

text \<open>Switching rooms leaves the user behind. When the roomserver confirms a join of a second room, the
  gateway adds the user to that room without removing the user from the first: the user is then
  in both local rooms, gets the broadcasts of both and is reported in both on a resync; closing
  the connection removes the user from the second room only, so the first keeps a user who is
  gone.\<close>

lemma room_switch_leaves_user_behind:
  assumes "gw_ok s" and "fmlookup (connections s) u = Some ref" and "fmlookup (store s) ref = Some conn"
    and "\<not> closed conn" and "a \<noteq> b" and "b \<noteq> ''''"
  shows "let s2 = OnJoinRoomAck c u b True 0 '''' t2 (OnJoinRoomAck c u a True 0 '''' t1 s) in
    in_room a u s2 \<and> in_room b u s2
    \<and> (\<exists>s3. Close c ref now s2 = Inr s3 \<and> fmlookup (connections s3) u = None
         \<and> in_room a u s3 \<and> \<not> in_room b u s3)"
proof -
  define s1 where "s1 = OnJoinRoomAck c u a True 0 '''' t1 s"
  define s2 where "s2 = OnJoinRoomAck c u b True 0 '''' t2 s1"
  obtain k1 where 1: "gw_ok s1" "fmlookup (connections s1) u = Some ref" "fmlookup (store s1) ref = Some k1"
    "\<not> closed k1" "\<And>q v. in_room q v s1 \<longleftrightarrow> (q = a \<and> v = u) \<or> in_room q v s"
    using OnJoinRoomAck_confirm [OF assms(1-4), of c a 0 "''''" t1] unfolding s1_def by blast
  obtain k2 where 2: "gw_ok s2" "fmlookup (connections s2) u = Some ref" "fmlookup (store s2) ref = Some k2"
    "\<not> closed k2" "cn_UserID k2 = u" "cn_RoomID k2 = b" "cn_JoinState k2 = JoinStateConfirmed"
    "\<And>q v. in_room q v s2 \<longleftrightarrow> (q = b \<and> v = u) \<or> in_room q v s1"
    using OnJoinRoomAck_confirm [OF 1(1-4), of c b 0 "''''" t2] unfolding s2_def by blast
  have "fmlookup (connections (closed_state c ref k2 now s2)) u = None"
    using 2 by (simp add: closed_state_def Let_def)
  then show ?thesis
    unfolding s1_def [symmetric] s2_def [symmetric] Let_def
    using Close_eq [OF 2(1,3,4)] 1 2 assms(5,6) by (auto simp: in_room_closed_state)
qed

lemma room_switch_leaves_user_behind_example:
  "let s2 = OnJoinRoomAck sample_codec ''u'' ''b'' True 0 '''' 8 (OnJoinRoomAck sample_codec ''u'' ''a'' True 0 '''' 7 connected_gateway) in
    in_room ''a'' ''u'' s2 \<and> in_room ''b'' ''u'' s2
    \<and> (\<exists>s3. Close sample_codec 0 9 s2 = Inr s3 \<and> fmlookup (connections s3) ''u'' = None
         \<and> in_room ''a'' ''u'' s3 \<and> \<not> in_room ''b'' ''u'' s3)"
  by (rule room_switch_leaves_user_behind [OF connected_gateway_ok(1-3)]) (simp_all add: NewConnection_def)

text \<open>C38. The second login of a user stops the gateway. Adding a connection for a user without one succeeds:
  the connection is registered for the user and with the distributor of the user's shard, and the
  user becomes local. But when the user already has an open connection, adding the new one
  closes the old one while the lock on the connections is held, and closing takes the same lock:
  the goroutine waits for itself, with the lock held.\<close>

theorem second_login_deadlocks:
  assumes "gw_ok s" and "fmlookup (store s) ref = Some conn"
    and "shard_of (cn_UserID conn) (length (distributors s)) = Inr i"
  shows "(fmlookup (connections s) (cn_UserID conn) = None \<longrightarrow>
      (\<exists>s'. AddConnection c ref now s = Inr s' \<and> gw_ok s' \<and> fmlookup (connections s') (cn_UserID conn) = Some ref
        \<and> fmlookup (d_conns (distributors s' ! i)) (cn_UserID conn) = Some ref \<and> cn_UserID conn |\<in>| localUsers s'))
    \<and> (\<forall>old oconn. fmlookup (connections s) (cn_UserID conn) = Some old \<and> fmlookup (store s) old = Some oconn \<and> \<not> closed oconn
      \<longrightarrow> AddConnection c ref now s = Inl (Deadlock ''connsMu''))"
proof (intro conjI impI allI)
  have i: "i < length (distributors s)" using assms(3) by (rule shard_of_less)
  show "\<exists>s'. AddConnection c ref now s = Inr s' \<and> gw_ok s' \<and> fmlookup (connections s') (cn_UserID conn) = Some ref
      \<and> fmlookup (d_conns (distributors s' ! i)) (cn_UserID conn) = Some ref \<and> cn_UserID conn |\<in>| localUsers s'"
    if "fmlookup (connections s) (cn_UserID conn) = None"
    using AddConnection_fresh [OF assms(1,2) that assms(3)] gw_ok_added [OF assms(1,2) i] i
    by (auto simp: added_state_def)
  fix old oconn assume "fmlookup (connections s) (cn_UserID conn) = Some old \<and> fmlookup (store s) old = Some oconn \<and> \<not> closed oconn"
  then show "AddConnection c ref now s = Inl (Deadlock ''connsMu'')"
    using AddConnection_replacing [OF assms(1,2)] by blast
qed

theorem second_login_deadlocks_witness:
  "AddConnection sample_codec 1 9 (put_connection 1 (NewConnection ''u'' ''id2'' 16) connected_gateway)
     = Inl (Deadlock ''connsMu'')"
proof -
  let ?s = "put_connection 1 (NewConnection ''u'' ''id2'' 16) connected_gateway"
  have "gw_ok ?s"
    by (rule gw_ok_alloc [OF connected_gateway_ok(1)])
       (simp_all add: NewConnection_def connected_gateway_def added_state_def sample_gateway_def NewGateway_def)
  moreover have "length (distributors ?s) = 4"
    by (simp add: connected_gateway_def added_state_def sample_gateway_def NewGateway_def)
  ultimately show ?thesis
    using second_login_deadlocks [of ?s 1 "NewConnection ''u'' ''id2'' 16" 1 sample_codec 9] connected_gateway_ok(2,3)
    by (simp add: NewConnection_def shard_of_u)
qed



text \<open>The drop policy of the distributors. With ordered thresholds, a critical message is never dropped by
  the policy, nothing is dropped below the warning threshold, and the policy is monotone: what is
  dropped at some queue usage is dropped at any higher usage, and so is any less urgent message.
  At or above the critical threshold everything but critical messages is dropped.\<close>

lemma drop_policy_monotone:
  assumes "QueueWarningRatio p \<le> QueueSevereRatio p" and "QueueSevereRatio p \<le> QueueCriticalRatio p"
  shows "\<not> shouldDrop p q PriorityCritical
    \<and> (q < QueueWarningRatio p \<longrightarrow> \<not> shouldDrop p q prio)
    \<and> (QueueCriticalRatio p \<le> q \<longrightarrow> (shouldDrop p q prio \<longleftrightarrow> PriorityCritical < prio))
    \<and> (shouldDrop p q prio \<and> q \<le> q' \<and> prio \<le> prio' \<longrightarrow> shouldDrop p q' prio')"
  using assms by (auto simp: shouldDrop_def priority_defs split: if_splits)

lemma drop_policy_monotone_example:
  "\<not> shouldDrop default_protection (99/100) PriorityCritical \<and> shouldDrop default_protection (99/100) PriorityHigh
    \<and> \<not> shouldDrop default_protection (1/10) PriorityLow"
  using drop_policy_monotone [of default_protection "99/100" PriorityHigh] drop_policy_monotone [of default_protection "1/10" PriorityLow]
  by (simp add: default_protection_def priority_defs)

text \<open>A distributor that finds a slow connection stops. When a message is dispatched to a connection whose
  queue is full and whose consecutive drops reach the limit with this one, the distributor closes
  the connection while it holds its own lock for reading, and closing waits for the same lock for
  writing: the distributor deadlocks, whatever the message's priority.\<close>

lemma slow_connection_deadlocks_dispatch:
  assumes "gw_ok s" and "i < length (distributors s)" and "fmlookup (d_conns (distributors s ! i)) u = Some ref"
    and "fmlookup (connections s) u = Some ref" and "fmlookup (store s) ref = Some conn" and "\<not> closed conn"
    and "cn_distributor conn = Some i" and "length (buf (sendCh conn)) = cap (sendCh conn)"
    and "MaxConsecutiveDrops (protection (distributors s ! i)) \<le> ConsecutiveDrops (health conn) + 1"
  shows "dispatch c ord i \<lparr>dm_Priority = prio, dm_Payload = d, dm_RoomID = r, dm_UserIDs = [u]\<rparr> now s
    = Inl (Deadlock ''Distributor.mu'')"
proof -
  let ?m = "\<lparr>dm_Priority = prio, dm_Payload = d, dm_RoomID = r, dm_UserIDs = [u]\<rparr>"
  let ?p = "protection (distributors s ! i)"
  define t where "t = set_d_mu i True s"
  have user: "cn_UserID conn = u" using gw_okD(3) [OF assms(1,4)] assms(5) by auto
  have t: "connsMu t = False" "connections t = connections s" "store t = store s" "d_mu (distributors t ! i)"
    "i < length (distributors t)" "fmlookup (d_conns (distributors t ! i)) u = Some ref"
    using assms(1,2,3) by (simp_all add: t_def set_d_mu_def gw_okD)
  have close: "Close c ref now (put_connection ref k t) = Inl (Deadlock ''Distributor.mu'')"
    if "\<not> closed k" "cn_UserID k = u" "cn_distributor k = Some i" for k
    using that t assms(4)
    by (simp add: Close_def RemoveConnection_def lock_conns_def unlock_conns_def on_distributor_def RemoveConn_def
        put_connection_def Let_def)
  have "sendToConn c ?p ?m now ref t = Inl (Deadlock ''Distributor.mu'')"
    using assms(5-9) t(3) close user
    by (auto simp: sendToConn_def checkAndCloseSlowConn_def slow_conn_def Send_def Let_def)
  then show ?thesis
    unfolding dispatch_def t_def [symmetric] using t(6) by (simp add: Let_def)
qed

definition slow_gateway :: GatewayServer where
  "slow_gateway = put_connection 0 ((NewConnection ''u'' ''id'' 0)\<lparr>cn_distributor := Some 1,
     health := new_health\<lparr>ConsecutiveDrops := 49\<rparr>\<rparr>) connected_gateway"

lemma slow_connection_deadlocks_dispatch_example:
  "dispatch sample_codec sorted_list_of_fset 1
      \<lparr>dm_Priority = PriorityCritical, dm_Payload = [1], dm_RoomID = ''r'', dm_UserIDs = [''u'']\<rparr> 9 slow_gateway
    = Inl (Deadlock ''Distributor.mu'')"
proof (rule slow_connection_deadlocks_dispatch)
  show "gw_ok slow_gateway"
    by (rule gw_ok_cong [OF connected_gateway_ok(1)])
       (simp_all add: slow_gateway_def connected_gateway_ok(3) NewConnection_def)
  show "fmlookup (store slow_gateway) 0 = Some ((NewConnection ''u'' ''id'' 0)\<lparr>cn_distributor := Some 1,
     health := new_health\<lparr>ConsecutiveDrops := 49\<rparr>\<rparr>)"
    by (simp add: slow_gateway_def)
  show "fmlookup (connections slow_gateway) ''u'' = Some 0"
    by (simp add: slow_gateway_def connected_gateway_ok)
qed (simp_all add: slow_gateway_def connected_gateway_def added_state_def sample_gateway_def NewGateway_def
    NewConnection_def new_health_def make_chan_def NewDistributor_def default_protection_def)

end
