(* ===== verification/Roomserver_Client.thy ===== *)
theory Roomserver_Client
  imports Gateway_Server
begin

text \<open>
  The gateway's side of the stream to the roomserver (\<open>internal/gateway/roomserver_client.go\<close>):
  the handlers of the messages it receives, the progressive resync after a roomserver restart,
  the connection's effect on the gateway's state and the reconnect loop. The gRPC stream is not
  part of the repository: whether a connection attempt succeeds is an argument.
\<close>

section \<open>Messages from the roomserver\<close>

definition push_frame :: "uint64 \<Rightarrow> bytes \<Rightarrow> bytes" where
  "push_frame sq payload = EncodeFrame \<lparr>MsgType = MsgTypePushMessage, Seq = sq, Payload = payload\<rparr>"

definition send_user :: "bytes \<Rightarrow> instant \<Rightarrow> user_id \<Rightarrow> GatewayServer \<Rightarrow> GatewayServer" where
  "send_user data now userID s =
     (case GetConnection userID s of None \<Rightarrow> s | Some ref \<Rightarrow> send_conn ref data now s)"

definition handleJoinRoomAck :: "codec \<Rightarrow> bytes \<Rightarrow> instant \<Rightarrow> GatewayServer \<Rightarrow> GatewayServer" where
  "handleJoinRoomAck c payload now s =
     (case decJoinRoomAck c payload of
        None \<Rightarrow> s
      | Some ack \<Rightarrow> OnJoinRoomAck c (ja_UserID ack) (ja_RoomID ack) (ja_Success ack) (ja_Code ack) (ja_Message ack) now s)"

definition handleBroadcast :: "codec \<Rightarrow> range_order \<Rightarrow> bytes \<Rightarrow> instant \<Rightarrow> GatewayServer \<Rightarrow> GatewayServer" where
  "handleBroadcast c ord payload now s =
     (case decBroadcastMessage c payload of
        None \<Rightarrow> s
      | Some msg \<Rightarrow>
          let users = GetRoomUsers ord (bm_RoomID msg) s
          in if length users = 0 then s
             else fold (send_user (push_frame (bm_Seq msg) (bm_Payload msg)) now) users s)"

definition handleUnicast :: "codec \<Rightarrow> bytes \<Rightarrow> instant \<Rightarrow> GatewayServer \<Rightarrow> GatewayServer" where
  "handleUnicast c payload now s =
     (case decUnicastMessage c payload of
        None \<Rightarrow> s
      | Some msg \<Rightarrow> send_user (push_frame 0 (um_Payload msg)) now (um_UserID msg) s)"

definition handleMulticast :: "codec \<Rightarrow> bytes \<Rightarrow> instant \<Rightarrow> GatewayServer \<Rightarrow> GatewayServer" where
  "handleMulticast c payload now s =
     (case decMulticastMessage c payload of
        None \<Rightarrow> s
      | Some msg \<Rightarrow> fold (send_user (push_frame 0 (mm_Payload msg)) now) (mm_UserIDs msg) s)"

text \<open>The flag says whether a resync is started in a goroutine.\<close>

definition handleEpochNotify :: "codec \<Rightarrow> bytes \<Rightarrow> GatewayServer \<Rightarrow> bool \<times> GatewayServer" where
  "handleEpochNotify c payload s =
     (case decEpochNotify c payload of
        None \<Rightarrow> (False, s)
      | Some notify \<Rightarrow>
          let oldEpoch = (case fmlookup (knownEpochs s) (en_ServerID notify) of None \<Rightarrow> 0 | Some e \<Rightarrow> e)
          in if en_Epoch notify > oldEpoch
             then (True, s\<lparr>knownEpochs := fmupd (en_ServerID notify) (en_Epoch notify) (knownEpochs s)\<rparr>)
             else (False, s))"

definition close_user :: "bytes \<Rightarrow> instant \<Rightarrow> user_id \<Rightarrow> GatewayServer \<Rightarrow> GatewayServer" where
  "close_user data now userID s =
     (case GetConnection userID s of
        None \<Rightarrow> s
      | Some ref \<Rightarrow> send_conn ref data now (set_join ref JoinStateInit '''' s))"

definition handleRoomClose :: "codec \<Rightarrow> range_order \<Rightarrow> bytes \<Rightarrow> instant \<Rightarrow> GatewayServer \<Rightarrow> GatewayServer" where
  "handleRoomClose c ord payload now s =
     (case decRoomCloseNotify c payload of
        None \<Rightarrow> s
      | Some msg \<Rightarrow>
          (case ClearRoom ord (rn_RoomID msg) s of
             (users, s1) \<Rightarrow>
               fold (close_user (push_frame 0 (Encode c (WRoomCloseNotify
                 \<lparr>rn_RoomID = rn_RoomID msg, rn_Reason = rn_Reason msg\<rparr>))) now) users s1))"

section \<open>Progressive resync\<close>

definition batchSize :: nat where "batchSize = 1000"

definition resync_user :: "codec \<Rightarrow> room_id \<Rightarrow> user_id \<Rightarrow> UserRoomPair list \<times> GatewayServer \<Rightarrow> UserRoomPair list \<times> GatewayServer" where
  "resync_user c roomID userID st =
     (case st of (batch, s) \<Rightarrow>
        let batch1 = batch @ [\<lparr>up_UserID = userID, up_RoomID = roomID\<rparr>]
        in if length batch1 \<ge> batchSize then ([], SendBatchReSync c batch1 s) else (batch1, s))"

definition sendReSyncComplete :: "codec \<Rightarrow> range_order \<Rightarrow> GatewayServer \<Rightarrow> GatewayServer" where
  "sendReSyncComplete c ord s =
     (let roomUsers = GetConfirmedUsers ord s;
          totalUsers = foldl (\<lambda>n r. n + length (case fmlookup roomUsers r of None \<Rightarrow> [] | Some us \<Rightarrow> us)) 0 (ord (fmdom roomUsers))
      in client_send InternalMsgReSyncComplete
           (Encode c (WReSyncComplete \<lparr>rc_GatewayID = GatewayID s, rc_TotalUsers = totalUsers\<rparr>)) s)"

definition startProgressiveReSync :: "codec \<Rightarrow> range_order \<Rightarrow> GatewayServer \<Rightarrow> GatewayServer" where
  "startProgressiveReSync c ord s =
     (let roomUsers = GetConfirmedUsers ord s;
          (batch, s1) = fold (\<lambda>r. fold (resync_user c r) (case fmlookup roomUsers r of None \<Rightarrow> [] | Some us \<Rightarrow> us))
                          (ord (fmdom roomUsers)) ([], s);
          s2 = (if length batch > 0 then SendBatchReSync c batch s1 else s1)
      in sendReSyncComplete c ord s2)"

text \<open>An epoch change is followed by the resync it starts.\<close>

definition handleEnvelope :: "codec \<Rightarrow> range_order \<Rightarrow> Envelope \<Rightarrow> instant \<Rightarrow> GatewayServer \<Rightarrow> GatewayServer" where
  "handleEnvelope c ord e now s =
     (let t = env_MsgType e; p = env_Payload e in
      if t = InternalMsgJoinRoomAck then handleJoinRoomAck c p now s
      else if t = InternalMsgBroadcast then handleBroadcast c ord p now s
      else if t = InternalMsgUnicast then handleUnicast c p now s
      else if t = InternalMsgMulticast then handleMulticast c p now s
      else if t = InternalMsgEpochNotify
      then (case handleEpochNotify c p s of (resync, s1) \<Rightarrow> if resync then startProgressiveReSync c ord s1 else s1)
      else if t = InternalMsgRoomClose then handleRoomClose c ord p now s
      else s)"

section \<open>Connecting\<close>

definition getRoomserverAddr :: "(string \<Rightarrow> string option) option \<Rightarrow> string \<Rightarrow> string" where
  "getRoomserverAddr nacos cfgService =
     (case nacos of
        None \<Rightarrow> ''localhost:9000''
      | Some healthy \<Rightarrow>
          let serviceName = (if cfgService = '''' then ''roomserver'' else cfgService)
          in (case healthy serviceName of Some addr \<Rightarrow> addr | None \<Rightarrow> ''localhost:9000''))"

text \<open>The state changes of \<open>connectAndServe\<close> when the stream is up, and when it has failed.\<close>

definition stream_up :: "codec \<Rightarrow> GatewayServer \<Rightarrow> bool \<times> GatewayServer" where
  "stream_up c s =
     (let s1 = s\<lparr>roomserverClient := (roomserverClient s)\<lparr>connected := True\<rparr>\<rparr>
      in (case SetNormal s1 of (pending, s2) \<Rightarrow> (pending, sendGatewayInfo c s2)))"

definition stream_down :: "instant \<Rightarrow> GatewayServer \<Rightarrow> GatewayServer" where
  "stream_down now s = SetDegraded now (s\<lparr>roomserverClient := (roomserverClient s)\<lparr>connected := False\<rparr>\<rparr>)"

text \<open>One round of \<open>Run\<close>: it waits for the current interval and computes the next.\<close>

definition next_interval :: "duration \<Rightarrow> duration \<Rightarrow> duration" where
  "next_interval maxInterval reconnectInterval =
     (let i = reconnectInterval * 2 in if i > maxInterval then maxInterval else i)"

definition Run_intervals :: "duration \<Rightarrow> duration \<Rightarrow> nat \<Rightarrow> duration" where
  "Run_intervals initial maxInterval n = (next_interval maxInterval ^^ n) initial"

section \<open>Delivering to a list of users\<close>

text \<open>
  The broadcast handlers and the room-close handler visit a list of users and update the
  connection of each connected one. \<open>per_user\<close> is what such a visit promises: it changes the
  user's own connection, without its owner or its distributor, and nothing else that the other
  visits look at.
\<close>

lemma gw_ok_inj:
  "gw_ok s \<Longrightarrow> fmlookup (connections s) u = Some ref \<Longrightarrow> fmlookup (connections s) v = Some ref \<Longrightarrow> u = v"
  using gw_okD(3) [of s u ref] gw_okD(3) [of s v ref] by force

locale per_user =
  fixes visit :: "user_id \<Rightarrow> GatewayServer \<Rightarrow> GatewayServer"
    and upd :: "Connection \<Rightarrow> Connection"
  assumes visit_store: "fmlookup (store (visit u s)) ref =
      (if fmlookup (connections s) u = Some ref then map_option upd (fmlookup (store s) ref) else fmlookup (store s) ref)"
    and visit_frame: "connections (visit u s) = connections s" "localRooms (visit u s) = localRooms s"
      "roomserverClient (visit u s) = roomserverClient s" "connsMu (visit u s) = connsMu s"
      "distributors (visit u s) = distributors s"
    and upd_keeps: "cn_UserID (upd k) = cn_UserID k" "cn_distributor (upd k) = cn_distributor k"
begin

lemma visits_frame:
  "connections (fold visit us s) = connections s" "localRooms (fold visit us s) = localRooms s"
  "roomserverClient (fold visit us s) = roomserverClient s" "connsMu (fold visit us s) = connsMu s"
  "distributors (fold visit us s) = distributors s"
  by (induction us arbitrary: s) (simp_all add: visit_frame)

lemma gw_ok_visit: "gw_ok s \<Longrightarrow> gw_ok (visit u s)"
  by (erule gw_ok_cong) (simp_all add: visit_store visit_frame upd_keeps option.map_comp o_def)

lemma gw_ok_visits: "gw_ok s \<Longrightarrow> gw_ok (fold visit us s)"
  by (induction us arbitrary: s) (simp_all add: gw_ok_visit)

text \<open>Every connection of a listed user is updated once, every other connection is unchanged.\<close>

lemma visits_store:
  assumes "gw_ok s" and "distinct us"
  shows "fmlookup (store (fold visit us s)) ref =
    (if \<exists>u \<in> set us. fmlookup (connections s) u = Some ref then map_option upd (fmlookup (store s) ref)
     else fmlookup (store s) ref)"
  using assms
proof (induction us arbitrary: s)
  case Nil
  then show ?case by simp
next
  case (Cons u us)
  have "\<not> (\<exists>v \<in> set us. fmlookup (connections s) v = Some ref)" if r: "fmlookup (connections s) u = Some ref"
  proof
    assume "\<exists>v \<in> set us. fmlookup (connections s) v = Some ref"
    then obtain v where "v \<in> set us" "fmlookup (connections s) v = Some ref" by blast
    with gw_ok_inj [OF Cons.prems(1) r] Cons.prems(2) show False by fastforce
  qed
  then show ?case
    using Cons.IH [OF gw_ok_visit [OF Cons.prems(1)]] Cons.prems(2) by (auto simp: visit_store visit_frame)
qed

end

lemma send_conn_other [simp]:
  "connsMu (send_conn ref d now s) = connsMu s" "distributors (send_conn ref d now s) = distributors s"
  by (simp_all add: send_conn_def put_connection_def split: option.split)

lemma Send_keeps [simp]:
  "cn_UserID (snd (Send d now k)) = cn_UserID k" "cn_distributor (snd (Send d now k)) = cn_distributor k"
  "cn_RoomID (snd (Send d now k)) = cn_RoomID k" "cn_JoinState (snd (Send d now k)) = cn_JoinState k"
  by (simp_all add: Send_def)

interpretation su: per_user "send_user d now" "\<lambda>k. snd (Send d now k)" for d now
  by unfold_locales (auto simp: send_user_def GetConnection_def split: option.split)

interpretation cu: per_user "close_user d now"
    "\<lambda>k. snd (Send d now (k\<lparr>cn_JoinState := JoinStateInit, cn_RoomID := ''''\<rparr>))" for d now
  by unfold_locales (auto simp: close_user_def GetConnection_def option.map_comp o_def split: option.split)

section \<open>What a resync sends\<close>

definition confirmed_pairs :: "range_order \<Rightarrow> GatewayServer \<Rightarrow> UserRoomPair list" where
  "confirmed_pairs ord s = concat (map (\<lambda>r. map (\<lambda>u. \<lparr>up_UserID = u, up_RoomID = r\<rparr>)
     (GetRoomUsers ord r s)) (ord (fmdom (localRooms s))))"

lemma GetConfirmedUsers_room [simp]:
  "(case fmlookup (GetConfirmedUsers ord s) r of None \<Rightarrow> [] | Some us \<Rightarrow> us) = GetRoomUsers ord r s"
  "fmdom (GetConfirmedUsers ord s) = fmdom (localRooms s)"
  by (simp_all add: GetConfirmedUsers_def GetRoomUsers_def split: option.split)

lemma GetRoomUsers_distinct [simp]: "go_range ord \<Longrightarrow> distinct (GetRoomUsers ord r s)"
  by (simp add: GetRoomUsers_def split: option.split)

definition batch_envelope :: "codec \<Rightarrow> gateway_id \<Rightarrow> UserRoomPair list \<Rightarrow> Envelope" where
  "batch_envelope c g users = \<lparr>env_MsgType = InternalMsgBatchReSync,
     env_Payload = Encode c (WBatchReSync \<lparr>br_GatewayID = g, br_Users = users\<rparr>)\<rparr>"

definition complete_envelope :: "codec \<Rightarrow> gateway_id \<Rightarrow> nat \<Rightarrow> Envelope" where
  "complete_envelope c g n = \<lparr>env_MsgType = InternalMsgReSyncComplete,
     env_Payload = Encode c (WReSyncComplete \<lparr>rc_GatewayID = g, rc_TotalUsers = n\<rparr>)\<rparr>"

abbreviation sends :: "RoomserverClient \<Rightarrow> Envelope list \<Rightarrow> RoomserverClient" where
  "sends \<equiv> foldl (\<lambda>cl e. send (env_MsgType e) (env_Payload e) cl)"

lemma in_set_confirmed_pairs:
  "go_range ord \<Longrightarrow> p \<in> set (confirmed_pairs ord s) \<longleftrightarrow> in_room (up_RoomID p) (up_UserID p) s"
  by (cases p) (auto simp: confirmed_pairs_def set_GetRoomUsers in_room_def fmdom_iff_lookup image_iff split: option.splits)

lemma distinct_confirmed_pairs: "go_range ord \<Longrightarrow> distinct (confirmed_pairs ord s)"
  unfolding confirmed_pairs_def
  by (rule distinct_concat_map)
     (auto simp: distinct_map inj_on_def)

lemma length_confirmed_pairs:
  "foldl (\<lambda>n r. n + length (us r)) k rs =
     k + length (concat (map (\<lambda>r. map (\<lambda>u. \<lparr>up_UserID = u, up_RoomID = r\<rparr>) (us r)) rs))"
  by (induction rs arbitrary: k) simp_all

text \<open>The nested loops walk over the list of pairs.\<close>

lemma resync_loop_flat:
  "fold (\<lambda>r. fold (resync_user c r) (us r)) rs st =
     fold (\<lambda>p. resync_user c (up_RoomID p) (up_UserID p))
       (concat (map (\<lambda>r. map (\<lambda>u. \<lparr>up_UserID = u, up_RoomID = r\<rparr>) (us r)) rs)) st"
  by (induction rs arbitrary: st) (simp_all add: fold_map o_def)

lemma SendBatchReSync_eq:
  "SendBatchReSync c users s = s\<lparr>roomserverClient := sends (roomserverClient s) [batch_envelope c (GatewayID s) users]\<rparr>"
  by (simp add: SendBatchReSync_def client_send_def batch_envelope_def)

lemma resync_loop:
  assumes "length b < batchSize"
  shows "\<exists>full rest. fold (\<lambda>p. resync_user c (up_RoomID p) (up_UserID p)) ps (b, s) =
      (rest, s\<lparr>roomserverClient := sends (roomserverClient s) (map (batch_envelope c (GatewayID s)) full)\<rparr>)
    \<and> concat full @ rest = b @ ps \<and> length rest < batchSize \<and> (\<forall>x \<in> set full. length x = batchSize)"
  using assms
proof (induction ps arbitrary: b s)
  case Nil
  then show ?case by (intro exI [of _ "[]"] exI [of _ b]) simp
next
  case (Cons p ps)
  show ?case
  proof (cases "length b + 1 \<ge> batchSize")
    case True
    let ?b = "b @ [p]"
    have "length ?b = batchSize" using True Cons.prems by simp
    moreover have "resync_user c (up_RoomID p) (up_UserID p) (b, s) = ([], SendBatchReSync c ?b s)"
      using True by (cases p) (simp add: resync_user_def)
    moreover have z: "length ([] :: UserRoomPair list) < batchSize" by (simp add: batchSize_def)
    moreover obtain full rest where
      "fold (\<lambda>p. resync_user c (up_RoomID p) (up_UserID p)) ps ([], SendBatchReSync c ?b s) =
        (rest, (SendBatchReSync c ?b s)\<lparr>roomserverClient := sends (roomserverClient (SendBatchReSync c ?b s))
          (map (batch_envelope c (GatewayID (SendBatchReSync c ?b s))) full)\<rparr>)"
      "concat full @ rest = ps" "length rest < batchSize" "\<forall>x \<in> set full. length x = batchSize"
      using Cons.IH [OF z, of "SendBatchReSync c ?b s"] by auto
    ultimately show ?thesis
      by (intro exI [of _ "?b # full"] exI [of _ rest]) (simp add: SendBatchReSync_eq)
  next
    case False
    then have "resync_user c (up_RoomID p) (up_UserID p) (b, s) = (b @ [p], s)"
      by (cases p) (simp add: resync_user_def)
    then show ?thesis using Cons.IH [of "b @ [p]" s] False by simp
  qed
qed

text \<open>
  The batches of a resync: all pairs in order, in full batches and at most one shorter batch at
  the end, none empty.
\<close>

definition batched :: "UserRoomPair list \<Rightarrow> UserRoomPair list list \<Rightarrow> bool" where
  "batched ps bs \<longleftrightarrow> concat bs = ps \<and> (\<forall>b \<in> set bs. b \<noteq> [] \<and> length b \<le> batchSize)
     \<and> (\<forall>b \<in> set (butlast bs). length b = batchSize)"

lemma startProgressiveReSync_eq:
  "\<exists>bs. startProgressiveReSync c ord s =
      s\<lparr>roomserverClient := sends (roomserverClient s)
        (map (batch_envelope c (GatewayID s)) bs @ [complete_envelope c (GatewayID s) (length (confirmed_pairs ord s))])\<rparr>
    \<and> batched (confirmed_pairs ord s) bs"
proof -
  have z: "length ([] :: UserRoomPair list) < batchSize" by (simp add: batchSize_def)
  obtain full rest where
    loop: "fold (\<lambda>p. resync_user c (up_RoomID p) (up_UserID p)) (confirmed_pairs ord s) ([], s) =
      (rest, s\<lparr>roomserverClient := sends (roomserverClient s) (map (batch_envelope c (GatewayID s)) full)\<rparr>)"
    and cat: "concat full @ rest = confirmed_pairs ord s" and len: "length rest < batchSize"
    and each: "\<forall>x \<in> set full. length x = batchSize"
    using resync_loop [OF z, of c "confirmed_pairs ord s" s] by auto
  let ?bs = "full @ (if rest = [] then [] else [rest])"
  have "batched (confirmed_pairs ord s) ?bs"
    using cat len each by (auto simp: batched_def batchSize_def butlast_append dest: in_set_butlastD)
  moreover have "sendReSyncComplete c ord t = t\<lparr>roomserverClient := sends (roomserverClient t)
      [complete_envelope c (GatewayID t) (length (confirmed_pairs ord t))]\<rparr>" for t
    by (simp add: sendReSyncComplete_def client_send_def complete_envelope_def confirmed_pairs_def
        Let_def length_confirmed_pairs)
  moreover have "confirmed_pairs ord (s\<lparr>roomserverClient := x\<rparr>) = confirmed_pairs ord s" for x
    by (simp add: confirmed_pairs_def GetRoomUsers_def)
  ultimately show ?thesis
    using loop
    by (intro exI [of _ ?bs])
       (simp add: startProgressiveReSync_def resync_loop_flat Let_def confirmed_pairs_def [symmetric]
          SendBatchReSync_eq)
qed


definition pushed :: "instant \<Rightarrow> uint64 \<Rightarrow> bytes \<Rightarrow> Connection option \<Rightarrow> Connection option" where
  "pushed now sq payload k = map_option (\<lambda>conn. snd (Send (push_frame sq payload) now conn)) k"




text \<open>A closed room is gone and its users are told. After the notification no user is in that local
  room, the other rooms are as before, and the connection of every connected user of the room is
  back in its initial join state with no room and has the notification queued; every other
  connection is unchanged.\<close>

lemma room_close_resets_members:
  assumes "codec_ok c" and "go_range ord" and "gw_ok s"
  shows "let s' = handleRoomClose c ord (Encode c (WRoomCloseNotify m)) now s;
      data = push_frame 0 (Encode c (WRoomCloseNotify m)) in
    gw_ok s' \<and> (\<forall>r u. in_room r u s' \<longleftrightarrow> r \<noteq> rn_RoomID m \<and> in_room r u s) \<and> connections s' = connections s
    \<and> (\<forall>ref. fmlookup (store s') ref =
        (if \<exists>u. in_room (rn_RoomID m) u s \<and> GetConnection u s = Some ref
         then map_option (\<lambda>k. snd (Send data now (k\<lparr>cn_JoinState := JoinStateInit, cn_RoomID := ''''\<rparr>))) (fmlookup (store s) ref)
         else fmlookup (store s) ref))"
proof -
  define data where "data = push_frame 0 (Encode c (WRoomCloseNotify m))"
  define s1 where "s1 = snd (ClearRoom ord (rn_RoomID m) s)"
  define us where "us = GetRoomUsers ord (rn_RoomID m) s"
  have clear: "ClearRoom ord (rn_RoomID m) s = (us, s1)"
    by (simp add: s1_def us_def ClearRoom_def GetRoomUsers_def split: option.split)
  have same: "connections s1 = connections s" "store s1 = store s" "distributors s1 = distributors s" "connsMu s1 = connsMu s"
    by (simp_all add: s1_def ClearRoom_def split: option.split)
  then have ok: "gw_ok s1" using assms(3) by (simp add: gw_ok_def)
  have us: "distinct us" "set us = {u. in_room (rn_RoomID m) u s}"
    using assms(2) by (simp_all add: us_def set_GetRoomUsers)
  have eq: "handleRoomClose c ord (Encode c (WRoomCloseNotify m)) now s = fold (close_user data now) us s1"
    using assms(1) clear by (cases m) (simp add: handleRoomClose_def data_def)
  have "in_room r u (fold (close_user data now) us s1) \<longleftrightarrow> r \<noteq> rn_RoomID m \<and> in_room r u s" for r u
    using in_room_cong [OF cu.visits_frame(2)] by (simp add: s1_def gw_simps)
  then show ?thesis
    unfolding Let_def data_def [symmetric] eq
    using ok us same by (auto simp: cu.gw_ok_visits cu.visits_frame cu.visits_store GetConnection_def)
qed

lemma room_close_resets_members_example:
  "\<not> in_room ''r'' ''u'' (handleRoomClose sample_codec sorted_list_of_fset
      (Encode sample_codec (WRoomCloseNotify \<lparr>rn_RoomID = ''r'', rn_Reason = ''''\<rparr>)) 5 connected_gateway)"
  using room_close_resets_members [OF sample_codec_ok go_range_sorted connected_gateway_ok(1),
      where m = "\<lparr>rn_RoomID = ''r'', rn_Reason = ''''\<rparr>" and now = 5]
  by (simp add: Let_def del: Encode_sample)

section \<open>Epochs\<close>

definition epoch_of :: "string \<Rightarrow> GatewayServer \<Rightarrow> uint64" where
  "epoch_of server s = (case fmlookup (knownEpochs s) server of None \<Rightarrow> 0 | Some e \<Rightarrow> e)"

definition epoch_envelope :: "codec \<Rightarrow> EpochNotify \<Rightarrow> Envelope" where
  "epoch_envelope c n = \<lparr>env_MsgType = InternalMsgEpochNotify, env_Payload = Encode c (WEpochNotify n)\<rparr>"

lemma handleEpochNotify_eq:
  assumes "codec_ok c"
  shows "fst (handleEpochNotify c (Encode c (WEpochNotify n)) s) \<longleftrightarrow> epoch_of (en_ServerID n) s < en_Epoch n"
    and "epoch_of q (snd (handleEpochNotify c (Encode c (WEpochNotify n)) s)) =
      (if q = en_ServerID n then max (epoch_of q s) (en_Epoch n) else epoch_of q s)"
  using assms by (auto simp: handleEpochNotify_def epoch_of_def Let_def max_def split: option.split)

lemma knownEpochs_resync [simp]: "epoch_of q (startProgressiveReSync c ord s) = epoch_of q s"
  using startProgressiveReSync_eq [of c ord s] by (auto simp: epoch_of_def)

lemma handle_epoch_envelope:
  assumes "codec_ok c"
  shows "epoch_of q (handleEnvelope c ord (epoch_envelope c n) now s) =
      (if q = en_ServerID n then max (epoch_of q s) (en_Epoch n) else epoch_of q s)"
    and "handleEnvelope c ord (epoch_envelope c n) now s =
      (let s1 = snd (handleEpochNotify c (Encode c (WEpochNotify n)) s)
       in if epoch_of (en_ServerID n) s < en_Epoch n then startProgressiveReSync c ord s1 else s1)"
proof -
  show eq: "handleEnvelope c ord (epoch_envelope c n) now s =
      (let s1 = snd (handleEpochNotify c (Encode c (WEpochNotify n)) s)
       in if epoch_of (en_ServerID n) s < en_Epoch n then startProgressiveReSync c ord s1 else s1)"
    using handleEpochNotify_eq(1) [OF assms, of n s]
    by (cases "handleEpochNotify c (Encode c (WEpochNotify n)) s")
       (simp add: handleEnvelope_def epoch_envelope_def Let_def InternalMsgEpochNotify_def InternalMsgJoinRoomAck_def
        InternalMsgBroadcast_def InternalMsgUnicast_def InternalMsgMulticast_def)
  show "epoch_of q (handleEnvelope c ord (epoch_envelope c n) now s) =
      (if q = en_ServerID n then max (epoch_of q s) (en_Epoch n) else epoch_of q s)"
    unfolding eq Let_def using handleEpochNotify_eq(2) [OF assms] by (simp del: max_less_iff_conj)
qed



section \<open>Reconnect intervals\<close>

text \<open>The intervals double up to the maximum. Nothing resets them: a connection that was up for
  hours is retried after the same interval as one that never came up.\<close>

lemma Run_intervals_backoff:
  assumes "0 < initial" and "initial \<le> maxInterval"
  shows "Run_intervals initial maxInterval n = min maxInterval (initial * 2 ^ n)"
proof (induction n)
  case 0
  then show ?case using assms by (simp add: Run_intervals_def)
next
  case (Suc n)
  have "next_interval maxInterval (min maxInterval (initial * 2 ^ n)) = min maxInterval (initial * 2 ^ Suc n)"
    using assms by (auto simp: next_interval_def Let_def min_def)
  with Suc show ?case by (simp add: Run_intervals_def)
qed

end
