(* ===== verification/Kafka_Push.thy ===== *)
theory Kafka_Push
  imports Roomserver_Client
begin

text \<open>
  The data plane of the gateway (\<open>internal/gateway/kafka_consumer.go\<close>): a push message from Kafka
  is filtered by what this gateway serves and handed to the connections of the addressed users.
  Kafka and the JSON decoder are not part of the repository: the decoded message, or nothing when
  it does not decode, is an argument.
\<close>

section \<open>Messages\<close>

record PushMessage =
  pm_Scope :: string
  pm_RoomID :: room_id
  pm_UserID :: user_id
  pm_UserIDs :: "user_id list"
  pm_Seq :: uint64
  pm_Priority :: string
  pm_Message :: bytes

definition parsePriority :: "string \<Rightarrow> MessagePriority" where
  "parsePriority priority =
     (if priority = ''critical'' then PriorityCritical
      else if priority = ''high'' then PriorityHigh
      else if priority = ''low'' then PriorityLow
      else PriorityNormal)"

definition buildPushPayload :: "codec \<Rightarrow> PushMessage \<Rightarrow> bytes" where
  "buildPushPayload c msg =
     (let payload = Encode c (WPush (pm_Scope msg) (pm_RoomID msg) (pm_UserID msg) (pm_Seq msg) (pm_Message msg))
      in EncodeFrame \<lparr>MsgType = MsgTypePushMessage, Seq = pm_Seq msg, Payload = payload\<rparr>)"

section \<open>Dispatching\<close>

definition dispatchToUser :: "bytes \<Rightarrow> string \<Rightarrow> instant \<Rightarrow> user_id \<Rightarrow> GatewayServer \<Rightarrow> GatewayServer" where
  "dispatchToUser payload priority now userID s =
     (case fmlookup (connections s) userID of
        None \<Rightarrow> s
      | Some ref \<Rightarrow>
          (case fmlookup (store s) ref of
             None \<Rightarrow> s
           | Some conn \<Rightarrow>
               let msgPriority = parsePriority priority;
                   queueUsage = QueueUsage conn;
                   shouldDrop =
                     (if queueUsage \<ge> 95 / 100 then msgPriority > PriorityCritical
                      else if queueUsage \<ge> 80 / 100 then msgPriority > PriorityHigh
                      else if queueUsage \<ge> 50 / 100 then msgPriority > PriorityNormal
                      else False)
               in if shouldDrop then s else send_conn ref payload now s))"

definition handleRoomBroadcast :: "codec \<Rightarrow> range_order \<Rightarrow> PushMessage \<Rightarrow> instant \<Rightarrow> GatewayServer \<Rightarrow> GatewayServer" where
  "handleRoomBroadcast c ord msg now s =
     (case fmlookup (localRooms s) (pm_RoomID msg) of
        None \<Rightarrow> s
      | Some users \<Rightarrow>
          let payload = buildPushPayload c msg
          in fold (dispatchToUser payload (pm_Priority msg) now) (ord users) s)"

definition handleUnicast :: "codec \<Rightarrow> PushMessage \<Rightarrow> instant \<Rightarrow> GatewayServer \<Rightarrow> GatewayServer" where
  "handleUnicast c msg now s =
     (if pm_UserID msg |\<notin>| localUsers s then s
      else dispatchToUser (buildPushPayload c msg) (pm_Priority msg) now (pm_UserID msg) s)"

definition handleMulticast :: "codec \<Rightarrow> PushMessage \<Rightarrow> instant \<Rightarrow> GatewayServer \<Rightarrow> GatewayServer" where
  "handleMulticast c msg now s =
     (if fmlookup (localRooms s) (pm_RoomID msg) = None then s
      else
        let payload = buildPushPayload c msg
        in fold (\<lambda>userID s1. if userID |\<in>| localUsers s1
                   then dispatchToUser payload (pm_Priority msg) now userID s1 else s1) (pm_UserIDs msg) s)"

definition handlePlatformBroadcast :: "codec \<Rightarrow> range_order \<Rightarrow> PushMessage \<Rightarrow> instant \<Rightarrow> GatewayServer \<Rightarrow> GatewayServer" where
  "handlePlatformBroadcast c ord msg now s =
     (let payload = buildPushPayload c msg
      in fold (\<lambda>roomID. fold (dispatchToUser payload (pm_Priority msg) now)
           (case fmlookup (localRooms s) roomID of None \<Rightarrow> [] | Some users \<Rightarrow> ord users)) (ord (fmdom (localRooms s))) s)"

definition handlePushMessage :: "codec \<Rightarrow> range_order \<Rightarrow> PushMessage option \<Rightarrow> instant \<Rightarrow> GatewayServer \<Rightarrow> GatewayServer" where
  "handlePushMessage c ord decoded now s =
     (case decoded of
        None \<Rightarrow> s
      | Some msg \<Rightarrow>
          if pm_Scope msg = ''room'' then handleRoomBroadcast c ord msg now s
          else if pm_Scope msg = ''user'' then handleUnicast c msg now s
          else if pm_Scope msg = ''multicast'' then handleMulticast c msg now s
          else if pm_Scope msg = ''platform'' then handlePlatformBroadcast c ord msg now s
          else s)"

section \<open>The effect on one connection\<close>

text \<open>What a dispatch does to a connection: nothing when the drop policy says so, else a send.\<close>

definition dispatched :: "bytes \<Rightarrow> string \<Rightarrow> instant \<Rightarrow> Connection \<Rightarrow> Connection" where
  "dispatched payload priority now conn =
     (if shouldDrop default_protection (QueueUsage conn) (parsePriority priority) then conn
      else snd (Send payload now conn))"

lemma dispatchToUser_eq:
  "dispatchToUser payload priority now u s =
     (case fmlookup (connections s) u of
        None \<Rightarrow> s
      | Some ref \<Rightarrow> (case fmlookup (store s) ref of
           None \<Rightarrow> s
         | Some conn \<Rightarrow> if shouldDrop default_protection (QueueUsage conn) (parsePriority priority) then s
                        else send_conn ref payload now s))"
  by (simp add: dispatchToUser_def shouldDrop_def default_protection_def Let_def split: option.split)

interpretation du: per_user "dispatchToUser payload priority now" "dispatched payload priority now" for payload priority now
  by unfold_locales (auto simp: dispatchToUser_eq dispatched_def split: option.split)

lemma dispatch_localUsers [simp]: "localUsers (dispatchToUser payload priority now u s) = localUsers s"
  by (simp add: dispatchToUser_def send_conn_def put_connection_def Let_def split: option.split)

lemma multicast_fold:
  "fold (\<lambda>u t. if u |\<in>| localUsers t then dispatchToUser payload priority now u t else t) us s =
     fold (dispatchToUser payload priority now) (filter (\<lambda>u. u |\<in>| localUsers s) us) s"
  by (induction us arbitrary: s) simp_all

text \<open>The users of all local rooms, in the order the rooms and their users are visited.\<close>

definition room_users :: "range_order \<Rightarrow> GatewayServer \<Rightarrow> user_id list" where
  "room_users ord s = concat (map (\<lambda>r. GetRoomUsers ord r s) (ord (fmdom (localRooms s))))"

definition one_room_each :: "GatewayServer \<Rightarrow> bool" where
  "one_room_each s \<longleftrightarrow> (\<forall>u r q. in_room r u s \<longrightarrow> in_room q u s \<longrightarrow> r = q)"

lemma room_users:
  assumes "go_range ord"
  shows "set (room_users ord s) = {u. \<exists>r. in_room r u s}" "one_room_each s \<Longrightarrow> distinct (room_users ord s)"
proof -
  have dom: "in_room r u s \<Longrightarrow> r |\<in>| fmdom (localRooms s)" for r u
    by (auto simp: in_room_def fmdom_iff_lookup split: option.splits)
  show "set (room_users ord s) = {u. \<exists>r. in_room r u s}"
    using assms dom by (auto simp: room_users_def set_GetRoomUsers)
  show "distinct (room_users ord s)" if "one_room_each s"
    unfolding room_users_def using assms that
    by (intro distinct_concat_map) (auto simp: set_GetRoomUsers one_room_each_def)
qed

text \<open>The visited users for each scope; \<open>handlePushMessage\<close> is one pass over them.\<close>

definition addressees :: "range_order \<Rightarrow> PushMessage \<Rightarrow> GatewayServer \<Rightarrow> user_id list" where
  "addressees ord m s =
     (if pm_Scope m = ''room'' then GetRoomUsers ord (pm_RoomID m) s
      else if pm_Scope m = ''user'' then filter (\<lambda>u. u |\<in>| localUsers s) [pm_UserID m]
      else if pm_Scope m = ''multicast''
      then (if fmlookup (localRooms s) (pm_RoomID m) = None then [] else filter (\<lambda>u. u |\<in>| localUsers s) (pm_UserIDs m))
      else if pm_Scope m = ''platform'' then room_users ord s else [])"

lemma handlePushMessage_eq:
  "handlePushMessage c ord (Some m) now s =
     fold (dispatchToUser (buildPushPayload c m) (pm_Priority m) now) (addressees ord m s) s"
proof -
  have "(case fmlookup (localRooms s) r of None \<Rightarrow> [] | Some users \<Rightarrow> ord users) = GetRoomUsers ord r s" for r
    by (simp add: GetRoomUsers_def split: option.split)
  then show ?thesis
    by (simp add: handlePushMessage_def addressees_def handleRoomBroadcast_def handleUnicast_def handleMulticast_def
        handlePlatformBroadcast_def multicast_fold room_users_def fold_fold_concat Let_def GetRoomUsers_def
        split: option.split)
qed

section \<open>Who gets a push\<close>





end
