(* ===== verification/Admission.thy ===== *)
theory Admission
  imports Gateway_Server
begin

text \<open>
  How a client gets a connection (\<open>internal/gateway/websocket_server.go\<close> with \<open>pkg/auth/jwt.go\<close>)
  and what the health endpoint reports (\<open>internal/gateway/health.go\<close>). The JWT library and the
  WebSocket library are not part of the repository: parsing and signing a token, the upgrade and
  the first message read are arguments.
\<close>

section \<open>Tokens (jwt.go)\<close>

record Claims =
  cl_UserID :: user_id
  cl_DeviceID :: string
  cl_ExpiresAt :: "instant option"
  cl_IssuedAt :: "instant option"

datatype SigningMethod = SigningMethodHMAC | SigningMethodOther

datatype jwt_error = jwt_ErrTokenExpired | jwt_ErrOther

datatype auth_error = ErrInvalidToken | ErrTokenExpired | ErrAuthTimeout | ErrInvalidAuth

fun Error :: "auth_error \<Rightarrow> string" where
  "Error ErrInvalidToken = ''invalid token''"
| "Error ErrTokenExpired = ''token expired''"
| "Error ErrAuthTimeout = ''authentication timeout''"
| "Error ErrInvalidAuth = ''invalid authentication''"

text \<open>
  The library: \<open>ParseWithClaims\<close> asks the caller for the key of the token's signing method, which
  may refuse it, and returns the claims with the validity flag; \<open>SignedString\<close> signs claims with
  HS256; \<open>NumericDate\<close> is the rounding of \<open>NewNumericDate\<close>.
\<close>

record jwt_lib =
  ParseWithClaims :: "string \<Rightarrow> (SigningMethod \<Rightarrow> string option) \<Rightarrow> instant \<Rightarrow> jwt_error + Claims \<times> bool"
  SignedString :: "Claims \<Rightarrow> string \<Rightarrow> string"
  NumericDate :: "instant \<Rightarrow> instant"

record JWTValidator =
  secretKey :: string

definition NewJWTValidator :: "string \<Rightarrow> JWTValidator" where
  "NewJWTValidator key = \<lparr>secretKey = key\<rparr>"

definition Validate :: "jwt_lib \<Rightarrow> string \<Rightarrow> instant \<Rightarrow> JWTValidator \<Rightarrow> auth_error + Claims" where
  "Validate lib tokenString now v =
     (case ParseWithClaims lib tokenString
             (\<lambda>m. if m \<noteq> SigningMethodHMAC then None else Some (secretKey v)) now of
        Inl e \<Rightarrow> if e = jwt_ErrTokenExpired then Inl ErrTokenExpired else Inl ErrInvalidToken
      | Inr (claims, valid) \<Rightarrow> if \<not> valid then Inl ErrInvalidToken else Inr claims)"

definition GenerateToken :: "jwt_lib \<Rightarrow> user_id \<Rightarrow> duration \<Rightarrow> instant \<Rightarrow> JWTValidator \<Rightarrow> string" where
  "GenerateToken lib userID expiry now v =
     SignedString lib \<lparr>cl_UserID = userID, cl_DeviceID = '''', cl_ExpiresAt = Some (NumericDate lib (now + expiry)),
       cl_IssuedAt = Some (NumericDate lib now)\<rparr> (secretKey v)"

definition ValidateOrMock :: "jwt_lib \<Rightarrow> string \<Rightarrow> user_id \<Rightarrow> instant \<Rightarrow> JWTValidator \<Rightarrow> auth_error + Claims" where
  "ValidateOrMock lib tokenString mockUserID now v =
     (if tokenString = '''' \<or> length tokenString \<ge> 4 \<and> take 4 tokenString = ''dev_''
      then Inr \<lparr>cl_UserID = mockUserID, cl_DeviceID = '''', cl_ExpiresAt = None, cl_IssuedAt = None\<rparr>
      else Validate lib tokenString now v)"

section \<open>The handshake (websocket\_server.go)\<close>

text \<open>The messages written to the socket before the connection exists.\<close>

definition sendAuthResp :: "codec \<Rightarrow> gateway_id \<Rightarrow> bool \<Rightarrow> user_id \<Rightarrow> int \<Rightarrow> string \<Rightarrow> bytes list" where
  "sendAuthResp c gid success userID code message =
     (case Marshal c (WAuthResp success userID gid code message) of
        None \<Rightarrow> []
      | Some payload \<Rightarrow> [EncodeFrame \<lparr>MsgType = MsgTypeAuthResp, Seq = 0, Payload = payload\<rparr>])"

definition authenticate ::
  "codec \<Rightarrow> jwt_lib \<Rightarrow> JWTValidator option \<Rightarrow> gateway_id \<Rightarrow> bytes option \<Rightarrow> instant \<Rightarrow> bytes list \<times> (auth_error + user_id)" where
  "authenticate c lib jwtValidator gid message now =
     (case message of
        None \<Rightarrow> ([], Inl ErrAuthTimeout)
      | Some data \<Rightarrow>
          (case DecodeFrame data of
             Inl e \<Rightarrow> ([], Inl ErrInvalidAuth)
           | Inr frame \<Rightarrow>
               if MsgType frame \<noteq> MsgTypeAuth then ([], Inl ErrInvalidAuth)
               else
                 (case decAuthReq c (Payload frame) of
                    None \<Rightarrow> ([], Inl ErrInvalidAuth)
                  | Some (token, reqUserID) \<Rightarrow>
                      (case (case jwtValidator of
                               Some v \<Rightarrow> ValidateOrMock lib token reqUserID now v
                             | None \<Rightarrow> Inr \<lparr>cl_UserID = reqUserID, cl_DeviceID = '''', cl_ExpiresAt = None, cl_IssuedAt = None\<rparr>) of
                         Inl e \<Rightarrow>
                           if e = ErrTokenExpired
                           then (sendAuthResp c gid False '''' ErrCodeTokenExpired ''token expired'', Inl e)
                           else ([], Inl ErrInvalidAuth)
                       | Inr claims \<Rightarrow>
                           let userID = cl_UserID claims
                           in if userID = '''' then ([], Inl ErrInvalidAuth)
                              else (sendAuthResp c gid True userID ErrCodeSuccess '''', Inr userID)))))"

text \<open>
  \<open>upgraded\<close> is the outcome of the upgrade; \<open>ref\<close> and \<open>connID\<close> are the fresh address and the fresh
  identifier of the connection object.
\<close>

definition handleWebSocket ::
  "codec \<Rightarrow> jwt_lib \<Rightarrow> JWTValidator option \<Rightarrow> bool \<Rightarrow> bytes option \<Rightarrow> cref \<Rightarrow> string \<Rightarrow> nat \<Rightarrow> instant
    \<Rightarrow> GatewayServer \<Rightarrow> bytes list \<times> GatewayServer go" where
  "handleWebSocket c lib jwtValidator upgraded message ref connID sendChSize now s =
     (if \<not> upgraded then ([], Inr s)
      else
        (case authenticate c lib jwtValidator (GatewayID s) message now of
           (out, Inl e) \<Rightarrow> (out @ sendAuthResp c (GatewayID s) False '''' ErrCodeAuthFailed (Error e), Inr s)
         | (out, Inr userID) \<Rightarrow> (out, accept_connection c ref userID connID sendChSize now s)))"

section \<open>Health (health.go)\<close>

record HealthStatus =
  h_Status :: string
  h_Reason :: string
  h_Connections :: nat
  h_RoomserverConnected :: bool
  h_KafkaConnected :: bool
  h_Uptime :: duration

definition healthHandler :: "instant \<Rightarrow> instant \<Rightarrow> GatewayServer \<Rightarrow> nat \<times> HealthStatus" where
  "healthHandler startTime now s =
     (let connCount = fcard (fmdom (connections s));
          rs = connected (roomserverClient s);
          kafka = (kafkaProducer s = Some True);
          health = \<lparr>h_Status = '''', h_Reason = '''', h_Connections = connCount, h_RoomserverConnected = rs,
                    h_KafkaConnected = kafka, h_Uptime = time_since now startTime\<rparr>
      in if rs \<and> kafka then (200, health\<lparr>h_Status := ''healthy''\<rparr>)
         else (503, health\<lparr>h_Status := ''unhealthy'',
                h_Reason := (if \<not> rs then ''roomserver_disconnected'' else ''kafka_disconnected'')\<rparr>))"

section \<open>Who is admitted\<close>

definition mock_token :: "string \<Rightarrow> bool" where
  "mock_token token \<longleftrightarrow> token = '''' \<or> take 4 token = ''dev_''"

lemma ValidateOrMock_eq:
  "ValidateOrMock lib token u now v =
     (if mock_token token then Inr \<lparr>cl_UserID = u, cl_DeviceID = '''', cl_ExpiresAt = None, cl_IssuedAt = None\<rparr>
      else Validate lib token now v)"
proof -
  have "take 4 token = ''dev_'' \<Longrightarrow> 4 \<le> length token"
    by (drule arg_cong [of _ _ length]) (simp split: if_splits add: min_def)
  then show ?thesis by (auto simp: ValidateOrMock_def mock_token_def)
qed

text \<open>C37. Who is admitted. A client is admitted as user \<open>u\<close> exactly when its first message is an
  authentication frame and either no validator is configured and the message names \<open>u\<close>, or the
  token is valid and its claims name \<open>u\<close>, or the token is empty or starts with \<open>dev_\<close> and the
  message names \<open>u\<close>; \<open>u\<close> is never empty. The last case does not depend on the configured secret,
  so a configured validator keeps nobody out: a client that sends no token is admitted as any user.\<close>

theorem admission_characterised:
  "snd (authenticate c lib jwtValidator gid message now) = Inr u \<longleftrightarrow>
     u \<noteq> '''' \<and> (\<exists>data frame token reqUserID. message = Some data \<and> DecodeFrame data = Inr frame
       \<and> MsgType frame = MsgTypeAuth \<and> decAuthReq c (Payload frame) = Some (token, reqUserID)
       \<and> (case jwtValidator of
            None \<Rightarrow> u = reqUserID
          | Some v \<Rightarrow> mock_token token \<and> u = reqUserID
              \<or> \<not> mock_token token \<and> (\<exists>claims. Validate lib token now v = Inr claims \<and> cl_UserID claims = u)))"
  by (auto simp: authenticate_def ValidateOrMock_eq Let_def split: option.split sum.split prod.split if_splits)

section \<open>Generated tokens\<close>

text \<open>
  What the code relies on in the JWT library (RFC 7519 and the library's documentation): a token
  signed with HS256 parses back to its claims when the key function returns the signing key and
  the token has not expired, and reports expiry otherwise; a compact token starts with the
  encoding of an opening brace and a quote.
\<close>

definition jwt_ok :: "jwt_lib \<Rightarrow> bool" where
  "jwt_ok lib \<longleftrightarrow> (\<forall>claims key keyfunc now e. keyfunc SigningMethodHMAC = Some key \<longrightarrow> cl_ExpiresAt claims = Some e \<longrightarrow>
      ParseWithClaims lib (SignedString lib claims key) keyfunc now =
        (if now < e then Inr (claims, True) else Inl jwt_ErrTokenExpired))
    \<and> (\<forall>claims key. take 3 (SignedString lib claims key) = ''eyJ'')"

lemma signed_not_mock:
  assumes "jwt_ok lib"
  shows "\<not> mock_token (SignedString lib claims key)"
proof -
  let ?t = "SignedString lib claims key"
  have start: "take 3 ?t = ''eyJ''" using assms by (simp add: jwt_ok_def)
  have "take 4 ?t \<noteq> ''dev_''"
  proof
    assume "take 4 ?t = ''dev_''"
    then have "take 3 (take 4 ?t) = take 3 ''dev_''" by (rule arg_cong)
    with start show False by simp
  qed
  with start show ?thesis by (auto simp: mock_token_def)
qed

text \<open>The life of a generated token. Until its expiry time, rounded as the library rounds it, a token
  generated with the gateway's secret admits its user: the client gets one positive answer. From
  then on the connection is refused and the gateway is unchanged, but the client gets two
  answers, one with the code for an expired token and a second with the code for a failed
  authentication.\<close>

lemma generated_token_lifecycle:
  assumes "jwt_ok lib" and "u \<noteq> ''''" and "DecodeFrame data = Inr frame" and "MsgType frame = MsgTypeAuth"
    and "decAuthReq c (Payload frame) = Some (GenerateToken lib u expiry issued v, x)"
  shows "if now < NumericDate lib (issued + expiry)
    then authenticate c lib (Some v) gid (Some data) now = (sendAuthResp c gid True u ErrCodeSuccess '''', Inr u)
    else \<forall>s. GatewayID s = gid \<longrightarrow> handleWebSocket c lib (Some v) True (Some data) ref connID n now s =
      (sendAuthResp c gid False '''' ErrCodeTokenExpired ''token expired''
         @ sendAuthResp c gid False '''' ErrCodeAuthFailed ''token expired'', Inr s)"
proof -
  let ?tok = "GenerateToken lib u expiry issued v"
  have "Validate lib ?tok now v = (if now < NumericDate lib (issued + expiry)
      then Inr \<lparr>cl_UserID = u, cl_DeviceID = '''', cl_ExpiresAt = Some (NumericDate lib (issued + expiry)),
        cl_IssuedAt = Some (NumericDate lib issued)\<rparr> else Inl ErrTokenExpired)"
    using assms(1) by (simp add: Validate_def GenerateToken_def jwt_ok_def)
  moreover have "\<not> mock_token ?tok" using assms(1) by (simp add: GenerateToken_def signed_not_mock)
  ultimately show ?thesis
    using assms(2-5) by (simp add: handleWebSocket_def authenticate_def ValidateOrMock_eq)
qed

text \<open>One library that meets the contract: a token lists the claims and the key, and times are not rounded.\<close>

definition opt_field :: "instant option \<Rightarrow> bytes" where
  "opt_field t = (case t of None \<Rightarrow> [] | Some i \<Rightarrow> int_field i)"

definition field_opt :: "bytes \<Rightarrow> instant option" where
  "field_opt f = (if f = [] then None else Some (field_int f))"

lemma field_opt [simp]: "field_opt (opt_field t) = t"
  by (cases t) (simp_all add: field_opt_def opt_field_def int_field_def field_int_def)

definition sample_jwt :: jwt_lib where
  "sample_jwt =
    \<lparr>ParseWithClaims = \<lambda>tok keyfunc now.
       (case get_fields [] (str_field (drop 3 tok)) of
          [u, d, e, i, k] \<Rightarrow>
            if keyfunc SigningMethodHMAC \<noteq> Some (field_str k) then Inl jwt_ErrOther
            else if (case field_opt e of None \<Rightarrow> False | Some t \<Rightarrow> t \<le> now) then Inl jwt_ErrTokenExpired
            else Inr (\<lparr>cl_UserID = field_str u, cl_DeviceID = field_str d, cl_ExpiresAt = field_opt e,
                       cl_IssuedAt = field_opt i\<rparr>, True)
        | _ \<Rightarrow> Inl jwt_ErrOther),
     SignedString = \<lambda>cl k. ''eyJ'' @ field_str (put_fields [str_field (cl_UserID cl), str_field (cl_DeviceID cl),
       opt_field (cl_ExpiresAt cl), opt_field (cl_IssuedAt cl), str_field k]),
     NumericDate = \<lambda>t. t\<rparr>"

lemma str_field_field_str [simp]: "str_field (field_str b) = b"
proof -
  have "(of_char (char_of (unat x)) :: byte) = x" for x :: byte
  proof -
    have "of_char (char_of (unat x)) = unat x" using unsigned_less [of x, where 'a = nat] by simp
    then have "of_nat (of_char (char_of (unat x))) = x" by simp
    then show ?thesis by (simp only: of_nat_of_char)
  qed
  then show ?thesis by (simp add: str_field_def field_str_def o_def)
qed

lemma sample_jwt_ok: "jwt_ok sample_jwt"
  by (simp add: jwt_ok_def sample_jwt_def)

definition sample_auth_frame :: "string \<Rightarrow> Frame" where
  "sample_auth_frame tok = \<lparr>MsgType = MsgTypeAuth, Seq = 0, Payload = put_fields [str_field tok, []]\<rparr>"

lemma length_put_fields: "length (put_fields fs) = sum_list (map (\<lambda>f. 2 * length f + 1) fs)"
  by (induction fs) (simp_all add: put_fields_def length_concat o_def sum_list_triv)

lemma sample_auth_frame:
  assumes "length tok < 1000"
  shows "DecodeFrame (EncodeFrame (sample_auth_frame tok)) = Inr (sample_auth_frame tok)"
    "decAuthReq sample_codec (Payload (sample_auth_frame tok)) = Some (tok, '''')"
proof -
  have "frame_ok (sample_auth_frame tok)"
    using assms by (simp add: frame_ok_def sample_auth_frame_def length_put_fields str_field_def)
  then show "DecodeFrame (EncodeFrame (sample_auth_frame tok)) = Inr (sample_auth_frame tok)"
    using DecodeFrame_iff [of "EncodeFrame (sample_auth_frame tok)"] by auto
  show "decAuthReq sample_codec (Payload (sample_auth_frame tok)) = Some (tok, '''')"
    by (simp add: sample_codec_def sample_auth_frame_def) (simp add: field_str_def)
qed

lemma generated_token_lifecycle_example:
  "let v = NewJWTValidator ''k''; tok = GenerateToken sample_jwt ''u'' 10 0 v in
     authenticate sample_codec sample_jwt (Some v) ''g'' (Some (EncodeFrame (sample_auth_frame tok))) 7 =
       (sendAuthResp sample_codec ''g'' True ''u'' ErrCodeSuccess [], Inr ''u'')"
proof -
  let ?v = "NewJWTValidator ''k''"
  let ?tok = "GenerateToken sample_jwt ''u'' 10 0 ?v"
  have len: "length ?tok < 1000"
    by (simp add: GenerateToken_def sample_jwt_def field_str_def str_field_def opt_field_def int_field_def
        length_put_fields NewJWTValidator_def)
  have "MsgType (sample_auth_frame ?tok) = MsgTypeAuth" by (simp add: sample_auth_frame_def)
  moreover have "7 < NumericDate sample_jwt (0 + 10)" by (simp add: sample_jwt_def)
  ultimately show ?thesis
    using generated_token_lifecycle [OF sample_jwt_ok _ sample_auth_frame(1) [OF len] _ sample_auth_frame(2) [OF len],
        of 7 "''g''"] by (simp add: Let_def del: Encode_sample)
qed

lemma healthy_iff_connected:
  "fst (healthHandler t0 now s) = 200 \<longleftrightarrow> connected (roomserverClient s) \<and> kafkaProducer s = Some True"
  "fst (healthHandler t0 now s) = 503 \<longleftrightarrow> fst (healthHandler t0 now s) \<noteq> 200"
  by (simp_all add: healthHandler_def Let_def)

end
