(* ===== verification/Gateway_Steps.thy ===== *)
theory Gateway_Steps
  imports Kafka_Push Admission
begin

text \<open>
  The gateway as a transition system. The loops of its goroutines (the read loop of a connection,
  the loop of a distributor, the send and receive loops of the roomserver stream) are one round
  each, and a step of the gateway is one round of one goroutine, one handler or one HTTP request.
  The invariant of the reachable states ties the registered connections to the connection
  objects, the distributors, the local users and the connection gauge.
\<close>

section \<open>Rounds of the loops\<close>

text \<open>
  \<open>readLoop\<close> (connection.go): it ends when the connection is closed or a read fails, and then closes the
  connection. \<open>input\<close> is what \<open>ReadMessage\<close> returns, with the outcome of a Kafka write.
\<close>

definition readLoop :: "codec \<Rightarrow> range_order \<Rightarrow> cref \<Rightarrow> (bytes \<times> bool) option \<Rightarrow> instant \<Rightarrow> GatewayServer \<Rightarrow> GatewayServer go" where
  "readLoop c ord ref input now s =
     (case fmlookup (store s) ref of
        None \<Rightarrow> Inl (Panic ''nil pointer dereference'')
      | Some conn \<Rightarrow>
          if closed conn then Close c ref now s
          else (case input of
                  None \<Rightarrow> Close c ref now s
                | Some (data, accepted) \<Rightarrow> Inr (handleMessage c ord accepted ref data now s)))"

text \<open>\<open>Run\<close> (distributor.go): take the oldest message and dispatch it; blocked on an empty queue.\<close>

definition distributor_Run :: "codec \<Rightarrow> range_order \<Rightarrow> nat \<Rightarrow> instant \<Rightarrow> GatewayServer \<Rightarrow> GatewayServer go" where
  "distributor_Run c ord i now s =
     (case buf (inputQueue (distributors s ! i)) of
        [] \<Rightarrow> Inr s
      | msg # rest \<Rightarrow>
          dispatch c ord i msg now
            (s\<lparr>distributors := (distributors s)[i := (distributors s ! i)
                 \<lparr>inputQueue := (inputQueue (distributors s ! i))\<lparr>buf := rest\<rparr>\<rparr>]\<rparr>))"

text \<open>\<open>sendLoop\<close> (roomserver\_client.go): the oldest envelope leaves the queue for the stream.\<close>

definition sendLoop :: "GatewayServer \<Rightarrow> (Envelope \<times> GatewayServer) option" where
  "sendLoop s =
     (case buf (rc_sendCh (roomserverClient s)) of
        [] \<Rightarrow> None
      | e # es \<Rightarrow> Some (e, s\<lparr>roomserverClient := (roomserverClient s)
                         \<lparr>rc_sendCh := (rc_sendCh (roomserverClient s))\<lparr>buf := es\<rparr>\<rparr>\<rparr>))"

text \<open>\<open>recvLoop\<close> (roomserver\_client.go) hands every received envelope to \<open>handleEnvelope\<close>.\<close>

definition recvLoop :: "codec \<Rightarrow> range_order \<Rightarrow> instant \<Rightarrow> Envelope list \<Rightarrow> GatewayServer \<Rightarrow> GatewayServer" where
  "recvLoop c ord now es s = fold (\<lambda>e. handleEnvelope c ord e now) es s"

text \<open>A write loop works on its connection's queue and health; its batch is local to the goroutine.\<close>

definition run_writeLoop :: "nat \<Rightarrow> int \<Rightarrow> cref \<Rightarrow> (write_event \<times> write_result \<times> instant) list \<Rightarrow> GatewayServer \<Rightarrow> GatewayServer" where
  "run_writeLoop batchMax maxTimeouts ref evs s =
     (case fmlookup (store s) ref of
        None \<Rightarrow> s
      | Some conn \<Rightarrow> put_connection ref (w_conn (writeLoop batchMax maxTimeouts evs (start_writer conn))) s)"

section \<open>Steps\<close>

inductive gw_step :: "codec \<Rightarrow> range_order \<Rightarrow> GatewayServer \<Rightarrow> GatewayServer \<Rightarrow> bool"
  for c :: codec and ord :: range_order
where
  step_accept: "fmlookup (store s) ref = None \<Longrightarrow>
    handleWebSocket c lib v up msg ref connID n now s = (out, Inr s') \<Longrightarrow> gw_step c ord s s'"
| step_read: "readLoop c ord ref input now s = Inr s' \<Longrightarrow> gw_step c ord s s'"
| step_close: "Close c ref now s = Inr s' \<Longrightarrow> gw_step c ord s s'"
| step_envelope: "gw_step c ord s (handleEnvelope c ord e now s)"
| step_push: "gw_step c ord s (handlePushMessage c ord m now s)"
| step_write: "gw_step c ord s (run_writeLoop bm mt ref evs s)"
| step_send: "sendLoop s = Some (e, s') \<Longrightarrow> gw_step c ord s s'"
| step_up: "gw_step c ord s (snd (stream_up c s))"
| step_down: "gw_step c ord s (stream_down now s)"
| step_pending: "gw_step c ord s (processPendingRequests c s)"
| step_kafka: "gw_step c ord s (s\<lparr>kafkaProducer := k\<rparr>)"

definition gw_init :: "GatewayServer \<Rightarrow> bool" where
  "gw_init s \<longleftrightarrow> (\<exists>i addr shards qs prot kafka. s = NewGateway i addr shards qs prot kafka)"

inductive_cases gw_stepE: "gw_step c ord s t"

section \<open>The invariant\<close>

text \<open>Each distributor holds exactly the registered connections of its shard.\<close>

definition shards_ok :: "GatewayServer \<Rightarrow> bool" where
  "shards_ok s \<longleftrightarrow>
     (\<forall>i u. i < length (distributors s) \<longrightarrow> fmlookup (d_conns (distributors s ! i)) u =
        (if shard_of u (length (distributors s)) = Inr i then fmlookup (connections s) u else None)) \<and>
     (\<forall>u ref conn. fmlookup (connections s) u = Some ref \<longrightarrow> fmlookup (store s) ref = Some conn \<longrightarrow>
        (\<exists>i. cn_distributor conn = Some i \<and> shard_of u (length (distributors s)) = Inr i))"

text \<open>A connection object is open exactly when it is the registered one of its user.\<close>

definition open_ok :: "GatewayServer \<Rightarrow> bool" where
  "open_ok s \<longleftrightarrow> (\<forall>ref conn. fmlookup (store s) ref = Some conn \<longrightarrow>
     (\<not> closed conn \<longleftrightarrow> fmlookup (connections s) (cn_UserID conn) = Some ref))"

definition client_ok :: "GatewayServer \<Rightarrow> bool" where
  "client_ok s \<longleftrightarrow> client_capacity (roomserverClient s) = 10000 \<and> length (client_queue (roomserverClient s)) \<le> 10000"

definition gw_inv :: "GatewayServer \<Rightarrow> bool" where
  "gw_inv s \<longleftrightarrow> gw_ok s \<and> rooms_ok s \<and> shards_ok s \<and> open_ok s \<and> client_ok s
     \<and> localUsers s = fmdom (connections s) \<and> GatewayConnections s = int (fcard (fmdom (connections s)))"

text \<open>
  Most operations leave the registration alone: \<open>keeps s t\<close> says that \<open>t\<close> has the registration of
  \<open>s\<close>, the owner, distributor and open state of every connection object, and that rooms
  and queue stay well formed.
\<close>

definition conn_key :: "Connection \<Rightarrow> user_id \<times> nat option \<times> bool" where
  "conn_key k = (cn_UserID k, cn_distributor k, closed k)"

definition keeps :: "GatewayServer \<Rightarrow> GatewayServer \<Rightarrow> bool" where
  "keeps s t \<longleftrightarrow> connsMu t = connsMu s \<and> distributors t = distributors s \<and> connections t = connections s
     \<and> localUsers t = localUsers s \<and> GatewayConnections t = GatewayConnections s
     \<and> (\<forall>x. map_option conn_key (fmlookup (store t) x) = map_option conn_key (fmlookup (store s) x))
     \<and> (rooms_ok s \<longrightarrow> rooms_ok t) \<and> (client_ok s \<longrightarrow> client_ok t)"

named_theorems keeps_intros \<open>operations that leave the registration alone\<close>

lemma shards_okD:
  assumes "shards_ok s" and "fmlookup (connections s) u = Some ref" and "fmlookup (store s) ref = Some conn"
  shows "\<exists>i. cn_distributor conn = Some i \<and> shard_of u (length (distributors s)) = Inr i"
  using assms by (simp add: shards_ok_def)

lemma open_okD:
  "open_ok s \<Longrightarrow> fmlookup (store s) ref = Some conn \<Longrightarrow> \<not> closed conn \<longleftrightarrow> fmlookup (connections s) (cn_UserID conn) = Some ref"
  by (simp add: open_ok_def)

lemma keeps_refl [keeps_intros]: "keeps s s"
  by (simp add: keeps_def)

lemma keeps_store:
  assumes "keeps s t" and "fmlookup (store t) x = Some k"
  shows "\<exists>k0. fmlookup (store s) x = Some k0 \<and> conn_key k0 = conn_key k"
proof -
  have "map_option conn_key (fmlookup (store t) x) = map_option conn_key (fmlookup (store s) x)"
    using assms(1) by (simp add: keeps_def)
  then show ?thesis using assms(2) by (cases "fmlookup (store s) x") auto
qed

lemma gw_inv_keeps:
  assumes "gw_inv s" and "keeps s t"
  shows "gw_inv t"
proof -
  have same: "connsMu t = connsMu s" "distributors t = distributors s" "connections t = connections s"
    "localUsers t = localUsers s" "GatewayConnections t = GatewayConnections s"
    using assms(2) by (simp_all add: keeps_def)
  have key: "map_option (\<lambda>k. (cn_UserID k, cn_distributor k)) (fmlookup (store t) x) =
      map_option (\<lambda>k. (cn_UserID k, cn_distributor k)) (fmlookup (store s) x)" for x
  proof -
    have "map_option conn_key (fmlookup (store t) x) = map_option conn_key (fmlookup (store s) x)"
      using assms(2) by (simp add: keeps_def)
    then show ?thesis by (cases "fmlookup (store t) x"; cases "fmlookup (store s) x") (auto simp: conn_key_def)
  qed
  have "gw_ok s" "rooms_ok s" "client_ok s" using assms(1) by (simp_all add: gw_inv_def)
  then have "gw_ok t" "rooms_ok t" "client_ok t"
    using gw_ok_cong [OF _ same(1-3) key] assms(2) by (simp_all add: keeps_def)
  moreover have "shards_ok t"
  proof -
    have "\<exists>i. cn_distributor conn = Some i \<and> shard_of u (length (distributors s)) = Inr i"
      if k: "fmlookup (connections s) u = Some ref" "fmlookup (store t) ref = Some conn" for u ref conn
    proof -
      obtain k0 where "fmlookup (store s) ref = Some k0" "cn_distributor k0 = cn_distributor conn"
        using keeps_store [OF assms(2) k(2)] by (auto simp: conn_key_def)
      then show ?thesis using shards_okD [OF _ k(1)] assms(1) by (metis gw_inv_def)
    qed
    then show ?thesis using assms(1) by (simp add: gw_inv_def shards_ok_def same)
  qed
  moreover have "open_ok t"
    unfolding open_ok_def same
  proof (intro allI impI)
    fix ref conn assume "fmlookup (store t) ref = Some conn"
    from keeps_store [OF assms(2) this] obtain k0 where "fmlookup (store s) ref = Some k0"
      "cn_UserID k0 = cn_UserID conn" "closed k0 = closed conn" by (auto simp: conn_key_def)
    then show "\<not> closed conn \<longleftrightarrow> fmlookup (connections s) (cn_UserID conn) = Some ref"
      using open_okD [of s ref k0] assms(1) by (simp add: gw_inv_def)
  qed
  ultimately show ?thesis
    using assms(1) same by (simp add: gw_inv_def)
qed

section \<open>Operations that leave the registration alone\<close>

lemma keeps_put [keeps_intros]:
  assumes "keeps s t" and "fmlookup (store t) ref = Some k0" and "conn_key k = conn_key k0"
  shows "keeps s (put_connection ref k t)"
proof -
  have "map_option conn_key (fmlookup (store (put_connection ref k t)) x) = map_option conn_key (fmlookup (store t) x)" for x
    using assms(2,3) by simp
  moreover have "rooms_ok (put_connection ref k t) = rooms_ok t" "client_ok (put_connection ref k t) = client_ok t"
    by (simp_all add: rooms_ok_def client_ok_def)
  ultimately show ?thesis using assms(1) by (simp add: keeps_def) (simp add: put_connection_def)
qed

lemma conn_key_simps [simp]:
  "conn_key (k\<lparr>cn_JoinState := j\<rparr>) = conn_key k" "conn_key (k\<lparr>cn_RoomID := r\<rparr>) = conn_key k"
  "conn_key (k\<lparr>sendCh := q\<rparr>) = conn_key k" "conn_key (k\<lparr>health := h\<rparr>) = conn_key k"
  "conn_key (snd (Send d now k)) = conn_key k"
  by (simp_all add: conn_key_def)

lemma keeps_store_ops [keeps_intros]:
  "keeps s t \<Longrightarrow> keeps s (set_join ref j r t)"
  "keeps s t \<Longrightarrow> keeps s (send_conn ref d now t)"
  by (simp_all add: set_join_def send_conn_def keeps_put split: option.split)

lemma keeps_fields [keeps_intros]:
  assumes "keeps s t"
  shows "keeps s (t\<lparr>pendingLeaves := pl\<rparr>)" "keeps s (t\<lparr>pendingDisconnects := pd\<rparr>)" "keeps s (t\<lparr>knownEpochs := ke\<rparr>)"
    "keeps s (t\<lparr>biz_out := bo\<rparr>)" "keeps s (t\<lparr>kafkaProducer := kp\<rparr>)" "keeps s (t\<lparr>gw_status := gs\<rparr>)"
    "keeps s (t\<lparr>degradedSince := ds\<rparr>)"
  using assms by (simp_all add: keeps_def rooms_ok_def client_ok_def)

lemma keeps_client [keeps_intros]:
  assumes "keeps s t" and "client_ok t \<Longrightarrow> client_ok (t\<lparr>roomserverClient := cl\<rparr>)"
  shows "keeps s (t\<lparr>roomserverClient := cl\<rparr>)"
  using assms by (simp add: keeps_def rooms_ok_def)

lemma client_ok_sends: "client_ok t \<Longrightarrow> client_ok (t\<lparr>roomserverClient := sends (roomserverClient t) es\<rparr>)"
  using rq.within_capacity [of "roomserverClient t" es] by (simp add: client_ok_def rq.capacity_sends)

lemma keeps_client_send [keeps_intros]: "keeps s t \<Longrightarrow> keeps s (client_send ty p t)"
  unfolding client_send_def
  by (rule keeps_client, assumption)
     (use client_ok_sends [of t "[\<lparr>env_MsgType = ty, env_Payload = p\<rparr>]"] in simp)

lemma keeps_rooms [keeps_intros]:
  assumes "keeps s t"
  shows "keeps s (AddUserToRoom r u t)" "keeps s (RemoveUserFromRoom r u t)" "keeps s (snd (ClearRoom ord r t))"
proof -
  have "rooms_ok t \<Longrightarrow> rooms_ok (AddUserToRoom r u t)" "rooms_ok t \<Longrightarrow> rooms_ok (RemoveUserFromRoom r u t)"
    "rooms_ok t \<Longrightarrow> rooms_ok (snd (ClearRoom ord r t))"
    by (auto simp: rooms_ok_def AddUserToRoom_def RemoveUserFromRoom_def ClearRoom_def Let_def split: if_splits option.splits)
  then show "keeps s (AddUserToRoom r u t)" "keeps s (RemoveUserFromRoom r u t)" "keeps s (snd (ClearRoom ord r t))"
    using assms
    by (simp_all add: keeps_def)
       (simp_all add: AddUserToRoom_def RemoveUserFromRoom_def ClearRoom_def client_ok_def Let_def split: option.split)
qed

lemma keeps_sends [keeps_intros]:
  assumes "keeps s t"
  shows "keeps s (SendJoinRoom c u r t)" "keeps s (SendLeaveRoom c u r t)" "keeps s (SendResume c u r t)"
    "keeps s (SendDisconnect c u r t)" "keeps s (SendBatchReSync c ps t)" "keeps s (sendGatewayInfo c t)"
  unfolding SendJoinRoom_def SendLeaveRoom_def SendResume_def SendDisconnect_def SendBatchReSync_def sendGatewayInfo_def
  using assms by (auto intro: keeps_client_send)

lemma keeps_responses [keeps_intros]:
  assumes "keeps s t"
  shows "keeps s (sendJoinRoomResp c ref b code m now t)" "keeps s (sendLeaveRoomResp c ref b now t)"
    "keeps s (sendHeartbeatResp ref now t)" "keeps s (sendBizResponse c ref q b code m now t)"
  unfolding sendJoinRoomResp_def sendLeaveRoomResp_def sendHeartbeatResp_def sendBizResponse_def
  using assms by (auto intro: keeps_store_ops)

lemma keeps_fold [keeps_intros]:
  "keeps s t \<Longrightarrow> (\<And>x u. keeps s u \<Longrightarrow> keeps s (f x u)) \<Longrightarrow> keeps s (fold f xs t)"
  by (induction xs arbitrary: t) simp_all

text \<open>The client's messages.\<close>

lemma keeps_handleMessage: "keeps s (handleMessage c ord acc ref data now s)"
  unfolding handleMessage_def handleJoinRoom_def handleLeaveRoom_def handleResume_def handleHeartbeat_def handleBizRequest_def Let_def
  by (auto intro!: keeps_intros split: option.split sum.split)

text \<open>The messages of the roomserver and of Kafka.\<close>

lemma keeps_visits [keeps_intros]:
  assumes "keeps s t"
  shows "keeps s (send_user d now u t)" "keeps s (close_user d now u t)" "keeps s (dispatchToUser p pr now u t)"
  unfolding send_user_def close_user_def dispatchToUser_def Let_def
  using assms by (auto intro!: keeps_intros split: option.split)

lemma keeps_resync [keeps_intros]:
  assumes "keeps s t"
  shows "keeps s (startProgressiveReSync c ord t)"
proof -
  obtain es where "startProgressiveReSync c ord t = t\<lparr>roomserverClient := sends (roomserverClient t) es\<rparr>"
    using startProgressiveReSync_eq [of c ord t] by blast
  then show ?thesis using keeps_client [OF assms client_ok_sends [of t es]] by simp
qed

lemma keeps_OnJoinRoomAck: "keeps s (OnJoinRoomAck c u r b code m now s)"
  unfolding OnJoinRoomAck_def Let_def by (auto intro!: keeps_intros split: option.split)

lemma keeps_handleRoomClose: "keeps s (handleRoomClose c ord p now s)"
proof (cases "decRoomCloseNotify c p")
  case None
  then show ?thesis by (simp add: handleRoomClose_def keeps_refl)
next
  case (Some m)
  then show ?thesis
    using keeps_rooms(3) [OF keeps_refl, of s ord "rn_RoomID m"]
    by (auto simp: handleRoomClose_def intro!: keeps_fold keeps_visits split: prod.split)
qed

lemma keeps_handleEpochNotify: "keeps s (snd (handleEpochNotify c p s))"
  unfolding handleEpochNotify_def Let_def by (auto intro!: keeps_intros split: option.split)

lemma keeps_handleEnvelope: "keeps s (handleEnvelope c ord e now s)"
  using keeps_handleEpochNotify [of s c "env_Payload e"]
  unfolding handleEnvelope_def Let_def handleJoinRoomAck_def handleBroadcast_def Roomserver_Client.handleUnicast_def
    Roomserver_Client.handleMulticast_def
  by (auto intro!: keeps_OnJoinRoomAck keeps_handleRoomClose keeps_intros split: option.split prod.split)

lemma keeps_handlePushMessage: "keeps s (handlePushMessage c ord m now s)"
proof (cases m)
  case None
  then show ?thesis by (simp add: handlePushMessage_def keeps_refl)
next
  case (Some msg)
  show ?thesis unfolding Some handlePushMessage_eq by (intro keeps_fold keeps_visits keeps_refl)
qed

text \<open>The loops and the state of the stream.\<close>

lemma conn_key_flush [simp]: "conn_key (w_conn (flush_round m res now w)) = conn_key (w_conn w)"
  by (auto simp: flush_round_def split: flush_result.split prod.split)

lemma conn_key_writeLoop: "conn_key (w_conn (writeLoop bm m evs w)) = conn_key (w_conn w)"
proof (induction evs arbitrary: w)
  case Nil
  then show ?case by (simp add: writeLoop_def)
next
  case (Cons ev evs)
  have "conn_key (w_conn (writeLoop_round bm m ev w)) = conn_key (w_conn w)"
    by (auto simp: writeLoop_round_def Let_def split: prod.split write_event.split list.split)
  with Cons show ?case by (simp add: writeLoop_def)
qed

lemma keeps_run_writeLoop: "keeps s (run_writeLoop bm mt ref evs s)"
  unfolding run_writeLoop_def
  by (auto intro!: keeps_intros simp: conn_key_writeLoop split: option.split) (simp_all add: start_writer_def)

lemma keeps_stream:
  "keeps s (snd (stream_up c s))" "keeps s (stream_down now s)"
  "keeps s (processPendingRequests c s)" "sendLoop s = Some (e, s') \<Longrightarrow> keeps s s'"
proof -
  have flag: "keeps s (s\<lparr>roomserverClient := (roomserverClient s)\<lparr>connected := b\<rparr>\<rparr>)" for b
    by (rule keeps_client [OF keeps_refl]) (simp add: client_ok_def client_capacity_def client_queue_def)
  then show "keeps s (snd (stream_up c s))"
    by (auto simp: stream_up_def SetNormal_def Let_def intro!: keeps_sends keeps_fields)
  show "keeps s (stream_down now s)"
    using flag by (auto simp: stream_down_def SetDegraded_def intro!: keeps_fields)
  show "keeps s (processPendingRequests c s)"
    unfolding processPendingRequests_def Let_def by (intro keeps_fold keeps_sends keeps_fields keeps_refl)
  assume "sendLoop s = Some (e, s')"
  then show "keeps s s'"
    by (auto simp: sendLoop_def client_ok_def client_queue_def client_capacity_def split: list.splits intro!: keeps_client keeps_refl)
qed

section \<open>Closing and accepting connections\<close>

lemma gw_inv_drop:
  assumes inv: "gw_inv s" and conn: "fmlookup (store s) ref = Some conn" and "\<not> closed conn"
  defines "t \<equiv> drop_conn (cn_UserID conn)
    ((put_connection ref (conn\<lparr>closed := True\<rparr>) s)\<lparr>GatewayConnections := GatewayConnections s - 1\<rparr>)"
  shows "gw_inv t"
proof -
  let ?u = "cn_UserID conn"
  have parts: "gw_ok s" "rooms_ok s" "shards_ok s" "open_ok s" "client_ok s" "localUsers s = fmdom (connections s)"
    "GatewayConnections s = int (fcard (fmdom (connections s)))"
    using inv by (simp_all add: gw_inv_def)
  have reg: "fmlookup (connections s) ?u = Some ref" using open_okD [OF parts(4) conn] assms(3) by blast
  obtain i where i: "cn_distributor conn = Some i" "shard_of ?u (length (distributors s)) = Inr i"
    using shards_okD [OF parts(3) reg conn] by blast
  have t: "connections t = fmdrop ?u (connections s)" "localUsers t = localUsers s |-| {|?u|}"
    "GatewayConnections t = GatewayConnections s - 1" "localRooms t = localRooms s" "roomserverClient t = roomserverClient s"
    "\<And>x. fmlookup (store t) x = (if x = ref then Some (conn\<lparr>closed := True\<rparr>) else fmlookup (store s) x)"
    by (simp_all add: t_def) (simp_all add: put_connection_def)
  have ds: "distributors t = (distributors s)[i := (distributors s ! i)\<lparr>d_conns := fmdrop ?u (d_conns (distributors s ! i))\<rparr>]"
    using reg i(1) by (simp add: t_def drop_conn_def put_connection_def)
  have "gw_ok t" unfolding t_def by (rule gw_ok_drop_conn [OF gw_ok_mark_closed [OF parts(1) conn]])
  moreover have "rooms_ok t" "client_ok t" using parts by (simp_all add: rooms_ok_def client_ok_def t)
  moreover have "shards_ok t"
  proof -
    have "fmlookup (d_conns (distributors t ! k)) u =
        (if shard_of u (length (distributors s)) = Inr k then fmlookup (connections t) u else None)"
      if "k < length (distributors s)" for k u
      using parts(3) that i(2) by (cases "k = i") (auto simp: shards_ok_def ds t)
    moreover have "\<exists>k. cn_distributor conn' = Some k \<and> shard_of u (length (distributors s)) = Inr k"
      if "fmlookup (connections t) u = Some x" "fmlookup (store t) x = Some conn'" for u x conn'
    proof -
      have u: "u \<noteq> ?u" "fmlookup (connections s) u = Some x" using that(1) by (simp_all add: t split: if_splits)
      then have "x \<noteq> ref" using gw_ok_inj [OF parts(1) u(2)] reg by blast
      then show ?thesis using shards_okD [OF parts(3) u(2)] that(2) by (simp add: t)
    qed
    ultimately show ?thesis by (simp add: shards_ok_def ds)
  qed
  moreover have "open_ok t"
    using parts(4) reg unfolding open_ok_def t by auto
  ultimately show ?thesis
    using parts reg int_fcard_fmdrop [OF reg] by (simp add: gw_inv_def t)
qed

lemma gw_inv_Close:
  assumes "gw_inv s" and "Close c ref now s = Inr t"
  shows "gw_inv t"
proof -
  obtain conn where conn: "fmlookup (store s) ref = Some conn"
    using assms(2) by (auto simp: Close_def split: option.splits)
  show ?thesis
  proof (cases "closed conn")
    case True
    then show ?thesis using assms conn by (simp add: Close_def)
  next
    case False
    have "gw_ok s" using assms(1) by (simp add: gw_inv_def)
    then have "t = closed_state c ref conn now s" using Close_eq [OF _ conn False] assms(2) by simp
    moreover have "keeps x (closed_state c ref conn now s)"
      if "x = drop_conn (cn_UserID conn)
        ((put_connection ref (conn\<lparr>closed := True\<rparr>) s)\<lparr>GatewayConnections := GatewayConnections s - 1\<rparr>)" for x
      unfolding closed_state_def Let_def that [symmetric] notifyDisconnect_def by (auto intro!: keeps_intros)
    ultimately show ?thesis using gw_inv_keeps [OF gw_inv_drop [OF assms(1) conn False]] by blast
  qed
qed

lemma gw_inv_added:
  assumes inv: "gw_inv s" and fresh: "fmlookup (store s) ref = None" and user: "fmlookup (connections s) u = None"
    and i: "shard_of u (length (distributors s)) = Inr i"
    and k: "cn_UserID k = u" "\<not> closed k" "cn_distributor k = None"
  defines "t \<equiv> (added_state ref k i (put_connection ref k s))\<lparr>GatewayConnections := GatewayConnections s + 1\<rparr>"
  shows "gw_inv t"
proof -
  have parts: "gw_ok s" "rooms_ok s" "shards_ok s" "open_ok s" "client_ok s" "localUsers s = fmdom (connections s)"
    "GatewayConnections s = int (fcard (fmdom (connections s)))"
    using inv by (simp_all add: gw_inv_def)
  have less: "i < length (distributors s)" using i by (rule shard_of_less)
  have unused: "fmlookup (connections s) v \<noteq> Some ref" for v using gw_okD(3) [OF parts(1), of v ref] fresh by auto
  have t: "connections t = fmupd u ref (connections s)" "localUsers t = finsert u (localUsers s)"
    "GatewayConnections t = GatewayConnections s + 1" "localRooms t = localRooms s" "roomserverClient t = roomserverClient s"
    "distributors t = (distributors s)[i := (distributors s ! i)\<lparr>d_conns := fmupd u ref (d_conns (distributors s ! i))\<rparr>]"
    "\<And>x. fmlookup (store t) x = (if x = ref then Some (k\<lparr>cn_distributor := Some i\<rparr>) else fmlookup (store s) x)"
    by (simp_all add: t_def added_state_def put_connection_def k)
  have "gw_ok (added_state ref k i (put_connection ref k s))"
    using less by (intro gw_ok_added gw_ok_alloc parts fresh k) simp_all
  then have "gw_ok t" by (simp add: t_def gw_ok_def)
  moreover have "rooms_ok t" "client_ok t" using parts by (simp_all add: rooms_ok_def client_ok_def t)
  moreover have "shards_ok t"
  proof -
    have "fmlookup (d_conns (distributors t ! j)) v =
        (if shard_of v (length (distributors s)) = Inr j then fmlookup (connections t) v else None)"
      if "j < length (distributors s)" for j v
      using parts(3) that i user by (cases "j = i") (auto simp: shards_ok_def t)
    moreover have "\<exists>j. cn_distributor conn' = Some j \<and> shard_of v (length (distributors s)) = Inr j"
      if "fmlookup (connections t) v = Some x" "fmlookup (store t) x = Some conn'" for v x conn'
      using that i unused [of v] shards_okD [OF parts(3), of v x conn'] by (auto simp: t split: if_splits)
    ultimately show ?thesis by (simp add: shards_ok_def t)
  qed
  moreover have "open_ok t"
    using parts(4) unused user k unfolding open_ok_def t by auto
  ultimately show ?thesis
    using parts user by (simp add: gw_inv_def t fcard_finsert_if fmdom_iff_lookup)
qed

lemma gw_inv_accept:
  assumes "gw_inv s" and "fmlookup (store s) ref = None" and "accept_connection c ref u connID n now s = Inr t"
  shows "gw_inv t"
proof -
  let ?k = "NewConnection u connID n" and ?s1 = "put_connection ref (NewConnection u connID n) s"
  have k: "cn_UserID ?k = u" "\<not> closed ?k" "cn_distributor ?k = None" by (simp_all add: NewConnection_def)
  have ok: "gw_ok s" "open_ok s" using assms(1) by (simp_all add: gw_inv_def)
  have ok1: "gw_ok ?s1" using gw_ok_alloc [OF ok(1) assms(2) k(3)] .
  have lk: "fmlookup (store ?s1) ref = Some ?k" by simp
  obtain s2 where add: "AddConnection c ref now ?s1 = Inr s2"
    and t: "t = s2\<lparr>GatewayConnections := GatewayConnections s2 + 1\<rparr>"
    using assms(3) by (cases "AddConnection c ref now ?s1") (auto simp: accept_connection_def)
  have none: "fmlookup (connections s) u = None"
  proof (rule ccontr)
    assume "fmlookup (connections s) u \<noteq> None"
    then obtain old where old: "fmlookup (connections s) u = Some old" by blast
    then obtain oconn where oconn: "fmlookup (store s) old = Some oconn" "cn_UserID oconn = u"
      using gw_okD(3) [OF ok(1)] by blast
    then have "\<not> closed oconn" "old \<noteq> ref" using open_okD [OF ok(2)] old assms(2) by auto
    then have "AddConnection c ref now ?s1 = Inl (Deadlock ''connsMu'')"
      using AddConnection_replacing [OF ok1 lk, of old oconn] old oconn k(1) by simp
    with add show False by simp
  qed
  obtain i where i: "shard_of u (length (distributors s)) = Inr i"
    using add none k gw_okD(1) [OF ok(1)]
    by (cases "shard_of u (length (distributors s))") (auto simp: AddConnection_def lock_conns_def Let_def put_connection_def)
  have "s2 = added_state ref ?k i ?s1"
    using AddConnection_fresh [OF ok1 lk, of i] none i add k(1) by simp
  moreover have "GatewayConnections (added_state ref ?k i ?s1) = GatewayConnections s"
    by (simp add: added_state_def put_connection_def)
  ultimately show ?thesis using gw_inv_added [OF assms(1,2) none i k] t by simp
qed

section \<open>Reachable gateways\<close>

lemma gw_inv_init: "gw_init s \<Longrightarrow> gw_inv s"
  by (auto simp: gw_init_def gw_inv_def gw_ok_def rooms_ok_def shards_ok_def open_ok_def client_ok_def NewGateway_def
      NewDistributor_def NewRoomserverClient_def client_queue_def client_capacity_def make_chan_def)

lemma gw_inv_step:
  assumes "gw_inv s" and "gw_step c ord s t"
  shows "gw_inv t"
  using assms(2,1)
proof cases
  case (step_accept ref lib v up msg connID n now out)
  show ?thesis
  proof (cases "t = s")
    case True
    with assms(1) show ?thesis by simp
  next
    case False
    then obtain u where "accept_connection c ref u connID n now s = Inr t"
      using step_accept(2) by (auto simp: handleWebSocket_def split: if_splits prod.splits sum.splits)
    then show ?thesis by (rule gw_inv_accept [OF assms(1) step_accept(1)])
  qed
next
  case (step_read ref input now)
  then show ?thesis
    using gw_inv_Close [OF assms(1)] gw_inv_keeps [OF assms(1) keeps_handleMessage]
    by (auto simp: readLoop_def split: option.splits if_splits)
next
  case (step_close ref now)
  then show ?thesis by (rule gw_inv_Close [OF assms(1)])
qed (auto intro!: gw_inv_keeps [OF assms(1)] keeps_handleEnvelope keeps_handlePushMessage keeps_run_writeLoop
    keeps_stream(1-3) keeps_fields keeps_refl intro: keeps_stream(4))

interpretation gwi: inductive_invariant gw_init "gw_step c ord" gw_inv for c ord
  by unfold_locales (auto intro: gw_inv_init gw_inv_step)


definition u_auth_frame :: Frame where
  "u_auth_frame = \<lparr>MsgType = MsgTypeAuth, Seq = 0, Payload = put_fields [[], str_field ''u'']\<rparr>"

lemma accept_u:
  "handleWebSocket sample_codec lib None True (Some (EncodeFrame u_auth_frame)) 0 ''id'' 16 now sample_gateway =
     (sendAuthResp sample_codec ''g'' True ''u'' ErrCodeSuccess [], Inr (connected_gateway\<lparr>GatewayConnections := 1\<rparr>))"
proof -
  have "frame_ok u_auth_frame" by (simp add: frame_ok_def u_auth_frame_def length_put_fields str_field_def)
  then have "DecodeFrame (EncodeFrame u_auth_frame) = Inr u_auth_frame"
    using DecodeFrame_iff [of "EncodeFrame u_auth_frame"] by auto
  moreover have "decAuthReq sample_codec (Payload u_auth_frame) = Some ([], ''u'')"
    by (simp add: sample_codec_def u_auth_frame_def) (simp add: field_str_def)
  moreover have "GatewayConnections connected_gateway = 0" "GatewayID sample_gateway = ''g''"
    by (simp_all add: connected_gateway_def added_state_def sample_gateway_def NewGateway_def put_connection_def)
  ultimately show ?thesis
    by (simp add: handleWebSocket_def authenticate_def u_auth_frame_def accept_connection_def connected_gateway_ok(4))
qed


end
