(* ===== verification/Link.thy ===== *)
theory Link
  imports Push_API Gateway_Steps
begin

text \<open>
  A gateway and a roomserver joined by one gRPC stream: what the rounds of the send and receive
  loops carry from one to the other, what a join does at both ends, and what a gateway announces to
  a roomserver that has restarted.
\<close>

section \<open>A gateway and a roomserver on one stream\<close>

text \<open>
  The two servers exchange envelopes over a gRPC stream, which delivers them in order. \<open>upload\<close>
  carries everything the gateway has queued to the roomserver, as rounds of \<open>sendLoop\<close> do, and
  \<open>download\<close> carries everything the roomserver has queued for the stream to the gateway, as rounds
  of \<open>gatewayWriteLoop\<close> do.
\<close>

definition take_uploads :: "GatewayServer \<Rightarrow> GatewayServer" where
  "take_uploads g = g\<lparr>roomserverClient := (roomserverClient g)\<lparr>rc_sendCh := (rc_sendCh (roomserverClient g))\<lparr>buf := []\<rparr>\<rparr>\<rparr>"

definition upload :: "codec \<Rightarrow> conn_ref \<Rightarrow> instant \<Rightarrow> GatewayServer \<times> Server \<Rightarrow> (GatewayServer \<times> Server) go" where
  "upload c sref now gs =
     (case gs of (g, s) \<Rightarrow>
        go_bind (go_fold (\<lambda>e. handleGatewayMessage c sref e now) (client_queue (roomserverClient g)) s)
          (\<lambda>s1. Inr (take_uploads g, s1)))"

definition download :: "codec \<Rightarrow> range_order \<Rightarrow> conn_ref \<Rightarrow> instant \<Rightarrow> GatewayServer \<times> Server \<Rightarrow> GatewayServer \<times> Server" where
  "download c ord sref now gs =
     (case gs of (g, s) \<Rightarrow>
        (case fmlookup (conns s) sref of
           None \<Rightarrow> (g, s)
         | Some conn \<Rightarrow> (recvLoop c ord now (conn_queue conn) g,
                         put_conn sref (conn\<lparr>gc_sendCh := (gc_sendCh conn)\<lparr>buf := []\<rparr>\<rparr>) s)))"

definition exchange :: "codec \<Rightarrow> range_order \<Rightarrow> conn_ref \<Rightarrow> instant \<Rightarrow> instant \<Rightarrow> GatewayServer \<times> Server \<Rightarrow> (GatewayServer \<times> Server) go" where
  "exchange c ord sref up down gs = go_bind (upload c sref up gs) (\<lambda>gs1. Inr (download c ord sref down gs1))"

text \<open>The upload is what repeated rounds of \<open>sendLoop\<close> hand over.\<close>

fun drain :: "nat \<Rightarrow> GatewayServer \<Rightarrow> Envelope list \<times> GatewayServer" where
  "drain 0 g = ([], g)"
| "drain (Suc n) g =
     (case sendLoop g of None \<Rightarrow> ([], g)
      | Some (e, g1) \<Rightarrow> (case drain n g1 of (es, g2) \<Rightarrow> (e # es, g2)))"

lemma drain_queue:
  "length (client_queue (roomserverClient g)) \<le> n \<Longrightarrow> drain n g = (client_queue (roomserverClient g), take_uploads g)"
proof (induction n arbitrary: g)
  case 0
  then show ?case by (simp add: client_queue_def take_uploads_def)
next
  case (Suc n)
  then show ?case by (cases "buf (rc_sendCh (roomserverClient g))")
      (simp_all add: sendLoop_def client_queue_def take_uploads_def)
qed

lemma take_uploads_frame [simp]:
  "GatewayID (take_uploads g) = GatewayID g" "localRooms (take_uploads g) = localRooms g"
  "connections (take_uploads g) = connections g" "store (take_uploads g) = store g"
  "knownEpochs (take_uploads g) = knownEpochs g" "distributors (take_uploads g) = distributors g"
  "connsMu (take_uploads g) = connsMu g" "client_queue (roomserverClient (take_uploads g)) = []"
  "client_capacity (roomserverClient (take_uploads g)) = client_capacity (roomserverClient g)"
  by (simp_all add: take_uploads_def client_queue_def client_capacity_def)

lemma gw_ok_take_uploads [simp]: "gw_ok (take_uploads g) = gw_ok g"
  by (simp add: gw_ok_def)

section \<open>Joining a room\<close>

definition join_ok_frame :: "codec \<Rightarrow> bytes" where
  "join_ok_frame c = EncodeFrame \<lparr>MsgType = MsgTypeJoinRoomResp, Seq = 0, Payload = Encode c (WCodeResp True ErrCodeSuccess '''')\<rparr>"

lemma handle_join_ack:
  assumes "codec_ok c"
  shows "handleEnvelope c ord (join_ack c req) now g =
    OnJoinRoomAck c (jr_UserID req) (jr_RoomID req) True ErrCodeSuccess '''' now g"
  using assms by (simp add: handleEnvelope_def join_ack_def handleJoinRoomAck_def)

lemma client_join_request:
  assumes "DecodeFrame data = Inr f" and "MsgType f = MsgTypeJoinRoom" and "decRoomReq c (Payload f) = Some r"
    and "gw_status g = StatusNormal" and "conn_user ref g = u"
  shows "handleMessage c ord acc ref data now g =
    client_send InternalMsgJoinRoom
      (Encode c (WJoinRoomRequest \<lparr>jr_UserID = u, jr_RoomID = r, jr_GatewayID = GatewayID g\<rparr>)) (set_join ref JoinStatePending r g)"
  using assms by (simp add: handleMessage_def Gateway_Server.handleJoinRoom_def SendJoinRoom_def)

lemma join_carried:
  assumes "codec_ok c" and "gw_ok g" and "gw_status g = StatusNormal"
    and "GetConnection u g = Some ref" and "fmlookup (store g) ref = Some conn"
    and "client_queue (roomserverClient g) = []" and "0 < client_capacity (roomserverClient g)"
    and "registry_ok s" and "server_wf s" and "fmlookup (conns s) sref = Some sconn" and "\<not> gc_closed sconn"
    and "conn_queue sconn = []"
    and "DecodeFrame data = Inr f" and "MsgType f = MsgTypeJoinRoom" and "decRoomReq c (Payload f) = Some r"
  shows "\<exists>g' s' conn'. exchange c ord sref t1 t2 (handleMessage c ord acc ref data t0 g, s) = Inr (g', s')
    \<and> memb r u s' = Some (new_member u (GatewayID g) t1) \<and> GetUserRoom u (sessionSvc s') = r
    \<and> in_room r u g' \<and> fmlookup (store g') ref = Some conn'
    \<and> cn_JoinState conn' = JoinStateConfirmed \<and> cn_RoomID conn' = r
    \<and> buf (sendCh conn') = buf (sendCh conn)
        @ (if length (buf (sendCh conn)) < cap (sendCh conn) then [join_ok_frame c] else [])"
proof -
  let ?req = "\<lparr>jr_UserID = u, jr_RoomID = r, jr_GatewayID = GatewayID g\<rparr>"
  define g1 where "g1 = client_send InternalMsgJoinRoom (Encode c (WJoinRoomRequest ?req)) (set_join ref JoinStatePending r g)"
  define s1 where "s1 = JoinRoom u r (GatewayID g) t1 s"
  define g2 where "g2 = take_uploads g1"
  have "conn_user ref g = u"
    using gw_okD(3) [OF assms(2), of u ref] assms(4,5) by (auto simp: conn_user_def GetConnection_def)
  then have msg: "handleMessage c ord acc ref data t0 g = g1"
    unfolding g1_def by (rule client_join_request [OF assms(13,14,15,3)])
  have q1: "client_queue (roomserverClient g1) = [join_envelope c ?req]"
    using rq.content_sends [of "roomserverClient g" "[join_envelope c ?req]"] assms(6,7)
    by (simp add: g1_def join_envelope_def)
  have ok: "conns_ok s" using assms(8) by (simp add: registry_ok_def)
  have cap: "0 < cap (gc_sendCh sconn)"
    using ok assms(10,11) by (simp add: conns_ok_def conn_ok_def)
  have "upload c sref t1 (g1, s) = Inr (g2, put_conn sref (conn_send sconn (join_ack c ?req)) s1)"
    using handle_join_envelope [OF assms(1) ok assms(10), of ?req t1] by (simp add: upload_def q1 s1_def g2_def)
  moreover have "conn_queue (conn_send sconn (join_ack c ?req)) = [join_ack c ?req]"
    using assms(11,12) cap by (simp add: conn_send_def conn_queue_def)
  moreover define g3 where "g3 = OnJoinRoomAck c u r True ErrCodeSuccess '''' t2 g2"
  ultimately obtain s' where ex: "exchange c ord sref t1 t2 (g1, s) = Inr (g3, s')"
    and s': "roomSvc s' = roomSvc s1" "sessionSvc s' = sessionSvc s1"
    using handle_join_ack [OF assms(1)] by (simp add: exchange_def download_def recvLoop_def g3_def)
  have g2: "fmlookup (connections g2) u = Some ref"
    "fmlookup (store g2) ref = Some (conn\<lparr>cn_JoinState := JoinStatePending, cn_RoomID := r\<rparr>)"
    using assms(4,5) by (simp_all add: g2_def g1_def GetConnection_def)
  let ?conn' = "snd (Send (join_ok_frame c) t2 (conn\<lparr>cn_JoinState := JoinStateConfirmed, cn_RoomID := r\<rparr>))"
  have g3: "g3 = sendJoinRoomResp c ref True ErrCodeSuccess '''' t2 (AddUserToRoom r u (set_join ref JoinStateConfirmed r g2))"
    using g2 by (simp add: g3_def OnJoinRoomAck_def GetConnection_def)
  then have "fmlookup (store g3) ref = Some ?conn'"
    using g2 by (simp add: sendJoinRoomResp_def join_ok_frame_def)
  moreover have "in_room r u g3"
    using in_room_cong [of g3 "AddUserToRoom r u (set_join ref JoinStateConfirmed r g2)"]
    by (simp add: g3 sendJoinRoomResp_def gw_simps)
  moreover have "buf (sendCh ?conn') = buf (sendCh conn)
        @ (if length (buf (sendCh conn)) < cap (sendCh conn) then [join_ok_frame c] else [])"
    by (simp add: Send_def)
  moreover have "memb r u s' = Some (new_member u (GatewayID g) t1)" "GetUserRoom u (sessionSvc s') = r"
    using assms(9) by (simp_all add: s' s1_def server_simps GetUserRoom_def updated_session_def new_session_def split: option.split)
  ultimately show ?thesis
    unfolding msg ex by (intro exI [of _ g3] exI [of _ s'] exI [of _ ?conn']) simp
qed

section \<open>A restarted roomserver\<close>

text \<open>The roomserver's side of a resync: batches, then the completion marker.\<close>

lemma JoinRoom_recovery [simp]: "JoinRoom u r g now (s\<lparr>recovery := x\<rparr>) = (JoinRoom u r g now s)\<lparr>recovery := x\<rparr>"
  by (simp add: JoinRoom_def Let_def)

lemma resync_users_recovery [simp]:
  "resync_users g ps now (s\<lparr>recovery := x\<rparr>) = (resync_users g ps now s)\<lparr>recovery := x\<rparr>"
  by (induction ps arbitrary: s) simp_all

lemma recovery_resync_users [simp]: "recovery (resync_users g ps now s) = recovery s"
  by (induction ps arbitrary: s) (simp_all add: JoinRoom_def Let_def)

lemma handle_batches:
  assumes "codec_ok c"
  shows "go_fold (\<lambda>e. handleGatewayMessage c sref e now) (map (batch_envelope c g) bs) s =
    Inr ((resync_users g (concat bs) now s)
      \<lparr>recovery := fold (\<lambda>b. OnUsersReceived (int (length b))) bs (recovery s)\<rparr>)"
proof (induction bs arbitrary: s)
  case Nil
  then show ?case by simp
next
  case (Cons b bs)
  have "handleGatewayMessage c sref (batch_envelope c g b) now s =
      Inr ((resync_users g b now s)\<lparr>recovery := OnUsersReceived (int (length b)) (recovery s)\<rparr>)"
    using assms by (simp add: handleGatewayMessage_def batch_envelope_def internal_msg_types handleBatchReSync_def Let_def)
  with Cons show ?case by simp
qed

lemma OnUsersReceived_fold:
  "receivedUsers (fold (\<lambda>b. OnUsersReceived (int (length b))) bs x) = receivedUsers x + of_nat (length (concat bs))"
  by (induction bs arbitrary: x) (simp_all add: OnUsersReceived_def)

text \<open>A gateway that connects to a new roomserver announces itself, learns the epoch and starts a resync.\<close>

definition fresh_server :: "string \<Rightarrow> duration \<Rightarrow> int \<Rightarrow> instant \<Rightarrow> Server" where
  "fresh_server i tmo vnodes start = snd (Channel_open (NewServer i tmo vnodes start))"

lemma fresh_server:
  "conns_ok (fresh_server i tmo v start)" "fmlookup (conns (fresh_server i tmo v start)) 0 = Some idle_conn"
  "gateways (fresh_server i tmo v start) = fmempty" "roomSvc (fresh_server i tmo v start) = NewRoomService"
  "sessionSvc (fresh_server i tmo v start) = NewSessionService" "ServerID (fresh_server i tmo v start) = i"
  "epoch (fresh_server i tmo v start) = word_of_int (UnixMilli start)"
  "recovery (fresh_server i tmo v start) = NewRecoveryState tmo start"
  by (simp_all add: fresh_server_def Channel_open_def NewServer_def conns_ok_def conn_ok_def make_chan_def idle_conn_def)

lemma stream_up_effect:
  assumes "client_queue (roomserverClient g) = []" and "0 < client_capacity (roomserverClient g)"
  shows "client_queue (roomserverClient (snd (stream_up c g))) = [\<lparr>env_MsgType = InternalMsgGatewayInfo, env_Payload =
      Encode c (WGatewayInfo \<lparr>gi_GatewayID = GatewayID g, gi_Addr = Addr g, gi_Connections = 0\<rparr>)\<rparr>]"
    "client_capacity (roomserverClient (snd (stream_up c g))) = client_capacity (roomserverClient g)"
    "localRooms (snd (stream_up c g)) = localRooms g" "GatewayID (snd (stream_up c g)) = GatewayID g"
    "knownEpochs (snd (stream_up c g)) = knownEpochs g"
  using assms
  by (simp_all add: stream_up_def SetNormal_def sendGatewayInfo_def client_send_def Gateway_Server.send_def client_queue_def
      client_capacity_def Let_def)

lemma announce_exchange:
  assumes "codec_ok c" and "client_queue (roomserverClient g) = []" and "0 < client_capacity (roomserverClient g)"
    and "epoch_of i g < word_of_int (UnixMilli start)"
  shows "\<exists>g2 s1. exchange c ord 0 t1 t2 (snd (stream_up c g), fresh_server i tmo v start) = Inr (startProgressiveReSync c ord g2, s1)
    \<and> localRooms g2 = localRooms g \<and> GatewayID g2 = GatewayID g \<and> client_queue (roomserverClient g2) = []
    \<and> client_capacity (roomserverClient g2) = client_capacity (roomserverClient g)
    \<and> epoch_of i g2 = word_of_int (UnixMilli start)
    \<and> roomSvc s1 = NewRoomService \<and> sessionSvc s1 = NewSessionService \<and> recovery s1 = NewRecoveryState tmo start
    \<and> fmlookup (gateways s1) (GatewayID g) = Some 0 \<and> fmlookup (conns s1) 0 \<noteq> None"
proof -
  let ?g1 = "snd (stream_up c g)" and ?s = "fresh_server i tmo v start"
  let ?info = "\<lparr>gi_GatewayID = GatewayID g, gi_Addr = Addr g, gi_Connections = 0\<rparr>"
  let ?k = "conn_send (registered_conn ?info idle_conn) (Registry.epoch_envelope c ?s)"
  let ?s1 = "(put_conn 0 ?k ?s)\<lparr>gateways := fmupd (GatewayID g) 0 (gateways ?s)\<rparr>"
  let ?n = "\<lparr>en_ServerID = i, en_Epoch = word_of_int (UnixMilli start), en_Timestamp = 0\<rparr>"
  note up = stream_up_effect [OF assms(2,3), of c]
  have "handleGatewayInfo c 0 (Encode c (WGatewayInfo ?info)) ?s = Inr ?s1"
    using handleGatewayInfo_fresh [OF fresh_server(1,2), of c "Encode c (WGatewayInfo ?info)" ?info] assms(1)
    by (simp add: fresh_server)
  then have upl: "upload c 0 t1 (?g1, ?s) = Inr (take_uploads ?g1, ?s1)"
    by (simp add: upload_def up handleGatewayMessage_def)
  have q: "conn_queue ?k = [Roomserver_Client.epoch_envelope c ?n]"
    by (simp add: conn_queue_def conn_send_def registered_conn_def idle_conn_def make_chan_def
        Registry.epoch_envelope_def Roomserver_Client.epoch_envelope_def fresh_server)
  define g2 where "g2 = snd (handleEpochNotify c (Encode c (WEpochNotify ?n)) (take_uploads ?g1))"
  have ep: "epoch_of i (take_uploads ?g1) = epoch_of i g" by (simp add: epoch_of_def up)
  have "handleEnvelope c ord (Roomserver_Client.epoch_envelope c ?n) t2 (take_uploads ?g1) = startProgressiveReSync c ord g2"
    using handle_epoch_envelope(2) [OF assms(1), of ord ?n t2 "take_uploads ?g1"] assms(4) ep
    by (simp add: g2_def Let_def)
  then have ex: "\<exists>s1. exchange c ord 0 t1 t2 (?g1, ?s) = Inr (startProgressiveReSync c ord g2, s1)
      \<and> roomSvc s1 = roomSvc ?s \<and> sessionSvc s1 = sessionSvc ?s \<and> recovery s1 = recovery ?s
      \<and> gateways s1 = fmupd (GatewayID g) 0 (gateways ?s) \<and> fmlookup (conns s1) 0 \<noteq> None"
    by (simp add: exchange_def upl download_def recvLoop_def q)
  have "epoch_of i g2 = word_of_int (UnixMilli start)"
    using handleEpochNotify_eq(2) [OF assms(1), of i ?n "take_uploads ?g1"] assms(4) ep by (simp add: g2_def max_def less_imp_le)
  moreover have "localRooms g2 = localRooms g" "GatewayID g2 = GatewayID g" "client_queue (roomserverClient g2) = []"
    "client_capacity (roomserverClient g2) = client_capacity (roomserverClient g)"
    using assms(1) by (simp_all add: g2_def handleEpochNotify_def up Let_def)
  ultimately show ?thesis using ex by (auto simp: fresh_server)
qed

text \<open>The number of batches is bounded by the number of pairs.\<close>

lemma batched_length:
  assumes "batched ps bs" and "bs \<noteq> []"
  shows "(length bs - 1) * 1000 < length ps"
proof -
  have "length (concat (butlast bs)) = length (butlast bs) * 1000"
    using assms(1) by (simp add: batched_def batchSize_def length_concat sum_list_triv
        map_cong [of "butlast bs" "butlast bs" length "\<lambda>_. 1000"])
  moreover have "concat bs = concat (butlast bs) @ last bs"
    using append_butlast_last_id [OF assms(2)] by (metis concat.simps concat_append append_Nil2)
  moreover have "last bs \<noteq> []" using assms by (simp add: batched_def)
  moreover have "concat bs = ps" using assms(1) by (simp add: batched_def)
  ultimately show ?thesis by (cases "last bs") auto
qed

lemma resync_exchange:
  assumes "codec_ok c" and "client_queue (roomserverClient g) = []" and "client_capacity (roomserverClient g) = 10000"
    and "length (confirmed_pairs ord g) \<le> 9999000" and "fmlookup (conns s) sref \<noteq> None"
  shows "\<exists>s'. upload c sref t (startProgressiveReSync c ord g, s) = Inr (take_uploads (startProgressiveReSync c ord g), s')
    \<and> roomSvc s' = roomSvc (resync_users (GatewayID g) (confirmed_pairs ord g) t s)
    \<and> sessionSvc s' = sessionSvc (resync_users (GatewayID g) (confirmed_pairs ord g) t s)
    \<and> receivedUsers (recovery s') = receivedUsers (recovery s) + of_nat (length (confirmed_pairs ord g))
    \<and> completedGateways (recovery s') = completedGateways (recovery s) + 1"
proof -
  let ?ps = "confirmed_pairs ord g"
  obtain bs where
    eq: "startProgressiveReSync c ord g = g\<lparr>roomserverClient := sends (roomserverClient g)
      (map (batch_envelope c (GatewayID g)) bs @ [complete_envelope c (GatewayID g) (length ?ps)])\<rparr>"
    and bs: "batched ?ps bs"
    using startProgressiveReSync_eq by blast
  let ?es = "map (batch_envelope c (GatewayID g)) bs @ [complete_envelope c (GatewayID g) (length ?ps)]"
  have "length ?es \<le> 10000" using batched_length [OF bs] assms(4) by (cases bs) auto
  then have q: "client_queue (roomserverClient (startProgressiveReSync c ord g)) = ?es"
    using rq.nothing_dropped [of "roomserverClient g" ?es] assms(2,3) by (simp add: eq del: foldl_append)
  define s1 where "s1 = (resync_users (GatewayID g) ?ps t s)
      \<lparr>recovery := fold (\<lambda>b. OnUsersReceived (int (length b))) bs (recovery s)\<rparr>"
  have cat: "concat bs = ?ps" using bs by (simp add: batched_def)
  have "handleGatewayMessage c sref (complete_envelope c (GatewayID g) (length ?ps)) t s1 =
      Inr (s1\<lparr>recovery := OnGatewayComplete (recovery s1)\<rparr>)"
    using assms(1)
    by (simp add: handleGatewayMessage_def complete_envelope_def internal_msg_types handleReSyncComplete_def)
  then have "upload c sref t (startProgressiveReSync c ord g, s) =
      Inr (take_uploads (startProgressiveReSync c ord g), s1\<lparr>recovery := OnGatewayComplete (recovery s1)\<rparr>)"
    using handle_batches [OF assms(1), of sref t "GatewayID g" bs s]
    by (simp add: upload_def q go_fold_append cat s1_def del: recovery_frame)
  moreover have "completedGateways (fold (\<lambda>b. OnUsersReceived (int (length b))) bs x) = completedGateways x" for x
    by (induction bs arbitrary: x) simp_all
  moreover have "receivedUsers (OnGatewayComplete x) = receivedUsers x" for x
    by (simp add: OnGatewayComplete_def finish_def Let_def)
  ultimately show ?thesis
    using OnUsersReceived_fold [of bs "recovery s"] by (simp add: s1_def cat)
qed

lemma distinct_confirmed_users:
  assumes "go_range ord" and "one_room_each g"
  shows "distinct (map up_UserID (confirmed_pairs ord g))"
proof -
  have "inj_on up_UserID (set (confirmed_pairs ord g))"
    using assms(2) by (auto simp: inj_on_def in_set_confirmed_pairs [OF assms(1)] one_room_each_def)
  then show ?thesis using distinct_confirmed_pairs [OF assms(1)] by (simp add: distinct_map)
qed

text \<open>A resync into an empty roomserver gives exactly the gateway's rooms.\<close>

lemma resync_into_empty:
  assumes "go_range ord" and "one_room_each g" and "server_wf s" and none: "\<And>r u. memb r u s = None" "\<And>u. sess u s = None"
    and t_def: "t = resync_users (GatewayID g) (confirmed_pairs ord g) now s"
  shows "memb r u t = (if in_room r u g then Some (new_member u (GatewayID g) now) else None)"
    and "in_room r u g \<Longrightarrow> sess u t = Some (updated_session u r (GatewayID g) now None)"
proof -
  note listed = resync_users_listed [OF assms(3) distinct_confirmed_users [OF assms(1,2)]]
  have at: "memb q u t = (if q = r then Some (new_member u (GatewayID g) now) else None)
      \<and> sess u t = Some (updated_session u r (GatewayID g) now None)" if r: "in_room r u g" for q r u
    using listed [of "\<lparr>up_UserID = u, up_RoomID = r\<rparr>" "GatewayID g" now] r none
    by (auto simp: t_def in_set_confirmed_pairs [OF assms(1)])
  show "in_room r u g \<Longrightarrow> sess u t = Some (updated_session u r (GatewayID g) now None)" using at by blast
  show "memb r u t = (if in_room r u g then Some (new_member u (GatewayID g) now) else None)"
  proof (cases "\<exists>q. in_room q u g")
    case True
    then obtain q where q: "in_room q u g" by blast
    then have "in_room r u g \<longleftrightarrow> r = q" using assms(2) unfolding one_room_each_def by blast
    then show ?thesis using at [OF q, of r] by simp
  next
    case False
    then have "u \<notin> up_UserID ` set (confirmed_pairs ord g)" by (auto simp: in_set_confirmed_pairs [OF assms(1)])
    then show ?thesis using resync_users_other [OF assms(3)] none False by (simp add: t_def)
  qed
qed

end
