(* ===== verification/Web_Socket.thy ===== *)
theory Web_Socket
  imports Go_Runtime
begin

text \<open>
  A WebSocket connection as its users see it (package \<open>gorilla/websocket\<close>, which is outside the
  repository): messages are read and written whole, and a write or a read may fail.
\<close>

text \<open>
  \<open>incoming\<close> is what the reads return in order, an error or a message; a read with nothing left
  blocks. A socket that is not writable fails every write.
\<close>

record socket =
  incoming :: "bytes option list"
  outgoing :: "bytes list"
  writable :: bool

definition ReadMessage :: "socket \<Rightarrow> (bytes option \<times> socket) option" where
  "ReadMessage s = (case incoming s of [] \<Rightarrow> None | m # ms \<Rightarrow> Some (m, s\<lparr>incoming := ms\<rparr>))"

definition WriteMessage :: "bytes \<Rightarrow> socket \<Rightarrow> bool \<times> socket" where
  "WriteMessage data s = (if writable s then (True, s\<lparr>outgoing := outgoing s @ [data]\<rparr>) else (False, s))"

text \<open>After \<open>Close\<close> reads and writes fail.\<close>

definition CloseSocket :: "socket \<Rightarrow> socket" where
  "CloseSocket s = s\<lparr>incoming := [None], writable := False\<rparr>"

end
