(* ===== verification/Test_Client.thy ===== *)
theory Test_Client
  imports Connection Sample_Codec Web_Socket
begin

text \<open>
  The test clients (\<open>cmd/testclient/main.go\<close> and \<open>cmd/test_client/main.go\<close>): the handshake, the
  requests a client sends and the loops that receive and show what the gateway sends. The
  WebSocket library and msgpack are outside the repository: what a read returns is part of the
  socket, and the client's codec is a parameter with the contract \<open>client_codec_ok\<close>.
\<close>

section \<open>The client's codec\<close>

text \<open>
  The client marshals string-keyed maps, whose shapes are the constructors here, and unmarshals
  into structs. \<open>cMap\<close> tells whether a payload unmarshals into a map, \<open>cSuccess\<close> is the field
  \<open>success\<close> of a payload unmarshalled with the error ignored.
\<close>

datatype 'v client_wire =
    CAuth string user_id
  | CRoom room_id
  | CHeartbeat room_id int
  | CData "(string \<times> 'v) list"

record 'v client_codec =
  cMarshal :: "'v client_wire \<Rightarrow> bytes option"
  cAuthResp :: "bytes \<Rightarrow> (bool \<times> user_id \<times> gateway_id \<times> int \<times> string) option"
  cJoinResp :: "bytes \<Rightarrow> (bool \<times> room_id \<times> int \<times> string) option"
  cMap :: "bytes \<Rightarrow> bool"
  cSuccess :: "bytes \<Rightarrow> bool"

definition cEncode :: "'v client_codec \<Rightarrow> 'v client_wire \<Rightarrow> bytes" where
  "cEncode k v = (case cMarshal k v of Some b \<Rightarrow> b | None \<Rightarrow> [])"

text \<open>
  What client and gateway rely on: a request map unmarshals into the request struct of the gateway,
  and the response structs of the gateway unmarshal into those of the client, a field that was
  not sent keeping its zero value.
\<close>

definition client_codec_ok :: "codec \<Rightarrow> 'v client_codec \<Rightarrow> bool" where
  "client_codec_ok c k \<longleftrightarrow>
     (\<forall>t u. \<exists>b. cMarshal k (CAuth t u) = Some b \<and> decAuthReq c b = Some (t, u)) \<and>
     (\<forall>r. \<exists>b. cMarshal k (CRoom r) = Some b \<and> decRoomReq c b = Some r) \<and>
     (\<forall>r t. \<exists>b. cMarshal k (CHeartbeat r t) = Some b \<and> decRoomReq c b = Some r) \<and>
     (\<forall>ok u g code msg. \<exists>b. Marshal c (WAuthResp ok u g code msg) = Some b
        \<and> cAuthResp k b = Some (ok, u, g, code, msg) \<and> cSuccess k b = ok) \<and>
     (\<forall>ok code msg. \<exists>b. Marshal c (WCodeResp ok code msg) = Some b
        \<and> cJoinResp k b = Some (ok, '''', code, msg) \<and> cSuccess k b = ok)"

section \<open>The client\<close>

record TestClient =
  seqCounter :: uint64
  sock :: socket

datatype client_fault =
    MarshalFailed
  | SendFailed
  | RecvFailed
  | DecodeFailed client_error
  | UnexpectedResponse uint32
  | UnmarshalFailed
  | Refused int string

section \<open>Frames and sequence numbers\<close>

definition nextSeq :: "TestClient \<Rightarrow> uint64 \<times> TestClient" where
  "nextSeq cl = (seqCounter cl + 1, cl\<lparr>seqCounter := seqCounter cl + 1\<rparr>)"

definition sendFrame :: "Frame \<Rightarrow> TestClient \<Rightarrow> bool \<times> TestClient" where
  "sendFrame f cl = (case WriteMessage (client_encodeFrame f) (sock cl) of (ok, s) \<Rightarrow> (ok, cl\<lparr>sock := s\<rparr>))"

definition recvFrame :: "TestClient \<Rightarrow> ((client_fault + Frame) \<times> TestClient) option" where
  "recvFrame cl =
     (case ReadMessage (sock cl) of
        None \<Rightarrow> None
      | Some (None, s) \<Rightarrow> Some (Inl RecvFailed, cl\<lparr>sock := s\<rparr>)
      | Some (Some data, s) \<Rightarrow>
          Some (case client_decodeFrame data of Inl e \<Rightarrow> Inl (DecodeFailed e) | Inr f \<Rightarrow> Inr f, cl\<lparr>sock := s\<rparr>))"

section \<open>Requests\<close>

text \<open>
  \<open>authenticate\<close> and \<open>joinRoom\<close> have one shape: marshal the request, send it, wait for one frame and
  check its type. \<open>None\<close> means that the call waits for an answer that does not come.
\<close>

definition request ::
  "bytes option \<Rightarrow> uint32 \<Rightarrow> uint32 \<Rightarrow> TestClient \<Rightarrow> ((client_fault + bytes) \<times> TestClient) option" where
  "request marshalled reqType respType cl =
     (case marshalled of
        None \<Rightarrow> Some (Inl MarshalFailed, cl)
      | Some payload \<Rightarrow>
          (case nextSeq cl of (q, cl1) \<Rightarrow>
           case sendFrame \<lparr>MsgType = reqType, Seq = q, Payload = payload\<rparr> cl1 of (ok, cl2) \<Rightarrow>
             if \<not> ok then Some (Inl SendFailed, cl2)
             else (case recvFrame cl2 of
                     None \<Rightarrow> None
                   | Some (Inl e, cl3) \<Rightarrow> Some (Inl e, cl3)
                   | Some (Inr f, cl3) \<Rightarrow>
                       if MsgType f \<noteq> respType then Some (Inl (UnexpectedResponse (MsgType f)), cl3)
                       else Some (Inr (Payload f), cl3))))"

text \<open>The result carries what the client logs of a positive answer.\<close>

definition client_authenticate ::
  "'v client_codec \<Rightarrow> string \<Rightarrow> user_id \<Rightarrow> TestClient \<Rightarrow> ((client_fault + user_id \<times> gateway_id) \<times> TestClient) option" where
  "client_authenticate k token userID cl =
     (case request (cMarshal k (CAuth token userID)) MsgTypeAuth MsgTypeAuthResp cl of
        None \<Rightarrow> None
      | Some (Inl e, cl1) \<Rightarrow> Some (Inl e, cl1)
      | Some (Inr payload, cl1) \<Rightarrow>
          Some (case cAuthResp k payload of
                  None \<Rightarrow> Inl UnmarshalFailed
                | Some (success, u, g, code, message) \<Rightarrow>
                    if \<not> success then Inl (Refused code message) else Inr (u, g), cl1))"

definition client_joinRoom :: "'v client_codec \<Rightarrow> room_id \<Rightarrow> TestClient \<Rightarrow> ((client_fault + room_id) \<times> TestClient) option" where
  "client_joinRoom k roomID cl =
     (case request (cMarshal k (CRoom roomID)) MsgTypeJoinRoom MsgTypeJoinRoomResp cl of
        None \<Rightarrow> None
      | Some (Inl e, cl1) \<Rightarrow> Some (Inl e, cl1)
      | Some (Inr payload, cl1) \<Rightarrow>
          Some (case cJoinResp k payload of
                  None \<Rightarrow> Inl UnmarshalFailed
                | Some (success, r, code, message) \<Rightarrow>
                    if \<not> success then Inl (Refused code message) else Inr r, cl1))"

text \<open>
  \<open>leaveRoom\<close> waits two seconds for an answer; a read with nothing to read then fails. The flag says
  whether the client logs that it has left.
\<close>

definition client_leaveRoom :: "'v client_codec \<Rightarrow> room_id \<Rightarrow> TestClient \<Rightarrow> bool \<times> TestClient" where
  "client_leaveRoom k roomID cl =
     (case nextSeq cl of (q, cl1) \<Rightarrow>
      case sendFrame \<lparr>MsgType = MsgTypeLeaveRoom, Seq = q, Payload = cEncode k (CRoom roomID)\<rparr> cl1 of (_, cl2) \<Rightarrow>
      case recvFrame cl2 of
        None \<Rightarrow> (False, cl2)
      | Some (Inl e, cl3) \<Rightarrow> (False, cl3)
      | Some (Inr f, cl3) \<Rightarrow> (MsgType f = MsgTypeLeaveRoomResp, cl3))"

definition sendHeartbeat :: "'v client_codec \<Rightarrow> room_id \<Rightarrow> instant \<Rightarrow> TestClient \<Rightarrow> TestClient" where
  "sendHeartbeat k roomID now cl =
     (case nextSeq cl of (q, cl1) \<Rightarrow>
        snd (sendFrame \<lparr>MsgType = MsgTypeHeartbeat, Seq = q,
               Payload = cEncode k (CHeartbeat roomID (now div millisecond))\<rparr> cl1))"

section \<open>Receiving\<close>

datatype log_entry = LogPush uint64 bytes | LogBiz uint64 bytes | LogUndecodable | LogUnknown uint32 | LogLeft | LogServerClosed

definition client_handleMessage :: "'v client_codec \<Rightarrow> Frame \<Rightarrow> log_entry" where
  "client_handleMessage k f =
     (if MsgType f = MsgTypePushMessage
      then if cMap k (Payload f) then LogPush (Seq f) (Payload f) else LogUndecodable
      else if MsgType f = MsgTypeBizResponse
      then if cMap k (Payload f) then LogBiz (Seq f) (Payload f) else LogUndecodable
      else LogUnknown (MsgType f))"

text \<open>The goroutines after the handshake: the receive loop, the heartbeat loop and the main loop.\<close>

record session =
  ss_client :: TestClient
  ss_msgCh :: "Frame chan"
  ss_log :: "log_entry list"
  ss_heartbeat :: bool
  ss_exited :: bool

definition start_session :: "TestClient \<Rightarrow> session" where
  "start_session cl = \<lparr>ss_client = cl, ss_msgCh = make_chan 100, ss_log = [], ss_heartbeat = True, ss_exited = False\<rparr>"

text \<open>
  One round of \<open>receiveLoop\<close>; after an error it closes the channel and ends. A frame for which the
  channel has no room stays in the goroutine's hands: that round has not happened yet.
\<close>

definition receiveLoop :: "session \<Rightarrow> session" where
  "receiveLoop s =
     (if shut (ss_msgCh s) then s
      else (case recvFrame (ss_client s) of
              None \<Rightarrow> s
            | Some (Inl e, cl) \<Rightarrow> s\<lparr>ss_client := cl, ss_msgCh := (ss_msgCh s)\<lparr>shut := True\<rparr>\<rparr>
            | Some (Inr f, cl) \<Rightarrow>
                if MsgType f = MsgTypeHeartbeatResp then s\<lparr>ss_client := cl\<rparr>
                else if length (buf (ss_msgCh s)) < cap (ss_msgCh s)
                then s\<lparr>ss_client := cl, ss_msgCh := (ss_msgCh s)\<lparr>buf := buf (ss_msgCh s) @ [f]\<rparr>\<rparr>
                else s))"

datatype main_event = Signal | Receive | Deliver | Heartbeat instant

definition main_round :: "'v client_codec \<Rightarrow> room_id \<Rightarrow> main_event \<Rightarrow> session \<Rightarrow> session" where
  "main_round k roomID ev s =
     (if ss_exited s then s
      else (case ev of
          Receive \<Rightarrow> receiveLoop s
        | Heartbeat now \<Rightarrow> if ss_heartbeat s then s\<lparr>ss_client := sendHeartbeat k roomID now (ss_client s)\<rparr> else s
        | Signal \<Rightarrow>
            (case client_leaveRoom k roomID (ss_client s) of
               (left, cl) \<Rightarrow> s\<lparr>ss_client := cl, ss_heartbeat := False, ss_exited := True,
                               ss_log := ss_log s @ (if left then [LogLeft] else [])\<rparr>)
        | Deliver \<Rightarrow>
            (case buf (ss_msgCh s) of
               f # fs \<Rightarrow> s\<lparr>ss_msgCh := (ss_msgCh s)\<lparr>buf := fs\<rparr>, ss_log := ss_log s @ [client_handleMessage k f]\<rparr>
             | [] \<Rightarrow> if shut (ss_msgCh s) then s\<lparr>ss_log := ss_log s @ [LogServerClosed], ss_exited := True\<rparr> else s)))"

definition main_loop :: "'v client_codec \<Rightarrow> room_id \<Rightarrow> main_event list \<Rightarrow> session \<Rightarrow> session" where
  "main_loop k roomID evs s = fold (main_round k roomID) evs s"

section \<open>The scripted client (cmd/test\_client)\<close>

text \<open>
  Its decoder slices the message without comparing lengths. A Go slice expression is bounded by the
  capacity: \<open>spare\<close> are the bytes of the read buffer behind the message.
\<close>

definition simple_DecodeFrame :: "bytes \<Rightarrow> bytes \<Rightarrow> (client_error + Frame) go" where
  "simple_DecodeFrame data spare =
     (if length data < HeaderSize then Inr (Inl FrameTooShort)
      else
        let msgType = Uint32 (take 4 data);
            sq = Uint64 (take 8 (drop 4 data));
            payloadLen = Uint32 (take 4 (drop 12 data))
        in if payloadLen > 0
           then if HeaderSize + unat payloadLen \<le> length data + length spare
                then Inr (Inr \<lparr>MsgType = msgType, Seq = sq, Payload = take (unat payloadLen) (drop HeaderSize (data @ spare))\<rparr>)
                else Inl (Panic ''slice bounds out of range'')
           else Inr (Inr \<lparr>MsgType = msgType, Seq = sq, Payload = []\<rparr>))"

definition simple_EncodeFrame :: "Frame \<Rightarrow> bytes" where
  "simple_EncodeFrame f =
     PutUint32 (MsgType f) @ PutUint64 (Seq f) @ PutUint32 (of_nat (length (Payload f))) @ Payload f"

datatype simple_line =
    ShowAuth bool user_id gateway_id int string
  | ShowJoin bool room_id int string
  | ShowLeave
  | ShowHeartbeat
  | ShowPush
  | ShowOther uint32 uint64 nat
  | ShowDecodeError
  | ShowUnmarshalError

text \<open>What the reading goroutine prints for a frame.\<close>

definition simple_show :: "'v client_codec \<Rightarrow> Frame \<Rightarrow> simple_line" where
  "simple_show k f =
     (if MsgType f = MsgTypeAuthResp
      then (case cAuthResp k (Payload f) of None \<Rightarrow> ShowUnmarshalError | Some (ok, u, g, code, msg) \<Rightarrow> ShowAuth ok u g code msg)
      else if MsgType f = MsgTypeJoinRoomResp
      then (case cJoinResp k (Payload f) of None \<Rightarrow> ShowUnmarshalError | Some (ok, r, code, msg) \<Rightarrow> ShowJoin ok r code msg)
      else if MsgType f = MsgTypeLeaveRoomResp then ShowLeave
      else if MsgType f = MsgTypeHeartbeatResp then ShowHeartbeat
      else if MsgType f = MsgTypePushMessage then ShowPush
      else ShowOther (MsgType f) (Seq f) (length (Payload f)))"

text \<open>The reading goroutine ends at the first read error; a frame that does not decode is skipped.\<close>

fun simple_reader :: "'v client_codec \<Rightarrow> (bytes \<times> bytes) option list \<Rightarrow> simple_line list go" where
  "simple_reader k [] = Inr []"
| "simple_reader k (None # ms) = Inr []"
| "simple_reader k (Some (data, spare) # ms) =
     go_bind (simple_DecodeFrame data spare)
       (\<lambda>r. go_bind (simple_reader k ms)
         (\<lambda>ls. Inr ((case r of Inl e \<Rightarrow> ShowDecodeError | Inr f \<Rightarrow> simple_show k f) # ls)))"

text \<open>The script: an empty token, a join and a heartbeat without payload. It stops at a failed write.\<close>

definition simple_script :: "'v client_codec \<Rightarrow> user_id \<Rightarrow> room_id \<Rightarrow> Frame list" where
  "simple_script k userID roomID =
     [\<lparr>MsgType = MsgTypeAuth, Seq = 1, Payload = cEncode k (CAuth '''' userID)\<rparr>,
      \<lparr>MsgType = MsgTypeJoinRoom, Seq = 2, Payload = cEncode k (CRoom roomID)\<rparr>,
      \<lparr>MsgType = MsgTypeHeartbeat, Seq = 3, Payload = []\<rparr>]"

definition simple_main :: "'v client_codec \<Rightarrow> user_id \<Rightarrow> room_id \<Rightarrow> socket \<Rightarrow> socket" where
  "simple_main k userID roomID s =
     fold (\<lambda>f s. snd (WriteMessage (simple_EncodeFrame f) s)) (simple_script k userID roomID) s"

section \<open>Lemmas\<close>

lemma simple_EncodeFrame_eq: "simple_EncodeFrame = EncodeFrame"
  by (simp add: fun_eq_iff simple_EncodeFrame_def EncodeFrame_def)

text \<open>On a complete frame the unchecked decoder agrees with the checked one.\<close>

lemma simple_DecodeFrame_complete:
  assumes "client_decodeFrame data = Inr f"
  shows "simple_DecodeFrame data spare = Inr (Inr f)"
  using assms
  by (auto simp: client_decodeFrame_def simple_DecodeFrame_def Let_def HeaderSize_def split: if_splits)

text \<open>On a frame that was cut short it panics, or returns bytes that were never received.\<close>

lemma simple_DecodeFrame_cut:
  assumes "frame_ok f" and "16 \<le> n" and "n < length (EncodeFrame f)"
  shows "simple_DecodeFrame (take n (EncodeFrame f)) spare =
    (if length (EncodeFrame f) \<le> n + length spare
     then Inr (Inr (f\<lparr>Payload := take (n - 16) (Payload f) @ take (length (EncodeFrame f) - n) spare\<rparr>))
     else Inl (Panic ''slice bounds out of range''))"
proof -
  define k where "k = n - 16"
  have n: "n = 16 + k" and k: "k < length (Payload f)" using assms by (simp_all add: k_def HeaderSize_def)
  define h where "h = PutUint32 (MsgType f) @ PutUint64 (Seq f) @ PutUint32 (of_nat (length (Payload f)))"
  have t: "take n (EncodeFrame f) = h @ take k (Payload f)" and lh: "length h = 16"
    by (simp_all add: n h_def EncodeFrame_def)
  have hf: "take 4 h = PutUint32 (MsgType f)" "take 8 (drop 4 h) = PutUint64 (Seq f)"
      "take 4 (drop 12 h) = PutUint32 (of_nat (length (Payload f)))"
    by (simp_all add: h_def)
  have pos: "(0 :: uint32) < of_nat (length (Payload f))" using assms(1) k by (auto simp: payload_positive)
  have "take (length (Payload f)) (take k (Payload f) @ spare) =
      take k (Payload f) @ take (length (Payload f) - k) spare"
    using k by simp
  then show ?thesis
    unfolding t using assms(1) k lh pos
    by (simp add: simple_DecodeFrame_def HeaderSize_def Let_def hf frame_ok_len n)
qed

text \<open>The two ends of a request that is answered.\<close>

lemma request_answered:
  assumes "writable (sock cl)" and "incoming (sock cl) = Some (EncodeFrame f @ rest) # ms"
    and "MsgType f = respType" and "frame_ok f"
  shows "request (Some payload) reqType respType cl =
    Some (Inr (Payload f), cl\<lparr>seqCounter := seqCounter cl + 1,
      sock := (sock cl)\<lparr>incoming := ms, outgoing := outgoing (sock cl) @
        [EncodeFrame \<lparr>MsgType = reqType, Seq = seqCounter cl + 1, Payload = payload\<rparr>]\<rparr>\<rparr>)"
proof -
  have "length (Payload f) < 2 ^ 32" using assms(4) by (simp add: frame_ok_def)
  then show ?thesis
    using assms by (simp add: request_def nextSeq_def sendFrame_def WriteMessage_def recvFrame_def ReadMessage_def
        client_decodeFrame_append client_encodeFrame_eq)
qed

section \<open>What a client sees of the gateway's batches\<close>

definition shown :: "Frame list list \<Rightarrow> Frame list" where
  "shown groups = filter (\<lambda>f. MsgType f \<noteq> MsgTypeHeartbeatResp) (map hd groups)"

definition packed :: "Frame list list \<Rightarrow> bytes option list" where
  "packed groups = map (\<lambda>g. Some (packMessages (map EncodeFrame g))) groups"

definition sendable :: "Frame list list \<Rightarrow> bool" where
  "sendable groups \<longleftrightarrow> list_all (\<lambda>g. g \<noteq> [] \<and> list_all frame_ok g) groups"

lemma shown_simps [simp]:
  "shown [] = []" "shown (g # gs) = (if MsgType (hd g) = MsgTypeHeartbeatResp then shown gs else hd g # shown gs)"
  by (simp_all add: shown_def)

lemma packed_simps [simp]: "packed [] = []" "packed (g # gs) = Some (packMessages (map EncodeFrame g)) # packed gs"
  by (simp_all add: packed_def)

lemma sendable_simps [simp]: "sendable (g # gs) \<longleftrightarrow> g \<noteq> [] \<and> list_all frame_ok g \<and> sendable gs"
  by (simp add: sendable_def)

lemma recvFrame_packed:
  assumes "incoming (sock cl) = packed (g # gs)" and "sendable (g # gs)"
  shows "recvFrame cl = Some (Inr (hd g), cl\<lparr>sock := (sock cl)\<lparr>incoming := packed gs\<rparr>\<rparr>)"
proof -
  obtain f fs where g: "g = f # fs" using assms(2) by (cases g) auto
  then have "length (Payload f) < 2 ^ 32" using assms(2) by (simp add: frame_ok_def)
  then show ?thesis
    using assms(1) by (simp add: recvFrame_def ReadMessage_def g packMessages_concat client_decodeFrame_append)
qed

text \<open>
  While the client only receives and shows, what it has shown, what waits in its channel and the
  first frames still to come are together the first frames of all messages.
\<close>

definition receiving :: "'v client_codec \<Rightarrow> Frame list list \<Rightarrow> Frame list list \<Rightarrow> session \<Rightarrow> bool" where
  "receiving k groups remaining s \<longleftrightarrow>
     (\<exists>done. ss_log s = map (client_handleMessage k) done \<and> done @ buf (ss_msgCh s) @ shown remaining = shown groups)
     \<and> incoming (sock (ss_client s)) = packed remaining \<and> sendable remaining
     \<and> \<not> shut (ss_msgCh s) \<and> \<not> ss_exited s \<and> 0 < cap (ss_msgCh s)"

lemma receiving_start:
  "incoming (sock cl) = packed groups \<Longrightarrow> sendable groups \<Longrightarrow> receiving k groups groups (start_session cl)"
  by (simp add: receiving_def start_session_def make_chan_def)

lemma receiving_Receive:
  assumes "receiving k groups remaining s"
  shows "\<exists>rem'. receiving k groups rem' (main_round k r Receive s)
    \<and> (buf (ss_msgCh s) = [] \<longrightarrow> rem' = tl remaining)"
proof (cases remaining)
  case Nil
  then have "main_round k r Receive s = s"
    using assms by (simp add: receiving_def main_round_def receiveLoop_def recvFrame_def ReadMessage_def)
  with assms Nil show ?thesis by auto
next
  case (Cons g gs)
  have r: "recvFrame (ss_client s) = Some (Inr (hd g), (ss_client s)\<lparr>sock := (sock (ss_client s))\<lparr>incoming := packed gs\<rparr>\<rparr>)"
    using assms by (intro recvFrame_packed) (simp_all add: receiving_def Cons)
  show ?thesis
  proof (cases "MsgType (hd g) = MsgTypeHeartbeatResp \<or> length (buf (ss_msgCh s)) < cap (ss_msgCh s)")
    case True
    then have "receiving k groups gs (main_round k r Receive s)"
      using assms r by (auto simp: receiving_def main_round_def receiveLoop_def Cons)
    then show ?thesis using Cons by auto
  next
    case False
    then have "main_round k r Receive s = s" "buf (ss_msgCh s) \<noteq> []"
      using assms r by (auto simp: receiving_def main_round_def receiveLoop_def)
    with assms show ?thesis by auto
  qed
qed

lemma receiving_Deliver:
  assumes "receiving k groups remaining s"
  shows "receiving k groups remaining (main_round k r Deliver s)
    \<and> buf (ss_msgCh (main_round k r Deliver s)) = tl (buf (ss_msgCh s))"
proof (cases "buf (ss_msgCh s)")
  case Nil
  then show ?thesis using assms by (auto simp: receiving_def main_round_def)
next
  case (Cons f fs)
  obtain shw where "ss_log s = map (client_handleMessage k) shw" "shw @ f # fs @ shown remaining = shown groups"
    using assms Cons by (auto simp: receiving_def)
  then have "\<exists>shw'. ss_log s @ [client_handleMessage k f] = map (client_handleMessage k) shw'
      \<and> shw' @ fs @ shown remaining = shown groups"
    by (intro exI [of _ "shw @ [f]"]) simp
  then show ?thesis using assms Cons by (auto simp: receiving_def main_round_def)
qed

lemma receiving_rounds:
  assumes "receiving k groups remaining s" and "list_all (\<lambda>ev. ev = Receive \<or> ev = Deliver) evs"
  shows "\<exists>rem'. receiving k groups rem' (main_loop k r evs s)"
  using assms
proof (induction evs arbitrary: s remaining)
  case Nil
  then show ?case by (auto simp: main_loop_def)
next
  case (Cons ev evs)
  then obtain rem' where "receiving k groups rem' (main_round k r ev s)"
    using receiving_Receive receiving_Deliver by fastforce
  with Cons show ?case by (auto simp: main_loop_def)
qed

lemma receiving_all:
  assumes "receiving k groups remaining s" and "buf (ss_msgCh s) = []" and "length remaining \<le> n"
  shows "ss_log (main_loop k r (concat (replicate n [Receive, Deliver])) s) = map (client_handleMessage k) (shown groups)"
  using assms
proof (induction n arbitrary: s remaining)
  case 0
  then show ?case by (auto simp: main_loop_def receiving_def)
next
  case (Suc n)
  let ?t = "main_round k r Receive s"
  have t: "receiving k groups (tl remaining) ?t" using receiving_Receive [OF Suc.prems(1)] Suc.prems(2) by blast
  have "length (buf (ss_msgCh ?t)) \<le> 1"
    using Suc.prems(2) by (simp add: main_round_def receiveLoop_def split: option.split sum.split)
  then have "buf (ss_msgCh (main_round k r Deliver ?t)) = []"
    using receiving_Deliver [OF t, of r] by (cases "buf (ss_msgCh ?t)") auto
  moreover have "receiving k groups (tl remaining) (main_round k r Deliver ?t)"
    using receiving_Deliver [OF t] by blast
  ultimately have "ss_log (main_loop k r (concat (replicate n [Receive, Deliver])) (main_round k r Deliver ?t)) =
      map (client_handleMessage k) (shown groups)"
    using Suc.prems(3) by (intro Suc.IH) auto
  then show ?case by (simp add: main_loop_def)
qed

text \<open>Splitting a mapped list into groups splits the list itself.\<close>

lemma concat_map_groups:
  "concat gs @ rest = map f xs \<Longrightarrow> \<exists>hs ys. gs = map (map f) hs \<and> concat hs @ ys = xs"
proof (induction gs arbitrary: xs)
  case Nil
  then show ?case by auto
next
  case (Cons g gs)
  then obtain us vs where "xs = us @ vs" "g = map f us" "concat gs @ rest = map f vs"
    by (auto simp: append_eq_map_conv)
  with Cons.IH obtain hs ys where "gs = map (map f) hs" "concat hs @ ys = vs" by blast
  with \<open>xs = us @ vs\<close> \<open>g = map f us\<close> show ?case by (intro exI [of _ "us # hs"] exI [of _ ys]) simp
qed

text \<open>C21. From the gateway's queue to the client's screen. When a connection's queue holds encoded frames,
  the write loop groups consecutive frames into messages, at most the batch limit in each, and the
  test client that receives the messages written shows the first frame of each
  message, in order, and nothing of the other frames: at any moment it has shown a prefix of them
  and, once it has run as many rounds as there are messages, all of them (heartbeat responses are
  not shown). With a batch limit of at most one it shows every frame written.\<close>

theorem client_shows_first_of_each_batch:
  assumes "buf (sendCh c) = map EncodeFrame fs" and "list_all frame_ok fs"
    and w: "w = writeLoop batchMax maxTimeouts evs (start_writer c)"
    and "incoming (sock cl) = map (\<lambda>m. Some (fst m)) (w_out w)"
  shows "\<exists>groups rest. concat groups @ rest = fs \<and> map fst (w_out w) = map (\<lambda>g. packMessages (map EncodeFrame g)) groups
    \<and> list_all (\<lambda>g. g \<noteq> [] \<and> length g \<le> max 1 batchMax) groups
    \<and> (\<forall>mevs. list_all (\<lambda>ev. ev = Receive \<or> ev = Deliver) mevs \<longrightarrow>
        (\<exists>later. ss_log (main_loop k r mevs (start_session cl)) @ later = map (client_handleMessage k) (shown groups)))
    \<and> ss_log (main_loop k r (concat (replicate (length groups) [Receive, Deliver])) (start_session cl)) =
        map (client_handleMessage k) (shown groups)
    \<and> (batchMax \<le> 1 \<longrightarrow> shown groups = filter (\<lambda>f. MsgType f \<noteq> MsgTypeHeartbeatResp) (concat groups))"
proof -
  obtain bgroups where inv: "writer_inv batchMax (conn_buf c) bgroups w"
    using writer_inv_loop [OF writer_inv_start] unfolding w by blast
  then have "concat bgroups @ (w_batch w @ conn_buf (w_conn w)) = map EncodeFrame fs"
    using assms(1) by (simp add: writer_inv_def conn_buf_def)
  then obtain groups rest where g: "bgroups = map (map EncodeFrame) groups" "concat groups @ rest = fs"
    using concat_map_groups by blast
  have out: "map fst (w_out w) = map (\<lambda>g. packMessages (map EncodeFrame g)) groups"
    using inv by (simp add: writer_inv_def g comp_def)
  have sizes: "list_all (\<lambda>g. g \<noteq> [] \<and> length g \<le> max 1 batchMax) groups"
    using inv by (auto simp: writer_inv_def g list_all_iff)
  have "map (\<lambda>m. Some (fst m)) (w_out w) = map Some (map fst (w_out w))" by (simp add: comp_def)
  then have inc: "incoming (sock cl) = packed groups" using assms(4) out by (simp add: packed_def comp_def)
  have ok: "sendable groups"
    using assms(2) sizes unfolding g(2) [symmetric] by (auto simp: sendable_def list_all_iff)
  note start = receiving_start [OF inc ok, of k]
  have "shown groups = filter (\<lambda>f. MsgType f \<noteq> MsgTypeHeartbeatResp) (concat groups)" if "batchMax \<le> 1"
  proof -
    have "\<forall>g \<in> set groups. \<exists>f. g = [f]"
      using sizes that by (auto simp: list_all_iff max_def length_Suc_conv le_Suc_eq)
    then show ?thesis by (induction groups) (auto simp: shown_def)
  qed
  moreover have "\<exists>later. ss_log (main_loop k r mevs (start_session cl)) @ later = map (client_handleMessage k) (shown groups)"
    if mevs: "list_all (\<lambda>ev. ev = Receive \<or> ev = Deliver) mevs" for mevs
  proof -
    obtain remaining where "receiving k groups remaining (main_loop k r mevs (start_session cl))"
      using receiving_rounds [OF start mevs] by blast
    then obtain seen todo where "ss_log (main_loop k r mevs (start_session cl)) = map (client_handleMessage k) seen"
        "seen @ todo = shown groups"
      unfolding receiving_def by blast
    then show ?thesis by (metis map_append)
  qed
  moreover have "ss_log (main_loop k r (concat (replicate (length groups) [Receive, Deliver])) (start_session cl)) =
      map (client_handleMessage k) (shown groups)"
    using start by (rule receiving_all) (simp_all add: start_session_def make_chan_def)
  ultimately show ?thesis using g(2) out sizes by blast
qed

text \<open>A computable codec that meets the contract with \<open>sample_codec\<close>.\<close>

definition sample_client_codec :: "string client_codec" where
  "sample_client_codec =
    \<lparr>cMarshal = \<lambda>w. Some (put_fields (case w of
        CAuth t u \<Rightarrow> [str_field t, str_field u] | CRoom r \<Rightarrow> [str_field r]
      | CHeartbeat r t \<Rightarrow> [str_field r, int_field t] | CData kvs \<Rightarrow> concat (map (\<lambda>(x, v). [str_field x, str_field v]) kvs))),
     cAuthResp = \<lambda>b. (case get_fields [] b of
       [ok, u, g, code, msg] \<Rightarrow> Some (ok \<noteq> [], field_str u, field_str g, field_int code, field_str msg) | _ \<Rightarrow> None),
     cJoinResp = \<lambda>b. (case get_fields [] b of
       [ok, code, msg] \<Rightarrow> Some (ok \<noteq> [], '''', field_int code, field_str msg) | _ \<Rightarrow> None),
     cMap = \<lambda>b. True,
     cSuccess = \<lambda>b. (case get_fields [] b of ok # _ \<Rightarrow> ok \<noteq> [] | _ \<Rightarrow> False)\<rparr>"

lemma sample_client_codec_ok: "client_codec_ok sample_codec sample_client_codec"
  by (simp add: client_codec_ok_def sample_client_codec_def sample_codec_def bool_field_def)

definition two_pushes :: "Frame list" where
  "two_pushes = [\<lparr>MsgType = MsgTypePushMessage, Seq = 1, Payload = [7]\<rparr>, \<lparr>MsgType = MsgTypePushMessage, Seq = 2, Payload = [8]\<rparr>]"

definition batching_writer :: writer where
  "batching_writer = writeLoop 10 3 [(EvMessage, WriteOK, 1), (EvMessage, WriteOK, 2), (EvTick, WriteOK, 3)]
     (start_writer ((NewConnection ''u'' ''id'' 16)\<lparr>sendCh := (make_chan 16)\<lparr>buf := map EncodeFrame two_pushes\<rparr>\<rparr>))"

definition batch_client :: TestClient where
  "batch_client = \<lparr>seqCounter = 0, sock = \<lparr>incoming = map (\<lambda>m. Some (fst m)) (w_out batching_writer), outgoing = [], writable = True\<rparr>\<rparr>"

theorem client_shows_first_of_each_batch_witness:
  "ss_log (main_loop sample_client_codec ''r'' [Receive, Deliver] (start_session batch_client)) = [LogPush 1 [7]]"
proof -
  have ok: "list_all frame_ok two_pushes" by (simp add: two_pushes_def frame_ok_def)
  have out: "map fst (w_out batching_writer) = [packMessages (map EncodeFrame two_pushes)]"
    by (simp add: batching_writer_def writeLoop_def writeLoop_round_def start_writer_def two_pushes_def flush_round_def
        flushBatchWithTimeout_def NewConnection_def Let_def)
  obtain groups rest where g: "concat groups @ rest = two_pushes"
      "map fst (w_out batching_writer) = map (\<lambda>g. packMessages (map EncodeFrame g)) groups"
      "ss_log (main_loop sample_client_codec ''r'' (concat (replicate (length groups) [Receive, Deliver])) (start_session batch_client)) =
        map (client_handleMessage sample_client_codec) (shown groups)"
    using client_shows_first_of_each_batch [OF _ ok batching_writer_def, where cl = batch_client and k = sample_client_codec and r = "''r''"]
    by (auto simp: batch_client_def)
  then obtain h where h: "groups = [h]" "h @ rest = two_pushes"
      "packMessages (map EncodeFrame h) = packMessages (map EncodeFrame two_pushes)"
    using out by (cases groups) auto
  then have "concat (map EncodeFrame rest) = []"
    unfolding packMessages_concat by (metis append_same_eq append_self_conv concat_append map_append)
  then have "rest = []" by (cases rest) (auto simp: EncodeFrame_def PutUint32_def)
  then show ?thesis
    using g(3) h by (simp add: two_pushes_def client_handleMessage_def MsgTypePushMessage_def MsgTypeHeartbeatResp_def sample_client_codec_def)
qed


section \<open>Values of the marshalled maps\<close>

text \<open>
  What the other two variants of the client put into the maps they marshal. The type of
  floating-point numbers is left open: the clients only pass them on.
\<close>

datatype 'f go_value = VString string | VInt int | VFloat 'f | VBool bool

text \<open>A map is marshalled in the order in which its keys are visited.\<close>

definition marshal_map :: "range_order \<Rightarrow> (string, 'v) fmap \<Rightarrow> 'v client_wire" where
  "marshal_map ord m = CData (map (\<lambda>key. (key, the (fmlookup m key))) (ord (fmdom m)))"

end
