(* ===== verification/Client_Session.thy ===== *)
theory Client_Session
  imports Link Test_Client
begin

text \<open>
  The whole system seen by one client: the test client talks to a gateway, the gateway to the
  roomserver and back. A session from the authentication to the confirmed join, and a broadcast
  from the HTTP request of the backend to the client's screen.
\<close>

section \<open>One message through the write loop and to the screen\<close>

text \<open>The rounds in which the write loop takes one queued message and flushes it.\<close>

definition write_one :: "nat \<Rightarrow> int \<Rightarrow> instant \<Rightarrow> Connection \<Rightarrow> bytes option list" where
  "write_one batchMax maxTimeouts t conn = map (\<lambda>m. Some (fst m))
     (w_out (writeLoop batchMax maxTimeouts [(EvMessage, WriteOK, t), (EvTick, WriteOK, t)] (start_writer conn)))"

lemma write_one_message:
  "buf (sendCh conn) = [m] \<Longrightarrow> write_one batchMax maxTimeouts t conn = [Some m]"
  by (simp add: write_one_def writeLoop_def writeLoop_round_def start_writer_def flush_round_def
      flushBatchWithTimeout_def packMessages_concat Let_def)

lemma client_shows_one:
  assumes "incoming (sock cl) = [Some (EncodeFrame f)]" and "frame_ok f" and "MsgType f \<noteq> MsgTypeHeartbeatResp"
  shows "ss_log (main_loop k r [Receive, Deliver] (start_session cl)) = [client_handleMessage k f]"
proof -
  have "receiving k [[f]] [[f]] (start_session cl)"
    using assms by (intro receiving_start) (simp_all add: packMessages_concat sendable_def)
  from receiving_all [OF this, of 1 r] assms(3) show ?thesis by (simp add: start_session_def make_chan_def)
qed

section \<open>Authentication\<close>

text \<open>The validator admits user \<open>u\<close> with this token; see \<open>authenticate\<close>.\<close>

definition admits :: "jwt_lib \<Rightarrow> JWTValidator option \<Rightarrow> string \<Rightarrow> user_id \<Rightarrow> instant \<Rightarrow> bool" where
  "admits lib v token u now \<longleftrightarrow> u \<noteq> '''' \<and> (case v of None \<Rightarrow> True
     | Some w \<Rightarrow> (case ValidateOrMock lib token u now w of Inl e \<Rightarrow> False | Inr claims \<Rightarrow> cl_UserID claims = u))"

definition auth_frame :: "'v client_codec \<Rightarrow> uint64 \<Rightarrow> string \<Rightarrow> user_id \<Rightarrow> Frame" where
  "auth_frame k q token u = \<lparr>MsgType = MsgTypeAuth, Seq = q, Payload = cEncode k (CAuth token u)\<rparr>"

definition join_frame :: "'v client_codec \<Rightarrow> uint64 \<Rightarrow> room_id \<Rightarrow> Frame" where
  "join_frame k q r = \<lparr>MsgType = MsgTypeJoinRoom, Seq = q, Payload = cEncode k (CRoom r)\<rparr>"

definition auth_ok_frame :: "codec \<Rightarrow> user_id \<Rightarrow> gateway_id \<Rightarrow> Frame" where
  "auth_ok_frame c u gid = \<lparr>MsgType = MsgTypeAuthResp, Seq = 0, Payload = Encode c (WAuthResp True u gid ErrCodeSuccess '''')\<rparr>"

lemma authenticate_admitted:
  assumes "client_codec_ok c k" and "admits lib v token u now" and "frame_ok (auth_frame k q token u)"
  shows "authenticate c lib v gid (Some (EncodeFrame (auth_frame k q token u))) now =
    ([EncodeFrame (auth_ok_frame c u gid)], Inr u)"
proof -
  have "DecodeFrame (EncodeFrame (auth_frame k q token u)) = Inr (auth_frame k q token u)"
    using DecodeFrame_EncodeFrame_append [OF assms(3), of "[]"] by simp
  moreover have "decAuthReq c (cEncode k (CAuth token u)) = Some (token, u)"
    using assms(1) unfolding client_codec_ok_def cEncode_def by (metis option.simps(5))
  moreover obtain b where "Marshal c (WAuthResp True u gid ErrCodeSuccess '''') = Some b"
    using assms(1) unfolding client_codec_ok_def by blast
  ultimately show ?thesis
    using assms(2)
    by (auto simp: authenticate_def admits_def auth_frame_def sendAuthResp_def auth_ok_frame_def Encode_def Let_def
        split: option.splits sum.splits)
qed

text \<open>A gateway that has not seen the user registers the connection.\<close>

definition admitted_state :: "cref \<Rightarrow> user_id \<Rightarrow> string \<Rightarrow> nat \<Rightarrow> nat \<Rightarrow> GatewayServer \<Rightarrow> GatewayServer" where
  "admitted_state ref u connID n i g =
     (let g1 = added_state ref (NewConnection u connID n) i (put_connection ref (NewConnection u connID n) g)
      in g1\<lparr>GatewayConnections := GatewayConnections g1 + 1\<rparr>)"

lemma accept_connection_fresh:
  assumes "gw_ok g" and "fmlookup (store g) ref = None" and "GetConnection u g = None"
    and "shard_of u (length (distributors g)) = Inr i"
  shows "accept_connection c ref u connID n now g = Inr (admitted_state ref u connID n i g)"
    and "gw_ok (admitted_state ref u connID n i g)"
    and "GetConnection u (admitted_state ref u connID n i g) = Some ref"
    and "fmlookup (store (admitted_state ref u connID n i g)) ref = Some ((NewConnection u connID n)\<lparr>cn_distributor := Some i\<rparr>)"
    and "gw_status (admitted_state ref u connID n i g) = gw_status g"
    and "roomserverClient (admitted_state ref u connID n i g) = roomserverClient g"
    and "GatewayID (admitted_state ref u connID n i g) = GatewayID g"
proof -
  let ?k = "NewConnection u connID n"
  let ?g = "put_connection ref ?k g"
  have k: "cn_UserID ?k = u" "cn_distributor ?k = None" by (simp_all add: NewConnection_def)
  have ok: "gw_ok ?g" using gw_ok_alloc [OF assms(1,2)] k by simp
  have st: "fmlookup (store ?g) ref = Some ?k" by (simp add: put_connection_def)
  have add: "AddConnection c ref now ?g = Inr (added_state ref ?k i ?g)"
    using assms(3,4) k by (intro AddConnection_fresh ok st) (simp_all add: put_connection_def GetConnection_def)
  then show "accept_connection c ref u connID n now g = Inr (admitted_state ref u connID n i g)"
    by (simp add: accept_connection_def admitted_state_def Let_def)
  have "gw_ok (added_state ref ?k i ?g)"
    using shard_of_less [OF assms(4)] by (intro gw_ok_added ok st) (simp add: put_connection_def)
  then show "gw_ok (admitted_state ref u connID n i g)" by (simp add: admitted_state_def Let_def gw_ok_def)
qed (simp_all add: admitted_state_def added_state_def put_connection_def GetConnection_def NewConnection_def Let_def)

section \<open>A session\<close>

lemma client_authenticated:
  assumes "client_codec_ok c k" and "writable (sock cl)"
    and "incoming (sock cl) = Some (EncodeFrame (auth_ok_frame c u gid)) # ms" and "frame_ok (auth_ok_frame c u gid)"
  shows "client_authenticate k token u cl = Some (Inr (u, gid), cl\<lparr>seqCounter := seqCounter cl + 1,
      sock := (sock cl)\<lparr>incoming := ms, outgoing := outgoing (sock cl) @ [EncodeFrame (auth_frame k (seqCounter cl + 1) token u)]\<rparr>\<rparr>)"
proof -
  obtain b where "cMarshal k (CAuth token u) = Some b" using assms(1) unfolding client_codec_ok_def by blast
  moreover have "cAuthResp k (Encode c (WAuthResp True u gid ErrCodeSuccess '''')) = Some (True, u, gid, ErrCodeSuccess, '''')"
    using assms(1) unfolding client_codec_ok_def Encode_def by (metis option.simps(5))
  moreover have "request (Some b) MsgTypeAuth MsgTypeAuthResp cl = Some (Inr (Payload (auth_ok_frame c u gid)),
      cl\<lparr>seqCounter := seqCounter cl + 1, sock := (sock cl)\<lparr>incoming := ms, outgoing := outgoing (sock cl) @
        [EncodeFrame \<lparr>MsgType = MsgTypeAuth, Seq = seqCounter cl + 1, Payload = b\<rparr>]\<rparr>\<rparr>)"
    using assms(2-4) request_answered [of cl "auth_ok_frame c u gid" "[]" ms MsgTypeAuthResp b MsgTypeAuth]
    by (simp add: auth_ok_frame_def)
  ultimately show ?thesis
    by (simp add: client_authenticate_def auth_ok_frame_def auth_frame_def cEncode_def)
qed

definition join_ok :: "codec \<Rightarrow> Frame" where
  "join_ok c = \<lparr>MsgType = MsgTypeJoinRoomResp, Seq = 0, Payload = Encode c (WCodeResp True ErrCodeSuccess '''')\<rparr>"

lemma client_joined:
  assumes "client_codec_ok c k" and "writable (sock cl)"
    and "incoming (sock cl) = Some (EncodeFrame (join_ok c)) # ms" and "frame_ok (join_ok c)"
  shows "client_joinRoom k r cl = Some (Inr '''', cl\<lparr>seqCounter := seqCounter cl + 1,
      sock := (sock cl)\<lparr>incoming := ms, outgoing := outgoing (sock cl) @ [EncodeFrame (join_frame k (seqCounter cl + 1) r)]\<rparr>\<rparr>)"
proof -
  obtain b where "cMarshal k (CRoom r) = Some b" using assms(1) unfolding client_codec_ok_def by blast
  moreover have "cJoinResp k (Encode c (WCodeResp True ErrCodeSuccess '''')) = Some (True, '''', ErrCodeSuccess, '''')"
    using assms(1) unfolding client_codec_ok_def Encode_def by (metis option.simps(5))
  moreover have "request (Some b) MsgTypeJoinRoom MsgTypeJoinRoomResp cl = Some (Inr (Payload (join_ok c)),
      cl\<lparr>seqCounter := seqCounter cl + 1, sock := (sock cl)\<lparr>incoming := ms, outgoing := outgoing (sock cl) @
        [EncodeFrame \<lparr>MsgType = MsgTypeJoinRoom, Seq = seqCounter cl + 1, Payload = b\<rparr>]\<rparr>\<rparr>)"
    using assms(2-4) request_answered [of cl "join_ok c" "[]" ms MsgTypeJoinRoomResp b MsgTypeJoinRoom]
    by (simp add: join_ok_def)
  ultimately show ?thesis
    by (simp add: client_joinRoom_def join_ok_def join_frame_def cEncode_def)
qed

text \<open>C3. A client session from the handshake to the room. A test client whose token is admitted and a
  gateway that does not know the user yet, is normal and has an idle stream to the roomserver:
  the client's first message makes the gateway answer with a positive authentication response and
  register the connection; the client's second message is carried to the roomserver and back, and
  the write loop writes the positive join response; fed with these two messages, the client
  reports that it is authenticated on that gateway and that it has joined (the response names no
  room), and what it sent are exactly the two requests with consecutive sequence numbers. The
  user then is a member of the room at the roomserver and in the local room of the gateway.\<close>

theorem client_session_end_to_end:
  assumes "codec_ok c" and "client_codec_ok c k" and "admits lib v token u t0" and "writable (sock cl)"
    and "gw_ok g" and "gw_status g = StatusNormal" and "fmlookup (store g) ref = None" and "GetConnection u g = None"
    and "shard_of u (length (distributors g)) = Inr i" and "0 < n"
    and "client_queue (roomserverClient g) = []" and "0 < client_capacity (roomserverClient g)"
    and "registry_ok s" and "server_wf s" and "fmlookup (conns s) sref = Some sconn" and "\<not> gc_closed sconn"
    and "conn_queue sconn = []"
    and "frame_ok (auth_frame k (seqCounter cl + 1) token u)" and "frame_ok (join_frame k (seqCounter cl + 2) r)"
    and "frame_ok (auth_ok_frame c u (GatewayID g))" and "frame_ok (join_ok c)"
    and inc: "incoming (sock cl) = Some (EncodeFrame (auth_ok_frame c u (GatewayID g))) # Some (EncodeFrame (join_ok c)) # ms"
  shows "\<exists>g1 g2 s2 conn cl1 cl2.
      handleWebSocket c lib v True (Some (EncodeFrame (auth_frame k (seqCounter cl + 1) token u))) ref connID n t0 g =
        ([EncodeFrame (auth_ok_frame c u (GatewayID g))], Inr g1)
    \<and> exchange c ord sref t1 t2 (handleMessage c ord acc ref (EncodeFrame (join_frame k (seqCounter cl + 2) r)) t0 g1, s) = Inr (g2, s2)
    \<and> fmlookup (store g2) ref = Some conn \<and> write_one batchMax maxTimeouts t3 conn = [Some (EncodeFrame (join_ok c))]
    \<and> client_authenticate k token u cl = Some (Inr (u, GatewayID g), cl1)
    \<and> client_joinRoom k r cl1 = Some (Inr '''', cl2) \<and> incoming (sock cl2) = ms
    \<and> outgoing (sock cl2) = outgoing (sock cl) @
        [EncodeFrame (auth_frame k (seqCounter cl + 1) token u), EncodeFrame (join_frame k (seqCounter cl + 2) r)]
    \<and> memb r u s2 = Some (new_member u (GatewayID g) t1) \<and> GetUserRoom u (sessionSvc s2) = r \<and> in_room r u g2"
proof -
  let ?g1 = "admitted_state ref u connID n i g" and ?m1 = "EncodeFrame (auth_ok_frame c u (GatewayID g))"
  let ?conn = "(NewConnection u connID n)\<lparr>cn_distributor := Some i\<rparr>" and ?f = "join_frame k (seqCounter cl + 2) r"
  note acc = accept_connection_fresh [OF assms(5,7,8,9), where connID = connID and n = n]
  have ws: "handleWebSocket c lib v True (Some (EncodeFrame (auth_frame k (seqCounter cl + 1) token u))) ref connID n t0 g = ([?m1], Inr ?g1)"
    using acc(1) by (simp add: handleWebSocket_def authenticate_admitted [OF assms(2,3,18)])
  have dec: "DecodeFrame (EncodeFrame ?f) = Inr ?f" using DecodeFrame_EncodeFrame_append [OF assms(19), of "[]"] by simp
  have rq: "decRoomReq c (Payload ?f) = Some r"
    using assms(2) unfolding client_codec_ok_def join_frame_def cEncode_def by (simp, metis option.simps(5))
  obtain g2 s2 conn where ex: "exchange c ord sref t1 t2 (handleMessage c ord acc ref (EncodeFrame ?f) t0 ?g1, s) = Inr (g2, s2)"
      and end_: "memb r u s2 = Some (new_member u (GatewayID g) t1)" "GetUserRoom u (sessionSvc s2) = r" "in_room r u g2"
        "fmlookup (store g2) ref = Some conn" "buf (sendCh conn) = [EncodeFrame (join_ok c)]"
    using join_carried [OF assms(1) acc(2) _ acc(3,4) _ _ assms(13,14,15,16,17) dec _ rq, of ord t1 t2 acc t0] acc(5-7) assms(6,10,11,12)
    by (auto simp: join_frame_def NewConnection_def make_chan_def join_ok_frame_def join_ok_def)
  have m2: "write_one batchMax maxTimeouts t3 conn = [Some (EncodeFrame (join_ok c))]"
    using end_(5) by (rule write_one_message)
  let ?cl1 = "cl\<lparr>seqCounter := seqCounter cl + 1, sock := (sock cl)\<lparr>incoming := Some (EncodeFrame (join_ok c)) # ms,
      outgoing := outgoing (sock cl) @ [EncodeFrame (auth_frame k (seqCounter cl + 1) token u)]\<rparr>\<rparr>"
  have "client_joinRoom k r ?cl1 = Some (Inr '''', ?cl1\<lparr>seqCounter := seqCounter cl + 2, sock := (sock ?cl1)\<lparr>incoming := ms,
      outgoing := outgoing (sock ?cl1) @ [EncodeFrame ?f]\<rparr>\<rparr>)"
    using client_joined [OF assms(2) _ _ assms(21), of ?cl1 ms r] assms(4) by (simp add: add.commute [of 2])
  moreover have "client_authenticate k token u cl = Some (Inr (u, GatewayID g), ?cl1)"
    using client_authenticated [OF assms(2,4) inc assms(20)] by simp
  ultimately show ?thesis
    using ws ex end_(1-4) m2
    by (intro exI [of _ ?g1] exI [of _ g2] exI [of _ s2] exI [of _ conn]
        exI [of _ ?cl1] exI [of _ "?cl1\<lparr>seqCounter := seqCounter cl + 2, sock := (sock ?cl1)\<lparr>incoming := ms,
          outgoing := outgoing (sock ?cl1) @ [EncodeFrame ?f]\<rparr>\<rparr>"]) simp
qed

lemma sample_session:
  "admits lib None token ''u'' t0" "gw_ok sample_gateway" "gw_status sample_gateway = StatusNormal" "store sample_gateway = fmempty"
  "GetConnection ''u'' sample_gateway = None" "GatewayID sample_gateway = ''g''"
  "client_queue (roomserverClient sample_gateway) = []" "0 < client_capacity (roomserverClient sample_gateway)"
  "server_wf one_stream" "\<not> gc_closed idle_conn" "conn_queue idle_conn = []"
  using server_wf_cong [of one_stream "NewServer ''rs'' 0 1 5"] server_wf_New [of "''rs''" 0 1 5]
  by (simp_all add: admits_def sample_gateway_def NewGateway_def gw_ok_def GetConnection_def NewRoomserverClient_def client_queue_def
      client_capacity_def make_chan_def one_stream_def Channel_open_def idle_conn_def conn_queue_def NewDistributor_def)

definition session_client :: TestClient where
  "session_client = \<lparr>seqCounter = 0, sock = \<lparr>incoming =
      [Some (EncodeFrame (auth_ok_frame sample_codec ''u'' ''g'')), Some (EncodeFrame (join_ok sample_codec))],
    outgoing = [], writable = True\<rparr>\<rparr>"

theorem client_session_end_to_end_witness:
  "\<exists>cl1 cl2. client_authenticate sample_client_codec ''dev_1'' ''u'' session_client = Some (Inr (''u'', ''g''), cl1)
    \<and> client_joinRoom sample_client_codec ''r'' cl1 = Some (Inr '''', cl2) \<and> incoming (sock cl2) = []"
proof -
  have len: "length (put_fields fs) = sum_list (map (\<lambda>f. 2 * length f + 1) fs)" for fs
    by (induction fs) (simp_all add: put_fields_def length_concat comp_def sum_list_triv)
  have ok: "frame_ok (auth_frame sample_client_codec 1 ''dev_1'' ''u'')" "frame_ok (join_frame sample_client_codec 2 ''r'')"
    "frame_ok (auth_ok_frame sample_codec ''u'' ''g'')" "frame_ok (join_ok sample_codec)"
    by (simp_all add: frame_ok_def auth_frame_def join_frame_def auth_ok_frame_def join_ok_def cEncode_def sample_client_codec_def
        len str_field_def bool_field_def int_field_def ErrCodeSuccess_def)
  have sh: "shard_of ''u'' (length (distributors sample_gateway)) = Inr 1" and st: "fmlookup (store sample_gateway) 0 = None"
    and cl: "writable (sock session_client)" "seqCounter session_client = 0"
      "incoming (sock session_client) = Some (EncodeFrame (auth_ok_frame sample_codec ''u'' (GatewayID sample_gateway)))
        # Some (EncodeFrame (join_ok sample_codec)) # []"
    using shard_of_u by (simp_all add: sample_gateway_def NewGateway_def session_client_def)
  show ?thesis
    using client_session_end_to_end [OF sample_codec_ok sample_client_codec_ok sample_session(1) cl(1) sample_session(2,3) st sample_session(5) sh _
        sample_session(7,8) one_stream_ok(1) sample_session(9) one_stream_ok(2) sample_session(10,11) _ _ _ _ cl(3),
        where n = 16 and r = "''r''" and token = "''dev_1''"] ok
    unfolding cl(2) by (simp add: sample_session(6)) blast
qed

section \<open>A broadcast\<close>

definition broadcast_envelope :: "codec \<Rightarrow> room_id \<Rightarrow> bytes \<Rightarrow> Envelope" where
  "broadcast_envelope c r p = envelope InternalMsgBroadcast
     (Encode c (WBroadcastMessage \<lparr>bm_RoomID = r, bm_Seq = 0, bm_Payload = p\<rparr>))"

text \<open>A broadcast envelope queues one push on the connection of every connected user of the room.\<close>

lemma handle_broadcast_envelope:
  assumes "codec_ok c" and "go_range ord" and "gw_ok g"
  shows "fmlookup (store (handleEnvelope c ord (broadcast_envelope c r p) now g)) ref =
    (if \<exists>u. in_room r u g \<and> GetConnection u g = Some ref
     then map_option (\<lambda>conn. snd (Send (push_frame 0 p) now conn)) (fmlookup (store g) ref)
     else fmlookup (store g) ref)"
proof -
  have "handleEnvelope c ord (broadcast_envelope c r p) now g = fold (send_user (push_frame 0 p) now) (GetRoomUsers ord r g) g"
    using assms(1) by (auto simp: handleEnvelope_def broadcast_envelope_def envelope_def handleBroadcast_def internal_msg_types Let_def)
  moreover have "distinct (GetRoomUsers ord r g)" and "set (GetRoomUsers ord r g) = {u. in_room r u g}"
    using assms(2) by (simp_all add: set_GetRoomUsers)
  ultimately show ?thesis using assms(3) by (simp add: su.visits_store GetConnection_def)
qed

lemma download_one:
  assumes "fmlookup (conns s) sref = Some sconn" and "conn_queue sconn = [e]"
  shows "fst (download c ord sref t (g, s)) = handleEnvelope c ord e t g"
  using assms by (simp add: download_def recvLoop_def)


definition receiving_client :: "bytes option list \<Rightarrow> TestClient" where
  "receiving_client ms = \<lparr>seqCounter = 0, sock = \<lparr>incoming = ms, outgoing = [], writable = True\<rparr>\<rparr>"


end
