(* ===== verification/Channel_Types.thy ===== *)
theory Channel_Types
  imports Gateway_Steps
begin

text \<open>
  What travels on the gateway's channels. The queues carry plain bytes: that the bytes in a client's
  queue are an encoded frame of a type meant for clients, and that an envelope in the queue to the
  roomserver has a type the roomserver knows and a payload that decodes as the struct of that type,
  is a property of the code that fills them, kept by every step of the gateway.
\<close>

section \<open>Types of messages\<close>

definition server_types :: "uint32 list" where
  "server_types = [MsgTypeAuthResp, MsgTypeJoinRoomResp, MsgTypeLeaveRoomResp, MsgTypeResumeResp, MsgTypePushMessage,
     MsgTypeBizResponse, MsgTypeHeartbeatResp]"

definition client_bound :: "bytes \<Rightarrow> bool" where
  "client_bound m \<longleftrightarrow> (\<exists>f. m = EncodeFrame f \<and> MsgType f \<in> set server_types)"

text \<open>The struct that the roomserver's handler for the type decodes, sent in the name of the gateway \<open>gid\<close>.\<close>

definition server_bound :: "codec \<Rightarrow> gateway_id \<Rightarrow> Envelope \<Rightarrow> bool" where
  "server_bound c gid e \<longleftrightarrow> (let t = env_MsgType e; p = env_Payload e in
     t = InternalMsgGatewayInfo \<and> map_option gi_GatewayID (decGatewayInfo c p) = Some gid
     \<or> t = InternalMsgJoinRoom \<and> map_option jr_GatewayID (decJoinRoomRequest c p) = Some gid
     \<or> t = InternalMsgLeaveRoom \<and> decLeaveRoomRequest c p \<noteq> None
     \<or> t = InternalMsgResume \<and> map_option rr_GatewayID (decResumeRequest c p) = Some gid
     \<or> t = InternalMsgDisconnect \<and> map_option dn_GatewayID (decDisconnectNotify c p) = Some gid
     \<or> t = InternalMsgBatchReSync \<and> map_option br_GatewayID (decBatchReSync c p) = Some gid
     \<or> t = InternalMsgReSyncComplete \<and> map_option rc_GatewayID (decReSyncComplete c p) = Some gid)"

definition typed :: "codec \<Rightarrow> gateway_id \<Rightarrow> GatewayServer \<Rightarrow> bool" where
  "typed c gid s \<longleftrightarrow> GatewayID s = gid \<and>
     (\<forall>ref conn. fmlookup (store s) ref = Some conn \<longrightarrow> (\<forall>m \<in> set (buf (sendCh conn)). client_bound m))
     \<and> (\<forall>e \<in> set (client_queue (roomserverClient s)). server_bound c gid e)"

lemma client_bound_EncodeFrame:
  "client_bound (EncodeFrame \<lparr>MsgType = MsgTypeJoinRoomResp, Seq = q, Payload = p\<rparr>)"
  "client_bound (EncodeFrame \<lparr>MsgType = MsgTypeLeaveRoomResp, Seq = q, Payload = p\<rparr>)"
  "client_bound (EncodeFrame \<lparr>MsgType = MsgTypeHeartbeatResp, Seq = q, Payload = p\<rparr>)"
  "client_bound (EncodeFrame \<lparr>MsgType = MsgTypeBizResponse, Seq = q, Payload = p\<rparr>)"
  "client_bound (EncodeFrame \<lparr>MsgType = MsgTypePushMessage, Seq = q, Payload = p\<rparr>)"
  unfolding client_bound_def server_types_def by (rule exI, rule conjI, rule refl, simp)+

lemma client_bound_push: "client_bound (push_frame q p)" "client_bound (buildPushPayload c m)"
  by (simp_all add: push_frame_def buildPushPayload_def Let_def client_bound_EncodeFrame)

lemma server_bound_envelope:
  assumes "codec_ok c"
  shows "gi_GatewayID gi = gid \<Longrightarrow> server_bound c gid \<lparr>env_MsgType = InternalMsgGatewayInfo, env_Payload = Encode c (WGatewayInfo gi)\<rparr>"
    "jr_GatewayID jr = gid \<Longrightarrow> server_bound c gid \<lparr>env_MsgType = InternalMsgJoinRoom, env_Payload = Encode c (WJoinRoomRequest jr)\<rparr>"
    "server_bound c gid \<lparr>env_MsgType = InternalMsgLeaveRoom, env_Payload = Encode c (WLeaveRoomRequest lr)\<rparr>"
    "rr_GatewayID rr = gid \<Longrightarrow> server_bound c gid \<lparr>env_MsgType = InternalMsgResume, env_Payload = Encode c (WResumeRequest rr)\<rparr>"
    "dn_GatewayID dn = gid \<Longrightarrow> server_bound c gid \<lparr>env_MsgType = InternalMsgDisconnect, env_Payload = Encode c (WDisconnectNotify dn)\<rparr>"
    "br_GatewayID br = gid \<Longrightarrow> server_bound c gid \<lparr>env_MsgType = InternalMsgBatchReSync, env_Payload = Encode c (WBatchReSync br)\<rparr>"
    "rc_GatewayID rc = gid \<Longrightarrow> server_bound c gid \<lparr>env_MsgType = InternalMsgReSyncComplete, env_Payload = Encode c (WReSyncComplete rc)\<rparr>"
  using assms by (simp_all add: server_bound_def)

section \<open>Operations keep the channels typed\<close>

named_theorems typed_intros \<open>operations that keep the channels typed\<close>

lemma typedD: "typed c gid s \<Longrightarrow> fmlookup (store s) ref = Some conn \<Longrightarrow> m \<in> set (buf (sendCh conn)) \<Longrightarrow> client_bound m"
  unfolding typed_def by blast

lemma typed_id: "typed c gid s \<Longrightarrow> GatewayID s = gid"
  by (simp add: typed_def)

lemma typed_cong:
  "typed c gid s \<Longrightarrow> GatewayID t = GatewayID s \<Longrightarrow> store t = store s \<Longrightarrow> roomserverClient t = roomserverClient s \<Longrightarrow> typed c gid t"
  by (simp add: typed_def)

lemma typed_put [typed_intros]:
  "typed c gid s \<Longrightarrow> (\<And>m. m \<in> set (buf (sendCh k)) \<Longrightarrow> client_bound m) \<Longrightarrow> typed c gid (put_connection ref k s)"
  by (auto simp: typed_def put_connection_def)

lemma buf_Send: "m \<in> set (buf (sendCh (snd (Send d now k)))) \<Longrightarrow> m = d \<or> m \<in> set (buf (sendCh k))"
  by (auto simp: Send_def split: if_splits)

lemma typed_send_conn [typed_intros]: "typed c gid s \<Longrightarrow> client_bound d \<Longrightarrow> typed c gid (send_conn ref d now s)"
  by (auto simp: send_conn_def split: option.split intro!: typed_put dest!: buf_Send dest: typedD)

lemma typed_set_join [typed_intros]: "typed c gid s \<Longrightarrow> typed c gid (set_join ref j r s)"
  by (auto simp: set_join_def split: option.split intro!: typed_put dest: typedD)

lemma typed_fields [typed_intros]:
  assumes "typed c gid s"
  shows "typed c gid (s\<lparr>pendingLeaves := pl\<rparr>)" "typed c gid (s\<lparr>pendingDisconnects := pd\<rparr>)" "typed c gid (s\<lparr>knownEpochs := ke\<rparr>)"
    "typed c gid (s\<lparr>biz_out := bo\<rparr>)" "typed c gid (s\<lparr>kafkaProducer := kp\<rparr>)" "typed c gid (s\<lparr>gw_status := gs\<rparr>)"
    "typed c gid (s\<lparr>degradedSince := ds\<rparr>)" "typed c gid (s\<lparr>GatewayConnections := gc\<rparr>)" "typed c gid (s\<lparr>connections := cs\<rparr>)"
    "typed c gid (s\<lparr>connsMu := mu\<rparr>)" "typed c gid (s\<lparr>localUsers := lu\<rparr>)" "typed c gid (s\<lparr>distributors := dd\<rparr>)" "typed c gid (unlock_conns s)"
    "typed c gid (AddUserToRoom r u s)" "typed c gid (RemoveUserFromRoom r u s)" "typed c gid (snd (ClearRoom ord r s))"
  using assms by (auto intro: typed_cong simp: unlock_conns_def AddUserToRoom_def RemoveUserFromRoom_def ClearRoom_def Let_def split: option.split)

lemma typed_client_send:
  assumes "typed c gid s" and "server_bound c gid \<lparr>env_MsgType = ty, env_Payload = p\<rparr>"
  shows "typed c gid (client_send ty p s)"
  using assms by (auto simp: typed_def client_send_def Gateway_Server.send_def client_queue_def)

lemma typed_sends [typed_intros]:
  assumes "codec_ok c" and "typed c gid s"
  shows "typed c gid (SendJoinRoom c u r s)" "typed c gid (SendLeaveRoom c u r s)" "typed c gid (SendResume c u r s)"
    "typed c gid (SendDisconnect c u r s)" "typed c gid (SendBatchReSync c ps s)" "typed c gid (sendGatewayInfo c s)"
    "typed c gid (sendReSyncComplete c ord s)"
  unfolding SendJoinRoom_def SendLeaveRoom_def SendResume_def SendDisconnect_def SendBatchReSync_def sendGatewayInfo_def
    sendReSyncComplete_def Let_def
  using assms by (auto intro!: typed_client_send server_bound_envelope dest: typed_id)

lemma typed_responses [typed_intros]:
  assumes "typed c gid s"
  shows "typed c gid (sendJoinRoomResp c ref b code msg now s)" "typed c gid (sendLeaveRoomResp c ref b now s)"
    "typed c gid (sendHeartbeatResp ref now s)" "typed c gid (sendBizResponse c ref q b code msg now s)"
  unfolding sendJoinRoomResp_def sendLeaveRoomResp_def sendHeartbeatResp_def sendBizResponse_def
  using assms by (auto intro!: typed_send_conn client_bound_EncodeFrame)

lemma typed_fold [typed_intros]: "typed c gid s \<Longrightarrow> (\<And>x t. typed c gid t \<Longrightarrow> typed c gid (f x t)) \<Longrightarrow> typed c gid (fold f xs s)"
  by (induction xs arbitrary: s) simp_all

lemma typed_notifyDisconnect [typed_intros]: "codec_ok c \<Longrightarrow> typed c gid s \<Longrightarrow> typed c gid (notifyDisconnect c u r now s)"
  unfolding notifyDisconnect_def by (auto intro!: typed_intros)

lemma typed_pending [typed_intros]: "codec_ok c \<Longrightarrow> typed c gid s \<Longrightarrow> typed c gid (processPendingRequests c s)"
  unfolding processPendingRequests_def Let_def by (intro typed_intros) assumption+

lemma typed_handleMessage: "codec_ok c \<Longrightarrow> typed c gid s \<Longrightarrow> typed c gid (handleMessage c ord acc ref data now s)"
  unfolding handleMessage_def handleJoinRoom_def handleLeaveRoom_def handleResume_def handleHeartbeat_def handleBizRequest_def Let_def
  by (auto intro!: typed_intros split: option.split sum.split)

lemma typed_visits [typed_intros]:
  assumes "typed c gid s" and "client_bound d"
  shows "typed c gid (send_user d now u s)" "typed c gid (close_user d now u s)" "typed c gid (dispatchToUser d pr now u s)"
  unfolding send_user_def close_user_def dispatchToUser_def Let_def
  using assms by (auto intro!: typed_intros split: option.split)


lemma typed_resync_user:
  assumes "codec_ok c" and "typed c gid (snd st)"
  shows "typed c gid (snd (resync_user c r u st))"
  using assms by (cases st) (auto simp: resync_user_def Let_def intro: typed_sends)

lemma typed_resync [typed_intros]:
  assumes "codec_ok c" and "typed c gid s"
  shows "typed c gid (startProgressiveReSync c ord s)"
proof -
  have inner: "typed c gid (snd (fold (resync_user c r) us st))" if "typed c gid (snd st)" for r us st
    using that by (induction us arbitrary: st) (simp_all add: typed_resync_user [OF assms(1)])
  have "typed c gid (snd (fold (\<lambda>r. fold (resync_user c r) (g r)) rs st))" if "typed c gid (snd st)" for g rs st
    using that by (induction rs arbitrary: st) (simp_all add: inner)
  from this [of "([], s)"] have "typed c gid s'" if "fold (\<lambda>r. fold (resync_user c r) (g r)) rs ([], s) = (batch, s')" for g rs batch s'
    using that assms(2) by (metis snd_conv)
  then show ?thesis
    using assms(1) unfolding startProgressiveReSync_def Let_def by (auto intro!: typed_sends split: prod.split)
qed

lemma typed_OnJoinRoomAck [typed_intros]: "typed c gid s \<Longrightarrow> typed c gid (OnJoinRoomAck c u r b code msg now s)"
  unfolding OnJoinRoomAck_def Let_def by (auto intro!: typed_intros split: option.split)

lemma typed_handleRoomClose [typed_intros]: "typed c gid s \<Longrightarrow> typed c gid (handleRoomClose c ord p now s)"
proof (cases "decRoomCloseNotify c p")
  case (Some m)
  assume "typed c gid s"
  then have "typed c gid (snd (ClearRoom ord (rn_RoomID m) s))" by (rule typed_fields)
  then show ?thesis using Some
    by (auto simp: handleRoomClose_def intro!: typed_fold typed_visits client_bound_push split: prod.split)
qed (simp add: handleRoomClose_def)

lemma typed_handleEnvelope: "codec_ok c \<Longrightarrow> typed c gid s \<Longrightarrow> typed c gid (handleEnvelope c ord e now s)"
proof -
  assume ok: "codec_ok c" and s: "typed c gid s"
  have "typed c gid (snd (handleEpochNotify c (env_Payload e) s))"
    unfolding handleEpochNotify_def Let_def using s by (auto intro!: typed_intros split: option.split)
  with ok s show ?thesis
    unfolding handleEnvelope_def Let_def handleJoinRoomAck_def handleBroadcast_def Roomserver_Client.handleUnicast_def
      Roomserver_Client.handleMulticast_def
    by (auto intro!: typed_intros client_bound_push split: option.split prod.split)
qed

lemma typed_handlePushMessage: "typed c gid s \<Longrightarrow> typed c gid (handlePushMessage c' ord m now s)"
proof (cases m)
  case (Some msg)
  assume "typed c gid s"
  then show ?thesis unfolding Some handlePushMessage_eq by (intro typed_fold typed_visits client_bound_push)
qed (simp add: handlePushMessage_def)

lemma typed_Close:
  assumes "codec_ok c" and "typed c gid s" and "Close c ref now s = Inr t"
  shows "typed c gid t"
proof -
  obtain conn where conn: "fmlookup (store s) ref = Some conn" using assms(3) by (auto simp: Close_def split: option.splits)
  have rem: "typed c gid v" if "RemoveConnection u w = Inr v" "typed c gid w" for u v w
    using that by (auto simp: RemoveConnection_def lock_conns_def on_distributor_def RemoveConn_def go_bind_Inr_iff Let_def
        split: if_splits option.splits intro!: typed_intros)
  have "typed c gid ((put_connection ref (conn\<lparr>closed := True\<rparr>) s)\<lparr>GatewayConnections := GatewayConnections s - 1\<rparr>)"
    using assms(2) conn by (auto intro!: typed_intros dest: typedD)
  then show ?thesis using assms conn rem
    by (auto simp: Close_def go_bind_Inr_iff Let_def split: if_splits intro!: typed_intros)
qed

lemma typed_AddConnection:
  assumes "codec_ok c" and "typed c gid s" and "AddConnection c ref now s = Inr t"
  shows "typed c gid t"
proof -
  obtain conn where conn: "fmlookup (store s) ref = Some conn" using assms(3) by (auto simp: AddConnection_def split: option.splits)
  then have b: "\<And>m. m \<in> set (buf (sendCh conn)) \<Longrightarrow> client_bound m" using assms(2) typedD by blast
  have lock: "typed c gid v" if "lock_conns s = Inr v" for v
    using that assms(2) by (auto simp: lock_conns_def split: if_splits intro: typed_intros)
  show ?thesis using assms conn b lock typed_Close [OF assms(1)]
    by (auto simp: AddConnection_def go_bind_Inr_iff on_distributor_def AddConn_def Let_def
        split: if_splits option.splits intro!: typed_intros)
qed

lemma typed_handleWebSocket:
  assumes "codec_ok c" and "typed c gid s" and "handleWebSocket c lib v up msg ref connID n now s = (out, Inr t)"
  shows "typed c gid t"
proof -
  have new: "typed c gid (put_connection ref (NewConnection u connID n) s)" for u
    using assms(2) by (auto intro!: typed_put simp: NewConnection_def make_chan_def)
  have "typed c gid u'" if "accept_connection c ref u connID n now s = Inr u'" for u u'
    using that typed_AddConnection [OF assms(1) new [of u]] by (auto simp: accept_connection_def go_bind_Inr_iff intro!: typed_intros)
  then show ?thesis using assms(2,3)
    by (auto simp: handleWebSocket_def split: if_splits prod.splits sum.splits option.splits)
qed

lemma buf_writeLoop: "set (buf (sendCh (w_conn (writeLoop bm mt evs w)))) \<subseteq> set (buf (sendCh (w_conn w)))"
proof (induction evs arbitrary: w)
  case (Cons ev evs)
  have fl: "sendCh (w_conn (flush_round mt res now w')) = sendCh (w_conn w')" for res now w'
    by (auto simp: flush_round_def split: prod.split flush_result.split)
  have "set (buf (sendCh (w_conn (writeLoop_round bm mt ev w)))) \<subseteq> set (buf (sendCh (w_conn w)))"
    by (auto simp: writeLoop_round_def fl Let_def split: prod.splits write_event.splits list.splits if_splits)
  then show ?case using Cons [of "writeLoop_round bm mt ev w"] by (auto simp: writeLoop_def)
qed (simp add: writeLoop_def)

lemma typed_step:
  assumes "codec_ok c" and "typed c gid s" and "gw_step c ord s t"
  shows "typed c gid t"
  using assms(3)
proof cases
  case (step_read ref input now)
  then show ?thesis using assms typed_Close typed_handleMessage
    by (auto simp: readLoop_def split: option.splits if_splits prod.splits)
next
  case (step_write bm mt ref evs)
  then show ?thesis using assms(2) buf_writeLoop [of bm mt evs]
    by (fastforce simp: run_writeLoop_def start_writer_def split: option.splits intro!: typed_put dest: typedD)
next
  case (step_send e)
  then show ?thesis using assms(2)
    by (auto simp: sendLoop_def typed_def client_queue_def split: list.splits)
next
  case step_up
  have "typed c gid (s\<lparr>roomserverClient := (roomserverClient s)\<lparr>connected := True\<rparr>\<rparr>)"
    using assms(2) by (simp add: typed_def client_queue_def)
  then show ?thesis unfolding step_up
    using assms(1) by (auto simp: stream_up_def SetNormal_def Let_def intro!: typed_intros)
next
  case (step_down now)
  have "typed c gid (s\<lparr>roomserverClient := (roomserverClient s)\<lparr>connected := False\<rparr>\<rparr>)"
    using assms(2) by (simp add: typed_def client_queue_def)
  then show ?thesis unfolding step_down by (auto simp: stream_down_def SetDegraded_def intro!: typed_intros)
next
  case (step_accept ref lib v up msg connID n now out)
  then show ?thesis using typed_handleWebSocket [OF assms(1,2)] by blast
next
  case (step_close ref now)
  then show ?thesis using typed_Close [OF assms(1,2)] by blast
next
  case (step_envelope e now)
  then show ?thesis using typed_handleEnvelope [OF assms(1,2)] by blast
next
  case (step_push m now)
  then show ?thesis using typed_handlePushMessage [OF assms(2)] by blast
next
  case step_pending
  then show ?thesis using typed_pending [OF assms(1,2)] by blast
next
  case (step_kafka k)
  then show ?thesis using typed_fields(5) [OF assms(2)] by blast
qed


lemma typed_init: "gw_init s \<Longrightarrow> typed c (GatewayID s) s"
  by (auto simp: gw_init_def NewGateway_def typed_def NewRoomserverClient_def client_queue_def make_chan_def)

interpretation gwt: inductive_invariant "\<lambda>s. gw_init s \<and> GatewayID s = gid" "\<lambda>s t. codec_ok c \<and> gw_step c ord s t" "typed c gid"
  for c ord gid
  by unfold_locales (use typed_init in \<open>auto intro: typed_step\<close>)

lemma reachable_typed:
  assumes "codec_ok c" and "reachable_by gw_init (gw_step c ord) s"
  shows "typed c (GatewayID s) s"
  using assms(2)
proof induction
  case (reachable_step s t)
  then have "typed c (GatewayID s) t" using gwt.inv_step assms(1) by blast
  then show ?case by (simp add: typed_def)
qed (rule typed_init)

text \<open>C9. The gateway's channels are well typed. In every reachable state of a gateway, for every order of client
  messages, roomserver messages, pushes, reconnects and closings: each message that waits for a
  client is the encoding of a frame whose type is one of the server-to-client types, and each
  envelope that waits for the roomserver has a type that the roomserver dispatches on and a payload
  that decodes into the struct its handler expects, with the id of this gateway where the struct
  names a gateway.\<close>

theorem gateway_channels_typed:
  assumes "codec_ok c" and "reachable_by gw_init (gw_step c ord) s"
  shows "(\<forall>ref conn m. fmlookup (store s) ref = Some conn \<longrightarrow> m \<in> set (buf (sendCh conn)) \<longrightarrow>
        (\<exists>f. m = EncodeFrame f \<and> MsgType f \<in> set server_types))
    \<and> (\<forall>e \<in> set (client_queue (roomserverClient s)). server_bound c (GatewayID s) e)"
  using reachable_typed [OF assms] unfolding typed_def client_bound_def by blast

theorem gateway_channels_typed_witness:
  "list_all (server_bound sample_codec ''g'') (client_queue (roomserverClient (snd (stream_up sample_codec sample_gateway))))"
proof -
  have "gw_init sample_gateway" unfolding gw_init_def sample_gateway_def by blast
  then have "reachable_by gw_init (gw_step sample_codec sorted_list_of_fset) sample_gateway" by (rule reachable_init)
  then have "reachable_by gw_init (gw_step sample_codec sorted_list_of_fset) (snd (stream_up sample_codec sample_gateway))"
    by (rule reachable_step) (rule step_up)
  moreover have "GatewayID (snd (stream_up sample_codec sample_gateway)) = ''g''"
    by (simp add: stream_up_def sample_gateway_def NewGateway_def SetNormal_def sendGatewayInfo_def client_send_def Let_def)
  ultimately show ?thesis using gateway_channels_typed [OF sample_codec_ok] unfolding list_all_iff by metis
qed

end
