(* ===== verification/Roomserver_Steps.thy ===== *)
theory Roomserver_Steps
  imports Push_API
begin

text \<open>
  The roomserver as a transition system: one step per message of a gateway stream, per HTTP request,
  per round of a write loop, per tick of the timeout checker, and when a stream opens or ends. The
  invariant of its reachable states covers the rooms and sessions, the registry of gateways and
  what waits in the queues of the streams.
\<close>

section \<open>Steps\<close>

inductive rs_step :: "codec \<Rightarrow> range_order \<Rightarrow> Server \<Rightarrow> Server \<Rightarrow> bool"
  for c :: codec and ord :: range_order
where
  rs_open: "rs_step c ord s (snd (Channel_open s))"
| rs_message: "handleGatewayMessage c ref e now s = Inr t \<Longrightarrow> rs_step c ord s t"
| rs_close: "Channel_close ref s = Inr t \<Longrightarrow> rs_step c ord s t"
| rs_write: "gatewayWriteLoop ref s = Some (e, t) \<Longrightarrow> rs_step c ord s t"
| rs_unicast: "handleUnicastHTTP c meth ureq s = Inr (resp, t) \<Longrightarrow> rs_step c ord s t"
| rs_multicast: "handleMulticastHTTP c ord meth mreq s = Inr (resp, t) \<Longrightarrow> rs_step c ord s t"
| rs_broadcast: "handleRoomBroadcastHTTP c ord meth breq s = Inr (resp, t) \<Longrightarrow> rs_step c ord s t"
| rs_global: "handleGlobalBroadcastHTTP c ord meth greq s = Inr (resp, t) \<Longrightarrow> rs_step c ord s t"
| rs_room_close: "handleRoomCloseHTTP c ord meth creq s = Inr (resp, t) \<Longrightarrow> rs_step c ord s t"
| rs_notify_close: "NotifyRoomClose c ord r reason s = Inr t \<Longrightarrow> rs_step c ord s t"
| rs_notify_epoch: "NotifyEpochChange c ord now s = Inr t \<Longrightarrow> rs_step c ord s t"
| rs_timeout: "rs_step c ord s (checkDisconnectTimeout ord tmo now s)"
| rs_recovered: "recoveryMonitor started now s = Some t \<Longrightarrow> rs_step c ord s t"

section \<open>The invariant\<close>

text \<open>The struct that the gateway's handler for the type decodes.\<close>

definition gateway_bound :: "codec \<Rightarrow> Envelope \<Rightarrow> bool" where
  "gateway_bound c e \<longleftrightarrow> (let t = env_MsgType e; p = env_Payload e in
     t = InternalMsgJoinRoomAck \<and> decJoinRoomAck c p \<noteq> None
     \<or> t = InternalMsgBroadcast \<and> decBroadcastMessage c p \<noteq> None
     \<or> t = InternalMsgUnicast \<and> decUnicastMessage c p \<noteq> None
     \<or> t = InternalMsgMulticast \<and> decMulticastMessage c p \<noteq> None
     \<or> t = InternalMsgEpochNotify \<and> decEpochNotify c p \<noteq> None
     \<or> t = InternalMsgRoomClose \<and> decRoomCloseNotify c p \<noteq> None)"

definition queue_ok :: "codec \<Rightarrow> GatewayConnection \<Rightarrow> bool" where
  "queue_ok c conn \<longleftrightarrow> cap (gc_sendCh conn) = 10000 \<and> length (buf (gc_sendCh conn)) \<le> 10000
     \<and> (\<forall>e \<in> set (buf (gc_sendCh conn)). gateway_bound c e)"

definition streams_ok :: "codec \<Rightarrow> Server \<Rightarrow> bool" where
  "streams_ok c s \<longleftrightarrow> (\<forall>ref conn. fmlookup (conns s) ref = Some conn \<longrightarrow> queue_ok c conn \<and> ref < next_ref s)
     \<and> (\<forall>g ref. fmlookup (gateways s) g = Some ref \<longrightarrow> fmlookup (conns s) ref \<noteq> None)"

definition rs_inv :: "codec \<Rightarrow> Server \<Rightarrow> bool" where
  "rs_inv c s \<longleftrightarrow> server_wf s \<and> streams_ok c s"

lemma gateway_bound_envelope:
  assumes "codec_ok c"
  shows "gateway_bound c \<lparr>env_MsgType = InternalMsgJoinRoomAck, env_Payload = Encode c (WJoinRoomAck ja)\<rparr>"
    "gateway_bound c \<lparr>env_MsgType = InternalMsgBroadcast, env_Payload = Encode c (WBroadcastMessage bm)\<rparr>"
    "gateway_bound c \<lparr>env_MsgType = InternalMsgUnicast, env_Payload = Encode c (WUnicastMessage um)\<rparr>"
    "gateway_bound c \<lparr>env_MsgType = InternalMsgMulticast, env_Payload = Encode c (WMulticastMessage mm)\<rparr>"
    "gateway_bound c \<lparr>env_MsgType = InternalMsgEpochNotify, env_Payload = Encode c (WEpochNotify en)\<rparr>"
    "gateway_bound c \<lparr>env_MsgType = InternalMsgRoomClose, env_Payload = Encode c (WRoomCloseNotify rn)\<rparr>"
  using assms by (simp_all add: gateway_bound_def)

lemma streams_okD:
  "streams_ok c s \<Longrightarrow> fmlookup (conns s) ref = Some conn \<Longrightarrow> queue_ok c conn \<and> ref < next_ref s"
  "streams_ok c s \<Longrightarrow> fmlookup (gateways s) g = Some ref \<Longrightarrow> fmlookup (conns s) ref \<noteq> None"
  unfolding streams_ok_def by blast+

lemma streams_ok_cong:
  "conns t = conns s \<Longrightarrow> gateways t = gateways s \<Longrightarrow> next_ref t = next_ref s \<Longrightarrow> streams_ok c t = streams_ok c s"
  by (simp add: streams_ok_def)

lemma streams_ok_put:
  assumes "streams_ok c s" and "fmlookup (conns s) ref = Some conn" and "queue_ok c conn'"
  shows "streams_ok c (s\<lparr>conns := fmupd ref conn' (conns s)\<rparr>)"
  using assms by (auto simp: streams_ok_def)

text \<open>
  Parts of the state that an operation leaves alone: \<open>same_rooms\<close> the rooms and sessions, \<open>quiet\<close> also
  the registry and the ids of the connection objects.
\<close>

definition same_rooms :: "Server \<Rightarrow> Server \<Rightarrow> bool" where
  "same_rooms s t \<longleftrightarrow> roomSvc t = roomSvc s \<and> sessionSvc t = sessionSvc s"

definition quiet :: "Server \<Rightarrow> Server \<Rightarrow> bool" where
  "quiet s t \<longleftrightarrow> same_rooms s t \<and> gateways t = gateways s \<and> next_ref t = next_ref s
     \<and> (\<forall>x. map_option gc_id (fmlookup (conns t) x) = map_option gc_id (fmlookup (conns s) x))"

lemma quiet_refl [simp]: "quiet s s"
  by (simp add: quiet_def same_rooms_def)

lemma quiet_trans: "quiet s t \<Longrightarrow> quiet t u \<Longrightarrow> quiet s u"
  by (simp add: quiet_def same_rooms_def)

lemma quiet_rooms: "quiet s t \<Longrightarrow> same_rooms s t"
  by (simp add: quiet_def)

lemma quiet_put:
  "fmlookup (conns s) ref = Some conn \<Longrightarrow> gc_id conn' = gc_id conn \<Longrightarrow> quiet s (s\<lparr>conns := fmupd ref conn' (conns s)\<rparr>)"
  by (simp add: quiet_def same_rooms_def)

lemma rs_inv_same: "server_wf s \<Longrightarrow> same_rooms s t \<Longrightarrow> streams_ok c t \<Longrightarrow> rs_inv c t"
  unfolding rs_inv_def same_rooms_def using server_wf_cong by blast

section \<open>Sending\<close>

lemma send_streams:
  assumes "sendToGateway ref ty p s = Inr t" and "streams_ok c s" and "gateway_bound c \<lparr>env_MsgType = ty, env_Payload = p\<rparr>"
  shows "streams_ok c t \<and> quiet s t"
proof -
  obtain conn where conn: "fmlookup (conns s) ref = Some conn" using assms(1) by (auto simp: sendToGateway_def split: option.splits)
  have "queue_ok c (conn\<lparr>gc_sendCh := ch\<rparr>)"
    if "try_send \<lparr>env_MsgType = ty, env_Payload = p\<rparr> (gc_sendCh conn) = Inr (ch, b)" for ch b
    using that streams_okD(1) [OF assms(2) conn] assms(3) by (auto simp: queue_ok_def try_send_def split: if_splits)
  then show ?thesis using assms(1,2) conn
    by (auto simp: sendToGateway_def go_bind_Inr_iff split: if_splits intro!: streams_ok_put quiet_put)
qed

lemma forward_streams:
  assumes "forward ty p g s = Inr t" and "streams_ok c s" and "gateway_bound c \<lparr>env_MsgType = ty, env_Payload = p\<rparr>"
  shows "streams_ok c t \<and> quiet s t"
  using assms send_streams by (auto simp: forward_def split: option.splits)

lemma fold_streams:
  assumes "go_fold f gs s = Inr t" and "streams_ok c s"
    and "\<And>g u v. f g u = Inr v \<Longrightarrow> streams_ok c u \<Longrightarrow> streams_ok c v \<and> quiet u v"
  shows "streams_ok c t \<and> quiet s t"
  using assms(1,2)
proof (induction gs arbitrary: s)
  case (Cons g gs)
  then obtain u where u: "f g s = Inr u" "go_fold f gs u = Inr t" by (auto simp: go_bind_Inr_iff)
  with Cons assms(3) have "streams_ok c u \<and> quiet s u" by blast
  with Cons.IH [OF u(2)] show ?case using quiet_trans by blast
qed simp

lemma close_conn_streams:
  assumes "close_conn ref s = Inr t" and "streams_ok c s"
  shows "streams_ok c t \<and> quiet s t"
proof -
  obtain conn where conn: "fmlookup (conns s) ref = Some conn" using assms(1) by (auto simp: close_conn_def split: option.splits)
  have "queue_ok c (conn\<lparr>gc_sendCh := ch, gc_closed := True\<rparr>)" if "close_chan (gc_sendCh conn) = Inr ch" for ch
    using that streams_okD(1) [OF assms(2) conn] by (auto simp: queue_ok_def close_chan_def split: if_splits)
  then show ?thesis using assms conn
    by (auto simp: close_conn_def go_bind_Inr_iff intro!: streams_ok_put quiet_put)
qed


text \<open>A registration changes one entry of the registry; an older stream of the id is closed first.\<close>

lemma addGateway_quiet:
  assumes "addGateway ref s = Inr t" and "streams_ok c s"
  shows "\<exists>conn u. fmlookup (conns s) ref = Some conn \<and> streams_ok c u \<and> quiet s u
    \<and> t = u\<lparr>gateways := fmupd (gc_id conn) ref (gateways u)\<rparr>"
proof -
  obtain conn where conn: "fmlookup (conns s) ref = Some conn" using assms(1) by (auto simp: addGateway_def split: option.splits)
  show ?thesis
  proof (cases "fmlookup (gateways s) (gc_id conn)")
    case None
    then show ?thesis using assms conn by (auto simp: addGateway_def)
  next
    case (Some old)
    then obtain u where "close_conn old s = Inr u" "t = u\<lparr>gateways := fmupd (gc_id conn) ref (gateways u)\<rparr>"
      using assms(1) conn by (auto simp: addGateway_def go_bind_Inr_iff)
    then show ?thesis using close_conn_streams [OF _ assms(2)] conn by blast
  qed
qed

lemma quiet_conn: "quiet s u \<Longrightarrow> fmlookup (conns s) ref = Some conn \<Longrightarrow> \<exists>k. fmlookup (conns u) ref = Some k \<and> gc_id k = gc_id conn"
  unfolding quiet_def by (metis map_option_eq_Some)

lemma addGateway_streams:
  assumes "addGateway ref s = Inr t" and "streams_ok c s"
  shows "streams_ok c t \<and> same_rooms s t"
proof -
  obtain conn u where u: "fmlookup (conns s) ref = Some conn" "streams_ok c u" "quiet s u"
      "t = u\<lparr>gateways := fmupd (gc_id conn) ref (gateways u)\<rparr>"
    using addGateway_quiet [OF assms] by blast
  then have "fmlookup (conns u) ref \<noteq> None" using quiet_conn by blast
  with u(2) have "streams_ok c t" unfolding u(4) by (auto simp: streams_ok_def)
  with u(3,4) show ?thesis by (simp add: quiet_def same_rooms_def)
qed

section \<open>The handlers of gateway messages\<close>

lemma streams_ok_rooms:
  assumes "streams_ok c s"
  shows "streams_ok c (JoinRoom u r g now s)" "streams_ok c (LeaveRoom u r s)" "streams_ok c (snd (Resume u r g now s))"
    "streams_ok c (UserDisconnect u r now s)" "streams_ok c (s\<lparr>recovery := rec\<rparr>)"
  by (rule iffD2 [OF streams_ok_cong assms];
      simp add: JoinRoom_def LeaveRoom_def Resume_def UserDisconnect_def Let_def split: option.split)+

lemma rs_inv_ack:
  assumes "codec_ok c" and "server_wf s" and "streams_ok c s" and "sendJoinRoomAck c ref u r ok code msg s = Inr t"
  shows "rs_inv c t \<and> quiet s t"
  using assms send_streams gateway_bound_envelope(1) rs_inv_same quiet_rooms unfolding sendJoinRoomAck_def by metis

lemma rs_inv_info:
  assumes "codec_ok c" and "rs_inv c s" and "handleGatewayInfo c ref p s = Inr t"
  shows "rs_inv c t"
proof (cases "decGatewayInfo c p")
  case None
  then show ?thesis using assms by (simp add: handleGatewayInfo_def)
next
  case (Some info)
  have inv: "server_wf s" "streams_ok c s" using assms(2) by (simp_all add: rs_inv_def)
  obtain conn where conn: "fmlookup (conns s) ref = Some conn" using assms(3) Some by (auto simp: handleGatewayInfo_def split: option.splits)
  let ?s1 = "s\<lparr>conns := fmupd ref (conn\<lparr>gc_id := gi_GatewayID info, gc_addr := gi_Addr info\<rparr>) (conns s)\<rparr>"
  have "queue_ok c (conn\<lparr>gc_id := gi_GatewayID info, gc_addr := gi_Addr info\<rparr>)"
    using streams_okD(1) [OF inv(2) conn] by (simp add: queue_ok_def)
  then have s1: "streams_ok c ?s1" by (rule streams_ok_put [OF inv(2) conn])
  obtain u where u: "addGateway ref ?s1 = Inr u" "sendEpochNotify c ref u = Inr t"
    using assms(3) Some conn by (auto simp: handleGatewayInfo_def go_bind_Inr_iff)
  have "streams_ok c u \<and> same_rooms ?s1 u" by (rule addGateway_streams [OF u(1) s1])
  moreover from this have "streams_ok c t \<and> quiet u t"
    using send_streams [OF u(2) [unfolded sendEpochNotify_def]] gateway_bound_envelope(5) [OF assms(1)] by blast
  ultimately show ?thesis using rs_inv_same [OF inv(1)] by (simp add: quiet_def same_rooms_def)
qed

lemma resync_users_inv:
  "server_wf s \<Longrightarrow> streams_ok c s \<Longrightarrow> server_wf (resync_users g ps now s) \<and> streams_ok c (resync_users g ps now s)"
  unfolding resync_users_def by (induction ps arbitrary: s) (simp_all add: server_wf_ops streams_ok_rooms)

lemma rs_inv_message:
  assumes "codec_ok c" and "rs_inv c s" and "handleGatewayMessage c ref e now s = Inr t"
  shows "rs_inv c t"
proof -
  have inv: "server_wf s" "streams_ok c s" using assms(2) by (simp_all add: rs_inv_def)
  have rec: "rs_inv c (u\<lparr>recovery := r\<rparr>)" if "server_wf u" "streams_ok c u" for u r
    by (rule rs_inv_same [OF that(1)]) (simp_all add: same_rooms_def streams_ok_rooms that(2))
  have join: "rs_inv c t" if "handleJoinRoom c ref p now s = Inr t" for p
    using that assms(1,2) rs_inv_ack [OF assms(1) server_wf_ops(1) [OF inv(1)] streams_ok_rooms(1) [OF inv(2)]]
    by (auto simp: handleJoinRoom_def split: option.splits)
  have resume: "rs_inv c t" if r: "handleResume c ref p now s = Inr t" for p
  proof (cases "decResumeRequest c p")
    case (Some req)
    let ?res = "Resume (rr_UserID req) (rr_RoomID req) (rr_GatewayID req) now s"
    have "server_wf (snd ?res)" "streams_ok c (snd ?res)" using inv by (simp_all add: server_wf_ops streams_ok_rooms)
    moreover have "\<exists>ok code msg. sendJoinRoomAck c ref (rr_UserID req) (rr_RoomID req) ok code msg (snd ?res) = Inr t"
      using r Some by (auto simp: handleResume_def split: prod.splits)
    ultimately show ?thesis using rs_inv_ack [OF assms(1)] by blast
  qed (use r assms(2) in \<open>simp add: handleResume_def\<close>)
  have leave: "rs_inv c t" if "handleLeaveRoom c ref p s = Inr t" for p
    using that assms(2) inv by (auto simp: handleLeaveRoom_def rs_inv_def server_wf_ops streams_ok_rooms split: option.splits)
  have disc: "rs_inv c t" if "handleDisconnect c ref p now s = Inr t" for p
    using that assms(2) inv by (auto simp: handleDisconnect_def rs_inv_def server_wf_ops streams_ok_rooms split: option.splits)
  have batch: "rs_inv c t" if "handleBatchReSync c ref p now s = Inr t" for p
    using that assms(2) rec resync_users_inv [OF inv] by (auto simp: handleBatchReSync_def Let_def split: option.splits)
  have compl: "rs_inv c t" if "handleReSyncComplete c ref p s = Inr t" for p
    using that assms(2) rec [OF inv] by (auto simp: handleReSyncComplete_def Let_def split: option.splits)
  show ?thesis
    using assms(2,3) rs_inv_info [OF assms(1,2)] unfolding handleGatewayMessage_def Let_def
    by (auto split: if_splits dest: join resume leave disc batch compl)
qed

section \<open>The other steps\<close>

lemma forwards_inv:
  assumes "rs_inv c s" and "go_fold (\<lambda>g. forward ty (p g) g) gs s = Inr t"
    and "\<And>g. gateway_bound c \<lparr>env_MsgType = ty, env_Payload = p g\<rparr>"
  shows "rs_inv c t \<and> quiet s t"
proof -
  have inv: "server_wf s" "streams_ok c s" using assms(1) by (simp_all add: rs_inv_def)
  have "streams_ok c t \<and> quiet s t"
    by (rule fold_streams [OF assms(2) inv(2)]) (rule forward_streams [OF _ _ assms(3)])
  then show ?thesis using rs_inv_same [OF inv(1)] quiet_rooms by blast
qed

lemmas forward_inv = forwards_inv [where p = "\<lambda>_. p" for p]

lemma push_guard_inv:
  assumes "push_guard meth body s k = Inr (resp, t)" and "rs_inv c s"
    and "\<And>req. body = Some req \<Longrightarrow> k req = Inr (resp, t) \<Longrightarrow> rs_inv c t \<and> quiet s t"
  shows "rs_inv c t \<and> quiet s t"
  using assms by (auto simp: push_guard_def split: if_splits option.splits)

lemma rs_inv_unicast:
  assumes "codec_ok c" and "rs_inv c s" and "handleUnicastHTTP c meth body s = Inr (resp, t)"
  shows "rs_inv c t \<and> quiet s t"
  using assms(3) unfolding handleUnicastHTTP_def
proof (rule push_guard_inv [OF _ assms(2)])
  fix req
  assume k: "(case GetSession (ur_UserID req) (sessionSvc s) of None \<Rightarrow> Inr (HttpError StatusNotFound ''user not found'', s)
     | Some session \<Rightarrow> (case GetGatewayByID (s_GatewayID session) s of
            None \<Rightarrow> Inr (HttpError StatusNotFound ''gateway not found'', s)
          | Some gw \<Rightarrow> go_bind (sendToGateway gw InternalMsgUnicast
                  (Encode c (WUnicastMessage \<lparr>um_UserID = ur_UserID req, um_Payload = ur_Message req\<rparr>)) s)
                (\<lambda>s1. Inr (HttpOK '''', s1)))) = Inr (resp, t)"
  have inv: "server_wf s" "streams_ok c s" using assms(2) by (simp_all add: rs_inv_def)
  have "rs_inv c u \<and> quiet s u" if "sendToGateway gw InternalMsgUnicast (Encode c (WUnicastMessage m)) s = Inr u" for gw m u
    using send_streams [OF that inv(2) gateway_bound_envelope(3) [OF assms(1)]] rs_inv_same [OF inv(1)] quiet_rooms by blast
  then show "rs_inv c t \<and> quiet s t" using k assms(2) by (auto simp: go_bind_Inr_iff split: option.splits)
qed

lemma rs_inv_multicast:
  assumes "codec_ok c" and "rs_inv c s" and "handleMulticastHTTP c ord meth body s = Inr (resp, t)"
  shows "rs_inv c t \<and> quiet s t"
  using assms(3) unfolding handleMulticastHTTP_def Let_def
proof (rule push_guard_inv [OF _ assms(2)])
  fix req assume "go_bind (go_fold (multicast_to c req (gatewayUsers (mr_UserIDs req) (sessionSvc s)))
      (ord (fmdom (gatewayUsers (mr_UserIDs req) (sessionSvc s)))) s) (\<lambda>s1. Inr (HttpOK '''', s1)) = Inr (resp, t)"
  then have "go_fold (multicast_to c req (gatewayUsers (mr_UserIDs req) (sessionSvc s)))
      (ord (fmdom (gatewayUsers (mr_UserIDs req) (sessionSvc s)))) s = Inr t" by (simp add: go_bind_Inr_iff)
  then show "rs_inv c t \<and> quiet s t" unfolding multicast_to_def by (rule forwards_inv [OF assms(2)]) (rule gateway_bound_envelope [OF assms(1)])
qed

lemma rs_inv_broadcast:
  assumes "codec_ok c" and "rs_inv c s" and "handleRoomBroadcastHTTP c ord meth body s = Inr (resp, t)"
  shows "rs_inv c t \<and> quiet s t"
  using assms(3) unfolding handleRoomBroadcastHTTP_def
  by (rule push_guard_inv [OF _ assms(2)])
     (use assms(2) forward_inv [OF assms(2) _ gateway_bound_envelope(2) [OF assms(1)]] in
       \<open>auto simp: go_bind_Inr_iff Let_def split: option.splits if_splits\<close>)

lemma rs_inv_global:
  assumes "codec_ok c" and "rs_inv c s" and "handleGlobalBroadcastHTTP c ord meth body s = Inr (resp, t)"
  shows "rs_inv c t \<and> quiet s t"
  using assms(3) unfolding handleGlobalBroadcastHTTP_def
  by (rule push_guard_inv [OF _ assms(2)])
     (use forward_inv [OF assms(2) _ gateway_bound_envelope(2) [OF assms(1)]] in \<open>auto simp: go_bind_Inr_iff\<close>)

lemma rs_inv_notify:
  assumes "codec_ok c" and "rs_inv c s"
  shows "NotifyRoomClose c ord r reason s = Inr t \<Longrightarrow> rs_inv c t \<and> quiet s t"
    and "NotifyEpochChange c ord now s = Inr t \<Longrightarrow> rs_inv c t \<and> quiet s t"
  unfolding NotifyRoomClose_def NotifyEpochChange_def Let_def
  by (rule forward_inv [OF assms(2) _ gateway_bound_envelope(6) [OF assms(1)]], assumption)
     (rule forward_inv [OF assms(2) _ gateway_bound_envelope(5) [OF assms(1)]], assumption)

lemma rs_inv_room_close:
  assumes "codec_ok c" and "rs_inv c s" and "handleRoomCloseHTTP c ord meth body s = Inr (resp, t)"
  shows "rs_inv c t"
proof -
  have fin: "rs_inv c (u\<lparr>roomSvc := snd (CloseRoom r (roomSvc u))\<rparr>)" if "rs_inv c u" for u r
  proof -
    have "streams_ok c (u\<lparr>roomSvc := snd (CloseRoom r (roomSvc u))\<rparr>) = streams_ok c u" by (rule streams_ok_cong) simp_all
    moreover have "server_wf (u\<lparr>roomSvc := snd (CloseRoom r (roomSvc u))\<rparr>)"
      using that by (intro server_wfI) (simp_all add: rs_inv_def rooms_wf_ops)
    ultimately show ?thesis using that by (simp add: rs_inv_def)
  qed
  show ?thesis
    using assms(2,3) fin forward_inv [OF assms(2) _ gateway_bound_envelope(6) [OF assms(1)]]
    by (auto simp: handleRoomCloseHTTP_def go_bind_Inr_iff split: if_splits option.splits)
qed

lemma timeouts_inv: "rs_inv c s \<Longrightarrow> rs_inv c (checkDisconnectTimeout ord tmo now s)"
proof -
  assume inv: "rs_inv c s"
  have "streams_ok c (timeout_user tmo now u v)" if "streams_ok c v" for u v
    using that by (auto simp: timeout_user_def streams_ok_rooms split: option.split)
  then have "rs_inv c v \<Longrightarrow> rs_inv c (fold (timeout_user tmo now) us v)" for us v
    by (induction us arbitrary: v) (simp_all add: rs_inv_def server_wf_timeout_user)
  with inv show ?thesis by (simp add: checkDisconnectTimeout_def)
qed

lemma rs_inv_close:
  assumes "rs_inv c s" and "Channel_close ref s = Inr t"
  shows "rs_inv c t"
proof -
  have inv: "server_wf s" "streams_ok c s" using assms(1) by (simp_all add: rs_inv_def)
  obtain u where u: "close_conn ref s = Inr u" using assms(2) by (auto simp: Channel_close_def go_bind_Inr_iff)
  have "streams_ok c u \<and> same_rooms s u" using close_conn_streams [OF u inv(2)] quiet_rooms by blast
  moreover have "streams_ok c v \<Longrightarrow> streams_ok c (removeGateway g v)" "same_rooms v (removeGateway g v)" for g v
    by (auto simp: streams_ok_def removeGateway_def same_rooms_def)
  ultimately show ?thesis using assms(2) u rs_inv_same [OF inv(1)]
    by (auto simp: Channel_close_def same_rooms_def split: option.splits if_splits)
qed

lemma rs_inv_write:
  assumes "rs_inv c s" and "gatewayWriteLoop ref s = Some (e, t)"
  shows "rs_inv c t \<and> gateway_bound c e"
proof -
  have inv: "server_wf s" "streams_ok c s" using assms(1) by (simp_all add: rs_inv_def)
  obtain conn es where conn: "fmlookup (conns s) ref = Some conn" "buf (gc_sendCh conn) = e # es"
      "t = s\<lparr>conns := fmupd ref (conn\<lparr>gc_sendCh := (gc_sendCh conn)\<lparr>buf := es\<rparr>\<rparr>) (conns s)\<rparr>"
    using assms(2) by (auto simp: gatewayWriteLoop_def split: option.splits list.splits)
  have q: "queue_ok c conn" using streams_okD(1) [OF inv(2) conn(1)] by blast
  then have "streams_ok c t" unfolding conn(3) using conn(2) by (intro streams_ok_put [OF inv(2) conn(1)]) (simp add: queue_ok_def)
  then show ?thesis using rs_inv_same [OF inv(1)] q conn by (simp add: same_rooms_def queue_ok_def)
qed

lemma rs_inv_open: "rs_inv c s \<Longrightarrow> rs_inv c (snd (Channel_open s))"
proof -
  assume "rs_inv c s"
  then have inv: "server_wf s" "streams_ok c s" by (simp_all add: rs_inv_def)
  have "streams_ok c (snd (Channel_open s))"
    using inv(2) by (auto simp: streams_ok_def Channel_open_def queue_ok_def make_chan_def less_Suc_eq)
  moreover have "same_rooms s (snd (Channel_open s))" by (simp add: same_rooms_def Channel_open_def)
  ultimately show ?thesis using rs_inv_same [OF inv(1)] by blast
qed

lemma rs_inv_status:
  assumes "rs_inv c s" and "recoveryMonitor started now s = Some t"
  shows "rs_inv c t"
proof -
  have "same_rooms s t" "conns t = conns s" "gateways t = gateways s" "next_ref t = next_ref s"
    using assms(2) by (auto simp: recoveryMonitor_def same_rooms_def split: option.splits)
  then show ?thesis using assms(1) rs_inv_same streams_ok_cong unfolding rs_inv_def by metis
qed

lemma rs_inv_step:
  assumes "codec_ok c" and "rs_inv c s" and "rs_step c ord s t"
  shows "rs_inv c t"
  using assms(3)
proof cases
  case rs_open
  then show ?thesis using rs_inv_open [OF assms(2)] by simp
next
  case (rs_close ref)
  then show ?thesis by (rule rs_inv_close [OF assms(2)])
next
  case (rs_write ref e)
  then show ?thesis using rs_inv_write [OF assms(2)] by blast
next
  case (rs_notify_close r reason)
  then show ?thesis using rs_inv_notify(1) [OF assms(1,2)] by blast
next
  case (rs_notify_epoch now)
  then show ?thesis using rs_inv_notify(2) [OF assms(1,2)] by blast
next
  case (rs_timeout tmo now)
  then show ?thesis using timeouts_inv [OF assms(2)] by simp
next
  case (rs_recovered started now)
  then show ?thesis by (rule rs_inv_status [OF assms(2)])
next
  case (rs_message ref e now)
  then show ?thesis by (rule rs_inv_message [OF assms(1,2)])
next
  case (rs_room_close meth creq resp)
  then show ?thesis by (rule rs_inv_room_close [OF assms(1,2)])
qed (auto dest: rs_inv_unicast [OF assms(1,2)] rs_inv_multicast [OF assms(1,2)] rs_inv_broadcast [OF assms(1,2)]
    rs_inv_global [OF assms(1,2)])

section \<open>Reachable states\<close>

definition rs_init :: "Server \<Rightarrow> bool" where
  "rs_init s \<longleftrightarrow> (\<exists>cfgID tmo vnodes now. s = Roomserver.Start (NewServer cfgID tmo vnodes now))"

lemma rs_inv_init: "rs_init s \<Longrightarrow> rs_inv c s"
proof -
  assume "rs_init s"
  then obtain i tmo v now where s: "s = Roomserver.Start (NewServer i tmo v now)" unfolding rs_init_def by blast
  have "server_wf s = server_wf (NewServer i tmo v now)" unfolding s by (rule server_wf_cong) (simp_all add: Roomserver.Start_def)
  moreover have "streams_ok c s" by (simp add: s streams_ok_def Roomserver.Start_def NewServer_def)
  ultimately show ?thesis by (simp add: rs_inv_def server_wf_New)
qed

interpretation rst: inductive_invariant rs_init "\<lambda>s t. codec_ok c \<and> rs_step c ord s t" "rs_inv c" for c ord
  by unfold_locales (auto intro: rs_inv_init rs_inv_step)

lemma reachable_rs_inv:
  assumes "codec_ok c" and "reachable_by rs_init (rs_step c ord) s"
  shows "rs_inv c s"
  using assms(2) by induction (use assms(1) in \<open>auto intro: rst.inv_init rst.inv_step\<close>)

text \<open>
  \<open>Channel\<close> (grpc\_server.go) as one run of its receive loop: the messages that \<open>Recv\<close> returns until it
  fails, each with its time, and the clean-up. \<open>between\<close> is what the other goroutines
  do to the server before each call; a \<open>between\<close> that does nothing is a stream alone on the server.
\<close>

definition Channel ::
  "codec \<Rightarrow> (Envelope \<times> instant \<times> (Server \<Rightarrow> Server go)) list \<Rightarrow> Server \<Rightarrow> Server go" where
  "Channel c msgs s =
     (case Channel_open s of (ref, s0) \<Rightarrow>
        go_bind (go_fold (\<lambda>(e, now, between) u. go_bind (between u) (handleGatewayMessage c ref e now)) msgs s0)
          (Channel_close ref))"

text \<open>\<open>time.Duration(n) * time.Second\<close>, in 64 bits.\<close>

definition seconds :: "int \<Rightarrow> duration" where
  "seconds n = sint (word_of_int (n * second) :: uint64)"

text \<open>\<open>disconnectTimeoutChecker\<close>: one check per tick until the context is cancelled.\<close>

datatype tick_event = Tick instant | CtxDone

fun disconnectTimeoutChecker :: "range_order \<Rightarrow> int \<Rightarrow> tick_event list \<Rightarrow> Server \<Rightarrow> Server" where
  "disconnectTimeoutChecker ord cfgTimeout [] s = s"
| "disconnectTimeoutChecker ord cfgTimeout (CtxDone # evs) s = s"
| "disconnectTimeoutChecker ord cfgTimeout (Tick now # evs) s =
     disconnectTimeoutChecker ord cfgTimeout evs (checkDisconnectTimeout ord (seconds cfgTimeout) now s)"

lemma disconnectTimeoutChecker_steps: "(rs_step c ord)\<^sup>*\<^sup>* s (disconnectTimeoutChecker ord tmo evs s)"
proof (induction ord tmo evs s rule: disconnectTimeoutChecker.induct)
  case (3 ord cfgTimeout now evs s)
  then show ?case by (auto intro: converse_rtranclp_into_rtranclp rs_timeout)
qed simp_all

lemma Channel_steps:
  assumes "Channel c msgs s = Inr t"
    and "\<And>e now f u v. (e, now, f) \<in> set msgs \<Longrightarrow> f u = Inr v \<Longrightarrow> (rs_step c ord)\<^sup>*\<^sup>* u v"
  shows "(rs_step c ord)\<^sup>*\<^sup>* s t"
proof -
  obtain ref s0 where o: "Channel_open s = (ref, s0)" by fastforce
  let ?f = "\<lambda>(e, now, between) u. go_bind (between u) (handleGatewayMessage c ref e now)"
  have fold: "(rs_step c ord)\<^sup>*\<^sup>* u v" if "go_fold ?f ms u = Inr v" "set ms \<subseteq> set msgs" for ms u v
    using that
  proof (induction ms arbitrary: u)
    case (Cons m ms)
    obtain e now f where m: "m = (e, now, f)" by (cases m) auto
    with Cons.prems obtain w x where "f u = Inr w" "handleGatewayMessage c ref e now w = Inr x" "go_fold ?f ms x = Inr v"
      by (auto simp: go_bind_Inr_iff)
    moreover from this m Cons.prems(2) assms(2) have "(rs_step c ord)\<^sup>*\<^sup>* u w" by auto
    ultimately show ?case using Cons.IH Cons.prems(2) rs_message by (meson rtranclp.rtrancl_into_rtrancl rtranclp_trans set_subset_Cons subset_trans)
  qed simp
  obtain u where u: "go_fold ?f msgs s0 = Inr u" "Channel_close ref u = Inr t"
    using assms(1) o by (auto simp: Channel_def go_bind_Inr_iff)
  have "rs_step c ord s s0" using rs_open [of c ord s] o by simp
  then show ?thesis using fold [OF u(1)] rs_close [OF u(2)] by (meson converse_rtranclp_into_rtranclp rtranclp.rtrancl_into_rtrancl subset_refl)
qed



end
