(* ===== verification/Cluster.thy ===== *)
theory Cluster
  imports Channel_Types Roomserver_Steps
begin

text \<open>
  The whole system: a roomserver, any number of gateways, and the gRPC streams between them with the
  envelopes in transit. Gateways connect, lose their stream, reconnect and restart, the
  roomserver restarts, and a stream carries what one side sends to the other in order until it
  ends. The theory shows that the two programs agree on what they send each other, and that the
  roomserver's bookkeeping names only gateways of the system and routes to the right one.
\<close>

section \<open>State\<close>

text \<open>
  A stream belongs to the gateway at \<open>sm_site\<close>. \<open>sm_served\<close> says that the roomserver's \<open>Channel\<close> call
  for it is running, \<open>sm_up\<close> and \<open>sm_down\<close> are the envelopes in transit.
\<close>

record stream_link =
  sm_site :: nat
  sm_served :: bool
  sm_up :: "Envelope list"
  sm_down :: "Envelope list"

record cluster =
  cl_server :: Server
  cl_gateways :: "(nat, GatewayServer) fmap"
  cl_streams :: "(conn_ref, stream_link) fmap"
  cl_current :: "(nat, conn_ref) fmap"

section \<open>Steps\<close>

text \<open>What a gateway does without its stream, and what the roomserver does without one.\<close>

inductive gw_own :: "codec \<Rightarrow> range_order \<Rightarrow> GatewayServer \<Rightarrow> GatewayServer \<Rightarrow> bool"
  for c :: codec and ord :: range_order
where
  own_accept: "fmlookup (store s) ref = None \<Longrightarrow>
    handleWebSocket c lib v up msg ref connID n now s = (out, Inr s') \<Longrightarrow> gw_own c ord s s'"
| own_read: "readLoop c ord ref input now s = Inr s' \<Longrightarrow> gw_own c ord s s'"
| own_close: "Close c ref now s = Inr s' \<Longrightarrow> gw_own c ord s s'"
| own_push: "gw_own c ord s (handlePushMessage c ord m now s)"
| own_write: "gw_own c ord s (run_writeLoop bm mt ref evs s)"
| own_pending: "gw_own c ord s (processPendingRequests c s)"
| own_kafka: "gw_own c ord s (s\<lparr>kafkaProducer := k\<rparr>)"

lemma gw_own_step: "gw_own c ord s t \<Longrightarrow> gw_step c ord s t"
  by (induction rule: gw_own.induct) (auto intro: gw_step.intros)

inductive rs_own :: "codec \<Rightarrow> range_order \<Rightarrow> Server \<Rightarrow> Server \<Rightarrow> bool"
  for c :: codec and ord :: range_order
where
  own_unicast: "handleUnicastHTTP c meth ureq s = Inr (resp, t) \<Longrightarrow> rs_own c ord s t"
| own_multicast: "handleMulticastHTTP c ord meth mreq s = Inr (resp, t) \<Longrightarrow> rs_own c ord s t"
| own_broadcast: "handleRoomBroadcastHTTP c ord meth breq s = Inr (resp, t) \<Longrightarrow> rs_own c ord s t"
| own_global: "handleGlobalBroadcastHTTP c ord meth greq s = Inr (resp, t) \<Longrightarrow> rs_own c ord s t"
| own_room_close: "handleRoomCloseHTTP c ord meth creq s = Inr (resp, t) \<Longrightarrow> rs_own c ord s t"
| own_notify_close: "NotifyRoomClose c ord r reason s = Inr t \<Longrightarrow> rs_own c ord s t"
| own_notify_epoch: "NotifyEpochChange c ord now s = Inr t \<Longrightarrow> rs_own c ord s t"
| own_timeout: "rs_own c ord s (checkDisconnectTimeout ord tmo now s)"
| own_recovered: "recoveryMonitor started now s = Some t \<Longrightarrow> rs_own c ord s t"

lemma rs_own_step: "rs_own c ord s t \<Longrightarrow> rs_step c ord s t"
  by (induction rule: rs_own.induct) (auto intro: rs_step.intros)

definition with_gateway :: "nat \<Rightarrow> GatewayServer \<Rightarrow> cluster \<Rightarrow> cluster" where
  "with_gateway i g y = y\<lparr>cl_gateways := fmupd i g (cl_gateways y)\<rparr>"

definition with_stream :: "conn_ref \<Rightarrow> stream_link \<Rightarrow> cluster \<Rightarrow> cluster" where
  "with_stream ref st y = y\<lparr>cl_streams := fmupd ref st (cl_streams y)\<rparr>"

text \<open>
  \<open>connectAndServe\<close> of the gateway at site \<open>i\<close> meets \<open>Channel\<close> of the roomserver: a connection object
  at one end, \<open>stream_up\<close> at the other.
\<close>

definition connect_site :: "codec \<Rightarrow> nat \<Rightarrow> GatewayServer \<Rightarrow> cluster \<Rightarrow> cluster" where
  "connect_site c i g y =
     (case Channel_open (cl_server y) of (ref, s) \<Rightarrow>
        y\<lparr>cl_server := s, cl_gateways := fmupd i (snd (stream_up c g)) (cl_gateways y),
          cl_streams := fmupd ref \<lparr>sm_site = i, sm_served = True, sm_up = [], sm_down = []\<rparr> (cl_streams y),
          cl_current := fmupd i ref (cl_current y)\<rparr>)"

inductive cluster_step :: "codec \<Rightarrow> range_order \<Rightarrow> cluster \<Rightarrow> cluster \<Rightarrow> bool"
  for c :: codec and ord :: range_order
where
  cl_gateway: "fmlookup (cl_gateways y) i = Some g \<Longrightarrow> gw_own c ord g g' \<Longrightarrow> cluster_step c ord y (with_gateway i g' y)"
| cl_roomserver: "rs_own c ord (cl_server y) s \<Longrightarrow> cluster_step c ord y (y\<lparr>cl_server := s\<rparr>)"
| cl_connect: "fmlookup (cl_gateways y) i = Some g \<Longrightarrow> fmlookup (cl_current y) i = None \<Longrightarrow>
    cluster_step c ord y (connect_site c i g y)"
| cl_send: "fmlookup (cl_gateways y) i = Some g \<Longrightarrow> sendLoop g = Some (e, g') \<Longrightarrow> fmlookup (cl_current y) i = Some ref \<Longrightarrow>
    fmlookup (cl_streams y) ref = Some st \<Longrightarrow> sm_site st = i \<Longrightarrow>
    cluster_step c ord y (with_stream ref (st\<lparr>sm_up := sm_up st @ [e]\<rparr>) (with_gateway i g' y))"
| cl_send_fails: "fmlookup (cl_gateways y) i = Some g \<Longrightarrow> sendLoop g = Some (e, g') \<Longrightarrow>
    cluster_step c ord y (with_gateway i g' y)"
| cl_receive: "fmlookup (cl_streams y) ref = Some st \<Longrightarrow> sm_served st \<Longrightarrow> sm_up st = e # es \<Longrightarrow>
    handleGatewayMessage c ref e now (cl_server y) = Inr s \<Longrightarrow>
    cluster_step c ord y (with_stream ref (st\<lparr>sm_up := es\<rparr>) (y\<lparr>cl_server := s\<rparr>))"
| cl_write: "gatewayWriteLoop ref (cl_server y) = Some (e, s) \<Longrightarrow> fmlookup (cl_streams y) ref = Some st \<Longrightarrow>
    fmlookup (cl_current y) (sm_site st) = Some ref \<Longrightarrow>
    cluster_step c ord y (with_stream ref (st\<lparr>sm_down := sm_down st @ [e]\<rparr>) (y\<lparr>cl_server := s\<rparr>))"
| cl_write_fails: "gatewayWriteLoop ref (cl_server y) = Some (e, s) \<Longrightarrow> cluster_step c ord y (y\<lparr>cl_server := s\<rparr>)"
| cl_deliver: "fmlookup (cl_streams y) ref = Some st \<Longrightarrow> fmlookup (cl_current y) (sm_site st) = Some ref \<Longrightarrow>
    sm_down st = e # es \<Longrightarrow> fmlookup (cl_gateways y) (sm_site st) = Some g \<Longrightarrow>
    cluster_step c ord y (with_stream ref (st\<lparr>sm_down := es\<rparr>) (with_gateway (sm_site st) (handleEnvelope c ord e now g) y))"
| cl_disconnect: "fmlookup (cl_gateways y) i = Some g \<Longrightarrow>
    cluster_step c ord y ((with_gateway i (stream_down now g) y)\<lparr>cl_current := fmdrop i (cl_current y)\<rparr>)"
| cl_stream_ends: "fmlookup (cl_streams y) ref = Some st \<Longrightarrow> sm_served st \<Longrightarrow> Channel_close ref (cl_server y) = Inr s \<Longrightarrow>
    cluster_step c ord y (with_stream ref (st\<lparr>sm_served := False\<rparr>) (y\<lparr>cl_server := s\<rparr>))"
| cl_restart_roomserver: "rs_init s \<Longrightarrow> cluster_step c ord y (y\<lparr>cl_server := s, cl_streams := fmempty, cl_current := fmempty\<rparr>)"
| cl_restart_gateway: "fmlookup (cl_gateways y) i = Some g \<Longrightarrow> gw_init g' \<Longrightarrow> GatewayID g' = GatewayID g \<Longrightarrow>
    cluster_step c ord y ((with_gateway i g' y)\<lparr>cl_current := fmdrop i (cl_current y)\<rparr>)"

definition cluster_init :: "cluster \<Rightarrow> bool" where
  "cluster_init y \<longleftrightarrow> rs_init (cl_server y) \<and> (\<forall>i g. fmlookup (cl_gateways y) i = Some g \<longrightarrow> gw_init g)
     \<and> cl_streams y = fmempty \<and> cl_current y = fmempty"

section \<open>Routing\<close>

text \<open>
  With \<open>own ref\<close> the id of the gateway at the other end of a stream and \<open>G\<close> the ids of the system's
  gateways: a connection object has no id or that of its gateway, a registered id leads to a stream
  of that gateway, and sessions and the gateway lists of rooms name gateways of the system.
\<close>

definition routed :: "(conn_ref \<Rightarrow> gateway_id) \<Rightarrow> gateway_id set \<Rightarrow> Server \<Rightarrow> bool" where
  "routed own G s \<longleftrightarrow>
     (\<forall>ref conn. fmlookup (conns s) ref = Some conn \<longrightarrow> gc_id conn \<in> {'''', own ref})
     \<and> (\<forall>g ref. fmlookup (gateways s) g = Some ref \<longrightarrow> own ref = g)
     \<and> (\<forall>u x. sess u s = Some x \<longrightarrow> s_GatewayID x \<in> G)
     \<and> (\<forall>r g. view_in r g (roomSvc s) \<noteq> {||} \<longrightarrow> g \<in> G)"

lemma routedI:
  assumes "\<And>ref conn. fmlookup (conns s) ref = Some conn \<Longrightarrow> gc_id conn \<in> {'''', own ref}"
    and "\<And>g ref. fmlookup (gateways s) g = Some ref \<Longrightarrow> own ref = g"
    and "\<And>u x. sess u s = Some x \<Longrightarrow> s_GatewayID x \<in> G"
    and "\<And>r g. view_in r g (roomSvc s) \<noteq> {||} \<Longrightarrow> g \<in> G"
  shows "routed own G s"
  using assms unfolding routed_def by blast

lemma routedD:
  assumes "routed own G s"
  shows "fmlookup (conns s) ref = Some conn \<Longrightarrow> gc_id conn \<in> {'''', own ref}"
    and "fmlookup (gateways s) g = Some ref \<Longrightarrow> own ref = g"
    and "sess u s = Some x \<Longrightarrow> s_GatewayID x \<in> G"
    and "view_in r h (roomSvc s) \<noteq> {||} \<Longrightarrow> h \<in> G"
  using assms unfolding routed_def by blast+

lemma routed_quiet:
  assumes "routed own G s" and "quiet s t"
  shows "routed own G t"
proof (rule routedI)
  fix ref conn assume "fmlookup (conns t) ref = Some conn"
  then have "map_option gc_id (fmlookup (conns s) ref) = Some (gc_id conn)" using assms(2) unfolding quiet_def by (metis option.simps(9))
  then obtain k where "fmlookup (conns s) ref = Some k" "gc_id k = gc_id conn" by auto
  with routedD(1) [OF assms(1) this(1)] show "gc_id conn \<in> {[], own ref}" by simp
qed (use assms routedD [OF assms(1)] in \<open>simp_all add: quiet_def same_rooms_def\<close>)

text \<open>An operation on rooms and sessions is routed when it brings in no gateway but those of \<open>G\<close>.\<close>

lemma routed_rooms:
  assumes "routed own G s" and "conns t = conns s" and "gateways t = gateways s"
    and "\<And>u x. sess u t = Some x \<Longrightarrow> s_GatewayID x \<in> G \<or> (\<exists>y. sess u s = Some y \<and> s_GatewayID y = s_GatewayID x)"
    and "\<And>r g. view_in r g (roomSvc t) \<noteq> {||} \<Longrightarrow> g \<in> G \<or> view_in r g (roomSvc s) \<noteq> {||}"
  shows "routed own G t"
proof (rule routedI)
  fix u x assume "sess u t = Some x"
  with assms(4) [OF this] show "s_GatewayID x \<in> G" using routedD(3) [OF assms(1)] by metis
next
  fix r g assume "view_in r g (roomSvc t) \<noteq> {||}"
  then show "g \<in> G" using assms(5) routedD(4) [OF assms(1)] by blast
qed (use assms(2,3) routedD(1,2) [OF assms(1)] in simp_all)

lemma updated_session_gateway [simp]: "s_GatewayID (updated_session u r g now old) = g"
  by (simp add: updated_session_def new_session_def split: option.split)

lemma routed_JoinRoom: "routed own G s \<Longrightarrow> server_wf s \<Longrightarrow> g \<in> G \<Longrightarrow> routed own G (JoinRoom u r g now s)"
  by (erule routed_rooms) (auto simp: server_simps JoinRoom_def [of u r g now s] Let_def room_simps session_simps split: if_splits)

lemma routed_LeaveRoom: "routed own G s \<Longrightarrow> server_wf s \<Longrightarrow> routed own G (LeaveRoom u r s)"
  by (erule routed_rooms) (auto simp: server_simps LeaveRoom_def [of u r s] room_simps session_simps split: if_splits)

lemma routed_UserDisconnect: "routed own G s \<Longrightarrow> server_wf s \<Longrightarrow> routed own G (UserDisconnect u r now s)"
  by (erule routed_rooms) (auto simp: server_simps UserDisconnect_def [of u r now s] room_simps session_simps split: if_splits)

lemma routed_Resume: "routed own G s \<Longrightarrow> server_wf s \<Longrightarrow> g \<in> G \<Longrightarrow> routed own G (snd (Resume u r g now s))"
  by (erule routed_rooms) (auto simp: server_simps Resume_def [of u r g now s] room_simps session_simps split: if_splits option.splits)

lemma routed_timeouts: "routed own G s \<Longrightarrow> server_wf s \<Longrightarrow> routed own G (checkDisconnectTimeout ord tmo now s)"
proof -
  have "routed own G v \<Longrightarrow> server_wf v \<Longrightarrow> routed own G (fold (timeout_user tmo now) us v)" for us v
    by (induction us arbitrary: v) (simp_all add: timeout_user_eq routed_LeaveRoom server_wf_ops)
  then show "routed own G s \<Longrightarrow> server_wf s \<Longrightarrow> routed own G (checkDisconnectTimeout ord tmo now s)"
    by (simp add: checkDisconnectTimeout_def)
qed

lemma routed_resync:
  "routed own G s \<Longrightarrow> server_wf s \<Longrightarrow> g \<in> G \<Longrightarrow> routed own G (resync_users g ps now s)"
  unfolding resync_users_def by (induction ps arbitrary: s) (simp_all add: routed_JoinRoom server_wf_ops)

lemma routed_recovery: "routed own G s \<Longrightarrow> routed own G (s\<lparr>recovery := x\<rparr>)"
  by (simp add: routed_def)

text \<open>A gateway that registers under its own id keeps the routing.\<close>

lemma routed_info:
  assumes "codec_ok c" and "rs_inv c s" and "routed own G s" and "handleGatewayInfo c ref p s = Inr t"
    and "map_option gi_GatewayID (decGatewayInfo c p) = Some (own ref)"
  shows "routed own G t"
proof -
  have inv: "server_wf s" "streams_ok c s" using assms(2) by (simp_all add: rs_inv_def)
  obtain info where info: "decGatewayInfo c p = Some info" "gi_GatewayID info = own ref" using assms(5) by auto
  obtain conn where conn: "fmlookup (conns s) ref = Some conn" using assms(4) info by (auto simp: handleGatewayInfo_def split: option.splits)
  let ?k = "conn\<lparr>gc_id := own ref, gc_addr := gi_Addr info\<rparr>"
  let ?s1 = "s\<lparr>conns := fmupd ref ?k (conns s)\<rparr>"
  have "queue_ok c ?k" using streams_okD(1) [OF inv(2) conn] by (simp add: queue_ok_def)
  then have s1: "streams_ok c ?s1" by (rule streams_ok_put [OF inv(2) conn])
  have r1: "routed own G ?s1" using assms(3) by (simp add: routed_def)
  obtain u where u: "addGateway ref ?s1 = Inr u" "sendEpochNotify c ref u = Inr t"
    using assms(4) info conn by (auto simp: handleGatewayInfo_def go_bind_Inr_iff)
  obtain v where v: "quiet ?s1 v" "u = v\<lparr>gateways := fmupd (own ref) ref (gateways v)\<rparr>"
    using addGateway_quiet [OF u(1) s1] by auto
  have "routed own G u" using routed_quiet [OF r1 v(1)] unfolding v(2) by (auto simp: routed_def)
  moreover have "streams_ok c u" using addGateway_streams [OF u(1) s1] by blast
  then have "quiet u t" using send_streams [OF u(2) [unfolded sendEpochNotify_def]] gateway_bound_envelope(5) [OF assms(1)] by blast
  ultimately show ?thesis by (rule routed_quiet)
qed

lemma routed_join:
  assumes "codec_ok c" and "rs_inv c s" and "routed own G s" and "own ref \<in> G" and "handleJoinRoom c ref p now s = Inr t"
    and "map_option jr_GatewayID (decJoinRoomRequest c p) = Some (own ref)"
  shows "routed own G t"
proof -
  have inv: "server_wf s" "streams_ok c s" using assms(2) by (simp_all add: rs_inv_def)
  obtain req where req: "decJoinRoomRequest c p = Some req" "jr_GatewayID req = own ref" using assms(6) by auto
  let ?s = "JoinRoom (jr_UserID req) (jr_RoomID req) (own ref) now s"
  have "quiet ?s t" using assms(5) req rs_inv_ack [OF assms(1) server_wf_ops(1) [OF inv(1)] streams_ok_rooms(1) [OF inv(2)]]
    by (simp add: handleJoinRoom_def)
  then show ?thesis using routed_JoinRoom [OF assms(3) inv(1) assms(4)] routed_quiet by blast
qed

lemma routed_resume:
  assumes "codec_ok c" and "rs_inv c s" and "routed own G s" and "own ref \<in> G" and "handleResume c ref p now s = Inr t"
    and "map_option rr_GatewayID (decResumeRequest c p) = Some (own ref)"
  shows "routed own G t"
proof -
  have inv: "server_wf s" "streams_ok c s" using assms(2) by (simp_all add: rs_inv_def)
  obtain req where req: "decResumeRequest c p = Some req" "rr_GatewayID req = own ref" using assms(6) by auto
  let ?s = "snd (Resume (rr_UserID req) (rr_RoomID req) (own ref) now s)"
  obtain ok code msg where "sendJoinRoomAck c ref (rr_UserID req) (rr_RoomID req) ok code msg ?s = Inr t"
    using assms(5) req by (auto simp: handleResume_def split: prod.splits)
  then have "quiet ?s t" using rs_inv_ack [OF assms(1) server_wf_ops(3) [OF inv(1)] streams_ok_rooms(3) [OF inv(2)]] by blast
  then show ?thesis using routed_Resume [OF assms(3) inv(1) assms(4)] routed_quiet by blast
qed

lemma routed_message:
  assumes "codec_ok c" and "rs_inv c s" and "routed own G s" and "own ref \<in> G" and "server_bound c (own ref) e"
    and "handleGatewayMessage c ref e now s = Inr t"
  shows "routed own G t"
proof -
  have wf: "server_wf s" using assms(2) by (simp add: rs_inv_def)
  note step = assms(6) [unfolded handleGatewayMessage_def Let_def]
  from assms(5) show ?thesis unfolding server_bound_def Let_def
  proof (elim disjE conjE, goal_cases)
    case 1
    then show ?case using step routed_info [OF assms(1-3)] by simp
  next
    case 2
    then show ?case using step routed_join [OF assms(1-4)] by (auto simp: internal_msg_types)
  next
    case 3
    then show ?case using step routed_LeaveRoom [OF assms(3) wf] by (auto simp: internal_msg_types handleLeaveRoom_def)
  next
    case 4
    then show ?case using step routed_resume [OF assms(1-4)] by (auto simp: internal_msg_types)
  next
    case 5
    then show ?case using step routed_UserDisconnect [OF assms(3) wf] by (auto simp: internal_msg_types handleDisconnect_def)
  next
    case 6
    then show ?case using step routed_resync [OF assms(3) wf assms(4)]
      by (auto simp: internal_msg_types handleBatchReSync_def Let_def routed_recovery)
  next
    case 7
    then show ?case using step routed_recovery [OF assms(3)] by (auto simp: internal_msg_types handleReSyncComplete_def)
  qed
qed

lemma routed_own:
  assumes "codec_ok c" and "rs_inv c s" and "routed own G s" and "rs_own c ord s t"
  shows "routed own G t"
  using assms(4)
proof cases
  case (own_room_close meth creq resp)
  have cl: "routed own G (u\<lparr>roomSvc := snd (CloseRoom r (roomSvc u))\<rparr>)" if "quiet s u" for u r
    using routed_quiet [OF assms(3) that] by (auto simp: routed_def room_simps split: if_splits)
  show ?thesis using own_room_close cl assms(3) forward_inv [OF assms(2) _ gateway_bound_envelope(6) [OF assms(1)]]
    by (auto simp: handleRoomCloseHTTP_def go_bind_Inr_iff split: if_splits option.splits)
next
  case (own_notify_close r reason)
  then show ?thesis using rs_inv_notify(1) [OF assms(1,2)] routed_quiet [OF assms(3)] by blast
next
  case (own_notify_epoch now)
  then show ?thesis using rs_inv_notify(2) [OF assms(1,2)] routed_quiet [OF assms(3)] by blast
next
  case (own_timeout tmo now)
  then show ?thesis using routed_timeouts [OF assms(3)] assms(2) by (simp add: rs_inv_def)
next
  case (own_recovered started now)
  then have "quiet s t" by (auto simp: recoveryMonitor_def quiet_def same_rooms_def split: option.splits)
  then show ?thesis by (rule routed_quiet [OF assms(3)])
qed (use routed_quiet [OF assms(3)] rs_inv_unicast [OF assms(1,2)] rs_inv_multicast [OF assms(1,2)]
    rs_inv_broadcast [OF assms(1,2)] rs_inv_global [OF assms(1,2)] in blast)+

lemma routed_close: "routed own G s \<Longrightarrow> Channel_close ref s = Inr t \<Longrightarrow> streams_ok c s \<Longrightarrow> routed own G t"
proof -
  assume r: "routed own G s" and cl: "Channel_close ref s = Inr t" and st: "streams_ok c s"
  obtain u where u: "close_conn ref s = Inr u" using cl by (auto simp: Channel_close_def go_bind_Inr_iff)
  have "routed own G u" using close_conn_streams [OF u st] routed_quiet [OF r] by blast
  moreover have "routed own G v \<Longrightarrow> routed own G (removeGateway g v)" for g v
    by (auto simp: routed_def removeGateway_def)
  ultimately show ?thesis using cl u by (auto simp: Channel_close_def split: option.splits if_splits)
qed

lemma routed_write: "routed own G s \<Longrightarrow> gatewayWriteLoop ref s = Some (e, t) \<Longrightarrow> routed own G t"
  by (erule routed_quiet) (auto simp: gatewayWriteLoop_def split: option.splits list.splits intro!: quiet_put)

section \<open>The invariant of the system\<close>

definition site_id :: "cluster \<Rightarrow> nat \<Rightarrow> gateway_id" where
  "site_id y i = (case fmlookup (cl_gateways y) i of None \<Rightarrow> '''' | Some g \<Rightarrow> GatewayID g)"

definition stream_id :: "cluster \<Rightarrow> conn_ref \<Rightarrow> gateway_id" where
  "stream_id y ref = (case fmlookup (cl_streams y) ref of None \<Rightarrow> '''' | Some st \<Rightarrow> site_id y (sm_site st))"

definition gateway_ids :: "cluster \<Rightarrow> gateway_id set" where
  "gateway_ids y = {site_id y i | i. fmlookup (cl_gateways y) i \<noteq> None}"

definition stream_ok :: "codec \<Rightarrow> cluster \<Rightarrow> stream_link \<Rightarrow> bool" where
  "stream_ok c y st \<longleftrightarrow> fmlookup (cl_gateways y) (sm_site st) \<noteq> None
     \<and> (\<forall>e \<in> set (sm_up st). server_bound c (site_id y (sm_site st)) e) \<and> (\<forall>e \<in> set (sm_down st). gateway_bound c e)"

definition cluster_inv :: "codec \<Rightarrow> cluster \<Rightarrow> bool" where
  "cluster_inv c y \<longleftrightarrow> rs_inv c (cl_server y) \<and> routed (stream_id y) (gateway_ids y) (cl_server y)
     \<and> (\<forall>i g. fmlookup (cl_gateways y) i = Some g \<longrightarrow> typed c (GatewayID g) g)
     \<and> (\<forall>ref st. fmlookup (cl_streams y) ref = Some st \<longrightarrow> stream_ok c y st)
     \<and> (\<forall>ref. ref < next_ref (cl_server y) \<longrightarrow> fmlookup (cl_streams y) ref \<noteq> None)"

lemma cluster_invD:
  assumes "cluster_inv c y"
  shows "rs_inv c (cl_server y)" and "routed (stream_id y) (gateway_ids y) (cl_server y)"
    and "fmlookup (cl_gateways y) i = Some g \<Longrightarrow> typed c (GatewayID g) g"
    and "fmlookup (cl_streams y) ref = Some st \<Longrightarrow> stream_ok c y st"
    and "ref < next_ref (cl_server y) \<Longrightarrow> fmlookup (cl_streams y) ref \<noteq> None"
  using assms unfolding cluster_inv_def by blast+

lemma with_frame [simp]:
  "fmlookup (cl_gateways (with_gateway i g y)) j = (if j = i then Some g else fmlookup (cl_gateways y) j)"
  "cl_server (with_gateway i g y) = cl_server y" "cl_streams (with_gateway i g y) = cl_streams y"
  "cl_current (with_gateway i g y) = cl_current y"
  "fmlookup (cl_streams (with_stream ref st y)) x = (if x = ref then Some st else fmlookup (cl_streams y) x)"
  "cl_server (with_stream ref st y) = cl_server y" "cl_gateways (with_stream ref st y) = cl_gateways y"
  "cl_current (with_stream ref st y) = cl_current y"
  by (simp_all add: with_gateway_def with_stream_def)

text \<open>A gateway that keeps its id and stays typed.\<close>

lemma ids_with_gateway:
  assumes "fmlookup (cl_gateways y) i = Some g" and "GatewayID g' = GatewayID g"
  shows "site_id (with_gateway i g' y) = site_id y" and "stream_id (with_gateway i g' y) = stream_id y"
    and "gateway_ids (with_gateway i g' y) = gateway_ids y"
proof -
  show site: "site_id (with_gateway i g' y) = site_id y"
    using assms by (intro ext) (auto simp: site_id_def)
  then show "stream_id (with_gateway i g' y) = stream_id y"
    by (intro ext) (simp add: stream_id_def split: option.split)
  show "gateway_ids (with_gateway i g' y) = gateway_ids y"
    unfolding gateway_ids_def site using assms(1) by (intro Collect_cong ex_cong1 conj_cong refl) simp
qed

lemma cluster_inv_gateway:
  assumes "cluster_inv c y" and "fmlookup (cl_gateways y) i = Some g" and "typed c (GatewayID g) g'"
  shows "cluster_inv c (with_gateway i g' y)"
proof -
  have id: "GatewayID g' = GatewayID g" using assms(3) by (rule typed_id)
  have "stream_ok c (with_gateway i g' y) st = stream_ok c y st" for st
    using assms(2) by (auto simp: stream_ok_def ids_with_gateway [OF assms(2) id])
  then show ?thesis using assms(1,3) id
    unfolding cluster_inv_def ids_with_gateway [OF assms(2) id] by auto
qed

lemma cluster_inv_stream:
  assumes "cluster_inv c y" and "fmlookup (cl_streams y) ref = Some st" and "stream_ok c y st'" and "sm_site st' = sm_site st"
  shows "cluster_inv c (with_stream ref st' y)"
proof -
  have site: "site_id (with_stream ref st' y) = site_id y" by (intro ext) (simp add: site_id_def)
  then have "stream_id (with_stream ref st' y) = stream_id y"
    using assms(2,4) by (intro ext) (auto simp: stream_id_def split: option.split)
  moreover have "gateway_ids (with_stream ref st' y) = gateway_ids y" by (simp add: gateway_ids_def site)
  moreover have "stream_ok c (with_stream ref st' y) = stream_ok c y" by (intro ext) (simp add: stream_ok_def site)
  ultimately show ?thesis using assms(1,3) unfolding cluster_inv_def by auto
qed

lemma cluster_inv_server:
  assumes "cluster_inv c y" and "rs_inv c s" and "routed (stream_id y) (gateway_ids y) s"
    and "next_ref s = next_ref (cl_server y)"
  shows "cluster_inv c (y\<lparr>cl_server := s\<rparr>)"
proof -
  have "stream_id (y\<lparr>cl_server := s\<rparr>) = stream_id y" "gateway_ids (y\<lparr>cl_server := s\<rparr>) = gateway_ids y"
    "stream_ok c (y\<lparr>cl_server := s\<rparr>) = stream_ok c y"
    by (auto simp: stream_id_def site_id_def gateway_ids_def stream_ok_def fun_eq_iff split: option.split)
  then show ?thesis using assms unfolding cluster_inv_def by auto
qed

lemma cluster_inv_current: "cluster_inv c (y\<lparr>cl_current := m\<rparr>) = cluster_inv c y"
proof -
  have "stream_id (y\<lparr>cl_current := m\<rparr>) = stream_id y" "gateway_ids (y\<lparr>cl_current := m\<rparr>) = gateway_ids y"
    "stream_ok c (y\<lparr>cl_current := m\<rparr>) = stream_ok c y"
    by (auto simp: stream_id_def site_id_def gateway_ids_def stream_ok_def fun_eq_iff split: option.split)
  then show ?thesis by (simp add: cluster_inv_def)
qed

section \<open>Every step keeps the invariant\<close>

lemma site_id_gateway: "fmlookup (cl_gateways y) i = Some g \<Longrightarrow> site_id y i = GatewayID g"
  by (simp add: site_id_def)

lemma stream_id_in:
  assumes "cluster_inv c y" and "fmlookup (cl_streams y) ref = Some st"
  shows "stream_id y ref = site_id y (sm_site st)" and "stream_id y ref \<in> gateway_ids y"
  using cluster_invD(4) [OF assms] assms(2)
  by (auto simp: stream_id_def stream_ok_def site_id_def gateway_ids_def)

text \<open>No handler of the roomserver allocates a connection object.\<close>

lemma next_ref_conns:
  "sendToGateway ref ty p s = Inr t \<Longrightarrow> next_ref t = next_ref s" "close_conn ref s = Inr t \<Longrightarrow> next_ref t = next_ref s"
  by (auto simp: sendToGateway_def close_conn_def go_bind_Inr_iff split: option.splits if_splits)

lemma next_ref_add: "addGateway ref s = Inr t \<Longrightarrow> next_ref t = next_ref s"
  by (auto simp: addGateway_def go_bind_Inr_iff split: option.splits dest: next_ref_conns)

lemma next_ref_info: "handleGatewayInfo c ref p s = Inr t \<Longrightarrow> next_ref t = next_ref s"
proof (cases "decGatewayInfo c p")
  case (Some info)
  assume t: "handleGatewayInfo c ref p s = Inr t"
  then obtain conn where conn: "fmlookup (conns s) ref = Some conn" using Some by (auto simp: handleGatewayInfo_def split: option.splits)
  with t Some obtain u where
    "addGateway ref (s\<lparr>conns := fmupd ref (conn\<lparr>gc_id := gi_GatewayID info, gc_addr := gi_Addr info\<rparr>) (conns s)\<rparr>) = Inr u"
    "sendEpochNotify c ref u = Inr t" by (auto simp: handleGatewayInfo_def go_bind_Inr_iff)
  then show ?thesis using next_ref_add next_ref_conns(1) unfolding sendEpochNotify_def by fastforce
qed (simp add: handleGatewayInfo_def)

lemma next_ref_resume: "handleResume c ref p now s = Inr t \<Longrightarrow> next_ref t = next_ref s"
  unfolding handleResume_def sendJoinRoomAck_def
  by (auto split: option.splits prod.splits dest!: next_ref_conns) (metis Resume_frame(3) snd_conv)

lemma next_ref_message:
  assumes "handleGatewayMessage c ref e now s = Inr t"
  shows "next_ref t = next_ref s"
proof -
  have "handleJoinRoom c ref p now s = Inr t \<Longrightarrow> ?thesis" for p
    by (auto simp: handleJoinRoom_def sendJoinRoomAck_def dest!: next_ref_conns split: option.splits)
  moreover have "handleLeaveRoom c ref p s = Inr t \<Longrightarrow> ?thesis" "handleDisconnect c ref p now s = Inr t \<Longrightarrow> ?thesis"
    "handleBatchReSync c ref p now s = Inr t \<Longrightarrow> ?thesis" "handleReSyncComplete c ref p s = Inr t \<Longrightarrow> ?thesis" for p
    by (auto simp: handleLeaveRoom_def handleDisconnect_def handleBatchReSync_def handleReSyncComplete_def Let_def
        split: option.splits)
  ultimately show ?thesis using assms next_ref_info next_ref_resume
    unfolding handleGatewayMessage_def Let_def by (auto split: if_splits)
qed

lemma next_ref_close: "Channel_close ref s = Inr t \<Longrightarrow> next_ref t = next_ref s"
proof -
  assume cl: "Channel_close ref s = Inr t"
  then obtain u where u: "close_conn ref s = Inr u" by (auto simp: Channel_close_def go_bind_Inr_iff)
  with cl have "next_ref t = next_ref u" by (auto simp: Channel_close_def removeGateway_def split: option.splits if_splits)
  with next_ref_conns(2) [OF u] show ?thesis by simp
qed

lemma next_ref_own:
  assumes "codec_ok c" and "rs_inv c s" and "rs_own c ord s t"
  shows "next_ref t = next_ref s"
proof -
  have q: "quiet s u \<Longrightarrow> next_ref u = next_ref s" for u by (simp add: quiet_def)
  from assms(3) show ?thesis
  proof cases
    case (own_room_close meth creq resp)
    have "next_ref u = next_ref s" if "go_fold (forward InternalMsgRoomClose (Encode c (WRoomCloseNotify m))) gs s = Inr u" for u m gs
      by (rule q [OF conjunct2 [OF forward_inv [OF assms(2) that gateway_bound_envelope(6) [OF assms(1)]]]])
    with own_room_close show ?thesis by (auto simp: handleRoomCloseHTTP_def go_bind_Inr_iff split: if_splits option.splits)
  next
    case (own_notify_close r reason)
    then show ?thesis using q rs_inv_notify(1) [OF assms(1,2)] by blast
  next
    case (own_notify_epoch now)
    then show ?thesis using q rs_inv_notify(2) [OF assms(1,2)] by blast
  next
    case (own_timeout tmo now)
    have "next_ref (fold (timeout_user tmo now) us v) = next_ref v" for us v
      by (induction us arbitrary: v) (simp_all add: timeout_user_eq)
    then show ?thesis by (simp add: own_timeout checkDisconnectTimeout_def)
  next
    case (own_recovered started now)
    then show ?thesis by (auto simp: recoveryMonitor_def split: option.splits)
  qed (use q rs_inv_unicast [OF assms(1,2)] rs_inv_multicast [OF assms(1,2)] rs_inv_broadcast [OF assms(1,2)]
      rs_inv_global [OF assms(1,2)] in blast)+
qed

lemma cluster_inv_own:
  assumes "codec_ok c" and "cluster_inv c y" and "rs_own c ord (cl_server y) s"
  shows "cluster_inv c (y\<lparr>cl_server := s\<rparr>)"
  using rs_inv_step [OF assms(1) cluster_invD(1) [OF assms(2)] rs_own_step [OF assms(3)]]
    routed_own [OF assms(1) cluster_invD(1,2) [OF assms(2)] assms(3)] next_ref_own [OF assms(1) cluster_invD(1) [OF assms(2)] assms(3)]
  by (rule cluster_inv_server [OF assms(2)])

lemma cluster_inv_receive:
  assumes "codec_ok c" and "cluster_inv c y" and "fmlookup (cl_streams y) ref = Some st" and "e \<in> set (sm_up st)"
    and "handleGatewayMessage c ref e now (cl_server y) = Inr s"
  shows "cluster_inv c (y\<lparr>cl_server := s\<rparr>)"
proof (rule cluster_inv_server [OF assms(2)])
  have "server_bound c (stream_id y ref) e"
    using cluster_invD(4) [OF assms(2,3)] assms(4) stream_id_in(1) [OF assms(2,3)] by (simp add: stream_ok_def)
  then show "routed (stream_id y) (gateway_ids y) s"
    by (rule routed_message [OF assms(1) cluster_invD(1,2) [OF assms(2)] stream_id_in(2) [OF assms(2,3)] _ assms(5)])
qed (rule rs_inv_message [OF assms(1) cluster_invD(1) [OF assms(2)] assms(5)], rule next_ref_message [OF assms(5)])

lemma cluster_inv_write:
  assumes "cluster_inv c y" and "gatewayWriteLoop ref (cl_server y) = Some (e, s)"
  shows "cluster_inv c (y\<lparr>cl_server := s\<rparr>) \<and> gateway_bound c e"
  using cluster_inv_server [OF assms(1)] rs_inv_write [OF cluster_invD(1) [OF assms(1)] assms(2)]
    routed_write [OF cluster_invD(2) [OF assms(1)] assms(2)] assms(2)
  by (auto simp: gatewayWriteLoop_def split: option.splits list.splits)

lemma cluster_inv_connect:
  assumes "codec_ok c" and "cluster_inv c y" and "fmlookup (cl_gateways y) i = Some g"
  shows "cluster_inv c (connect_site c i g y)"
proof -
  let ?n = "next_ref (cl_server y)"
  let ?st = "\<lparr>sm_site = i, sm_served = True, sm_up = [], sm_down = []\<rparr>"
  define z where "z = with_gateway i (snd (stream_up c g)) y"
  have "typed c (GatewayID g) (snd (stream_up c g))"
    using typed_step [OF assms(1) cluster_invD(3) [OF assms(2,3)] step_up] by blast
  then have z: "cluster_inv c z" unfolding z_def by (rule cluster_inv_gateway [OF assms(2,3)])
  have srv: "cl_server z = cl_server y" by (simp add: z_def)
  define w where "w = connect_site c i g y"
  have w: "cl_server w = snd (Channel_open (cl_server y))" "cl_gateways w = cl_gateways z"
    "cl_streams w = fmupd ?n ?st (cl_streams z)"
    by (simp_all add: w_def z_def connect_site_def Channel_open_def with_gateway_def)
  have site: "site_id w = site_id z" by (simp add: site_id_def w(2) fun_eq_iff)
  have "gateway_ids w = gateway_ids z" by (simp add: gateway_ids_def site w(2))
  moreover have "stream_id w ref = stream_id z ref" if "ref < ?n" for ref
    using that by (simp add: stream_id_def site w(3) split: option.split)
  moreover have inv: "streams_ok c (cl_server z)" using cluster_invD(1) [OF z] by (simp add: rs_inv_def)
  ultimately have "routed (stream_id w) (gateway_ids w) (cl_server w)"
    using cluster_invD(2) [OF z] unfolding w(1) Channel_open_def srv
    by (auto simp: routed_def streams_ok_def split: if_splits) (metis not_None_eq)+
  moreover have "stream_ok c w st = stream_ok c z st" for st by (simp add: stream_ok_def site w(2))
  moreover have "stream_ok c w ?st" by (simp add: stream_ok_def w(2) z_def)
  moreover have "rs_inv c (cl_server w)" unfolding w(1) by (rule rs_inv_open [OF cluster_invD(1) [OF assms(2)]])
  ultimately show ?thesis using z unfolding cluster_inv_def w_def [symmetric]
    by (auto simp: w(2,3)) (auto simp: w(1) Channel_open_def z_def less_Suc_eq)
qed

lemma cluster_inv_send:
  assumes "codec_ok c" and "cluster_inv c y" and "fmlookup (cl_gateways y) i = Some g" and "sendLoop g = Some (e, g')"
  shows "cluster_inv c (with_gateway i g' y) \<and> server_bound c (GatewayID g) e"
proof -
  have g: "typed c (GatewayID g) g" by (rule cluster_invD(3) [OF assms(2,3)])
  then have "typed c (GatewayID g) g'" by (rule typed_step [OF assms(1) _ step_send [OF assms(4)]])
  moreover have "server_bound c (GatewayID g) e"
    using g assms(4) by (auto simp: sendLoop_def typed_def client_queue_def split: list.splits)
  ultimately show ?thesis using cluster_inv_gateway [OF assms(2,3)] by blast
qed

lemma cluster_inv_gw_step:
  assumes "codec_ok c" and "cluster_inv c y" and "fmlookup (cl_gateways y) i = Some g" and "gw_step c ord g g'"
  shows "cluster_inv c (with_gateway i g' y)"
  using cluster_inv_gateway [OF assms(2,3)] typed_step [OF assms(1) cluster_invD(3) [OF assms(2,3)] assms(4)] by blast

lemma cluster_inv_fresh:
  assumes "cluster_inv c y" and "rs_init s"
  shows "cluster_inv c (y\<lparr>cl_server := s, cl_streams := fmempty, cl_current := cur\<rparr>)"
proof -
  obtain i tmo v now where s: "s = Roomserver.Start (NewServer i tmo v now)" using assms(2) unfolding rs_init_def by blast
  have "routed own G s" for own G
    by (simp add: s routed_def Roomserver.Start_def NewServer_def room_simps session_simps)
  moreover have "next_ref s = 0" by (simp add: s Roomserver.Start_def NewServer_def)
  ultimately show ?thesis using assms rs_inv_init by (auto simp: cluster_inv_def)
qed

lemma cluster_inv_close:
  assumes "cluster_inv c y" and "Channel_close ref (cl_server y) = Inr s"
  shows "cluster_inv c (y\<lparr>cl_server := s\<rparr>)"
proof (rule cluster_inv_server [OF assms(1)])
  have inv: "rs_inv c (cl_server y)" by (rule cluster_invD(1) [OF assms(1)])
  then show "rs_inv c s" by (rule rs_inv_close [OF _ assms(2)])
  have "streams_ok c (cl_server y)" using inv by (simp add: rs_inv_def)
  then show "routed (stream_id y) (gateway_ids y) s" by (rule routed_close [OF cluster_invD(2) [OF assms(1)] assms(2)])
  show "next_ref s = next_ref (cl_server y)" by (rule next_ref_close [OF assms(2)])
qed

text \<open>A stream whose envelopes are among those it had, or one more that fits its direction.\<close>

lemma cluster_inv_transit:
  assumes "cluster_inv c y" and "fmlookup (cl_streams y) ref = Some st" and "sm_site st' = sm_site st"
    and "\<And>e. e \<in> set (sm_up st') \<Longrightarrow> e \<in> set (sm_up st) \<or> server_bound c (site_id y (sm_site st)) e"
    and "\<And>e. e \<in> set (sm_down st') \<Longrightarrow> e \<in> set (sm_down st) \<or> gateway_bound c e"
  shows "cluster_inv c (with_stream ref st' y)"
proof (rule cluster_inv_stream [OF assms(1,2) _ assms(3)])
  have "stream_ok c y st" by (rule cluster_invD(4) [OF assms(1,2)])
  then show "stream_ok c y st'" using assms(3-5) unfolding stream_ok_def by metis
qed

lemma cluster_inv_step:
  assumes "codec_ok c" and "cluster_inv c y" and "cluster_step c ord y z"
  shows "cluster_inv c z"
  using assms(3)
proof cases
  case (cl_gateway i g g')
  then show ?thesis using cluster_inv_gw_step [OF assms(1,2)] gw_own_step by blast
next
  case (cl_roomserver s)
  then show ?thesis using cluster_inv_own [OF assms(1,2)] by blast
next
  case (cl_connect i g)
  then show ?thesis using cluster_inv_connect [OF assms(1,2)] by blast
next
  case (cl_send i g e g' ref st)
  have s: "cluster_inv c (with_gateway i g' y)" "server_bound c (GatewayID g) e"
    using cluster_inv_send [OF assms(1,2) cl_send(2,3)] by blast+
  moreover have "site_id (with_gateway i g' y) i = GatewayID g" using cl_send(3) by (auto simp: site_id_def sendLoop_def split: list.splits)
  ultimately show ?thesis unfolding cl_send(1) using cl_send(5,6) by (intro cluster_inv_transit [OF s(1), of ref st]) auto
next
  case (cl_send_fails i g e g')
  then show ?thesis using cluster_inv_send [OF assms(1,2)] by blast
next
  case (cl_receive ref st e es now s)
  have s: "cluster_inv c (y\<lparr>cl_server := s\<rparr>)" using cl_receive by (intro cluster_inv_receive [OF assms(1,2)]) auto
  show ?thesis unfolding cl_receive(1) using cl_receive by (intro cluster_inv_transit [OF s, of ref st]) simp_all
next
  case (cl_write ref e s st)
  have s: "cluster_inv c (y\<lparr>cl_server := s\<rparr>)" "gateway_bound c e" using cluster_inv_write [OF assms(2) cl_write(2)] by blast+
  then show ?thesis unfolding cl_write(1) using cl_write(3) by (intro cluster_inv_transit [OF s(1), of ref st]) auto
next
  case (cl_write_fails ref e s)
  then show ?thesis using cluster_inv_write [OF assms(2)] by blast
next
  case (cl_deliver ref st e es g now)
  let ?y = "with_gateway (sm_site st) (handleEnvelope c ord e now g) y"
  have s: "cluster_inv c ?y" by (rule cluster_inv_gw_step [OF assms(1,2) cl_deliver(5) step_envelope])
  show ?thesis unfolding cl_deliver(1) using cl_deliver by (intro cluster_inv_transit [OF s, of ref st]) simp_all
next
  case (cl_disconnect i g now)
  then show ?thesis using cluster_inv_gw_step [OF assms(1,2) _ step_down] by (simp add: cluster_inv_current)
next
  case (cl_stream_ends ref st s)
  show ?thesis unfolding cl_stream_ends(1) using cl_stream_ends(2)
    by (intro cluster_inv_transit [OF cluster_inv_close [OF assms(2) cl_stream_ends(4)], of ref st]) simp_all
next
  case (cl_restart_roomserver s)
  then show ?thesis using cluster_inv_fresh [OF assms(2)] by blast
next
  case (cl_restart_gateway i g g')
  then show ?thesis using cluster_inv_gateway [OF assms(2), of i g g'] typed_init [of g' c] by (simp add: cluster_inv_current)
qed


section \<open>Reachable states of the system\<close>

interpretation clu: inductive_invariant cluster_init "\<lambda>y z. codec_ok c \<and> cluster_step c ord y z" "cluster_inv c" for c ord
proof
  fix y assume y: "cluster_init y"
  then have "fmlookup (cl_gateways y) i = Some g \<Longrightarrow> typed c (GatewayID g) g" for i g
    using typed_init unfolding cluster_init_def by blast
  moreover obtain i tmo v now where s: "cl_server y = Roomserver.Start (NewServer i tmo v now)"
    using y unfolding cluster_init_def rs_init_def by blast
  moreover have "rs_inv c (cl_server y)" using y rs_inv_init unfolding cluster_init_def by blast
  ultimately show "cluster_inv c y" using y
    by (simp add: cluster_inv_def cluster_init_def routed_def Roomserver.Start_def NewServer_def room_simps session_simps)
qed (auto intro: cluster_inv_step)

lemma reachable_cluster_inv:
  assumes "codec_ok c" and "reachable_by cluster_init (cluster_step c ord) y"
  shows "cluster_inv c y"
  using assms(2) by induction (use assms(1) in \<open>auto intro: clu.inv_init clu.inv_step\<close>)

text \<open>C6. The two programs understand each other. In every reachable state of a system of one roomserver and any
  number of gateways, whatever clients, backend, network failures and restarts do: every envelope
  in transit to the roomserver has a type that \<open>handleGatewayMessage\<close> dispatches on and a payload that its
  handler decodes, in the name of the gateway that sent it, and every envelope in transit to a gateway has a type
  that \<open>handleEnvelope\<close> dispatches on and a payload that its handler decodes. So no envelope is
  dropped for its type or its encoding.\<close>

theorem envelopes_in_transit_decode:
  assumes "codec_ok c" and "reachable_by cluster_init (cluster_step c ord) y" and "fmlookup (cl_streams y) ref = Some st"
  shows "\<exists>g. fmlookup (cl_gateways y) (sm_site st) = Some g \<and> (\<forall>e \<in> set (sm_up st). server_bound c (GatewayID g) e)
    \<and> (\<forall>e \<in> set (sm_down st). gateway_bound c e)"
  using cluster_invD(4) [OF reachable_cluster_inv [OF assms(1,2)] assms(3)] by (auto simp: stream_ok_def site_id_def)

text \<open>C5. The roomserver routes to the right gateway. In every reachable state of the system: the stream
  registered for a gateway id leads to a gateway of the system with that id, the gateway of every session and every
  gateway in the list of a room (the targets of unicasts, multicasts, broadcasts and close
  notices) is one of the system.\<close>

theorem roomserver_routes_to_its_gateways:
  assumes "codec_ok c" and "go_range ord" and "reachable_by cluster_init (cluster_step c ord) y"
  shows "(\<forall>id ref. GetGatewayByID id (cl_server y) = Some ref \<longrightarrow>
        (\<exists>st g. fmlookup (cl_streams y) ref = Some st \<and> fmlookup (cl_gateways y) (sm_site st) = Some g \<and> GatewayID g = id))
    \<and> (\<forall>u x. GetSession u (sessionSvc (cl_server y)) = Some x \<longrightarrow>
        (\<exists>i g. fmlookup (cl_gateways y) i = Some g \<and> GatewayID g = s_GatewayID x))
    \<and> (\<forall>r id. id \<in> set (GetRoomGatewayIDs ord r (roomSvc (cl_server y))) \<longrightarrow>
        (\<exists>i g. fmlookup (cl_gateways y) i = Some g \<and> GatewayID g = id))"
proof -
  have inv: "cluster_inv c y" by (rule reachable_cluster_inv [OF assms(1,3)])
  have wf: "server_wf (cl_server y)" "streams_ok c (cl_server y)" using cluster_invD(1) [OF inv] by (simp_all add: rs_inv_def)
  have site: "\<exists>g. fmlookup (cl_gateways y) (sm_site st) = Some g \<and> GatewayID g = site_id y (sm_site st)"
    if "fmlookup (cl_streams y) ref = Some st" for ref st
    using cluster_invD(4) [OF inv that] by (auto simp: stream_ok_def site_id_def)
  have ids: "\<exists>i g. fmlookup (cl_gateways y) i = Some g \<and> GatewayID g = id" if "id \<in> gateway_ids y" for id
    using that by (auto simp: gateway_ids_def site_id_def; blast)
  have "\<exists>st g. fmlookup (cl_streams y) ref = Some st \<and> fmlookup (cl_gateways y) (sm_site st) = Some g \<and> GatewayID g = id"
    if reg: "GetGatewayByID id (cl_server y) = Some ref" for id ref
  proof -
    have "fmlookup (gateways (cl_server y)) id = Some ref" using reg by (simp add: GetGatewayByID_def)
    then have "stream_id y ref = id" "ref < next_ref (cl_server y)"
      using routedD(2) [OF cluster_invD(2) [OF inv]] streams_okD [OF wf(2)] by blast+
    with cluster_invD(5) [OF inv] obtain st where st: "fmlookup (cl_streams y) ref = Some st" by blast
    with site [OF st] stream_id_in(1) [OF inv st] \<open>stream_id y ref = id\<close> show ?thesis by auto
  qed
  moreover have "set (GetRoomGatewayIDs ord r (roomSvc (cl_server y))) \<subseteq> gateway_ids y" for r
    using routedD(4) [OF cluster_invD(2) [OF inv]] set_GetRoomGatewayIDs [OF assms(2) server_wfD(1) [OF wf(1)]] by blast
  ultimately show ?thesis using ids routedD(3) [OF cluster_invD(2) [OF inv]] by blast
qed


section \<open>A gateway registers\<close>

text \<open>A system of one gateway: it connects, its send loop sends the registration, and the roomserver receives it.\<close>

definition sample_cluster :: cluster where
  "sample_cluster = \<lparr>cl_server = Roomserver.Start (NewServer ''rs'' 0 1 5), cl_gateways = fmupd 0 sample_gateway fmempty,
     cl_streams = fmempty, cl_current = fmempty\<rparr>"

definition sample_info :: Envelope where
  "sample_info = \<lparr>env_MsgType = InternalMsgGatewayInfo,
     env_Payload = Encode sample_codec (WGatewayInfo \<lparr>gi_GatewayID = ''g'', gi_Addr = ''addr'', gi_Connections = 0\<rparr>)\<rparr>"

definition sample_sent :: cluster where
  "sample_sent =
     (let y = connect_site sample_codec 0 sample_gateway sample_cluster
      in with_stream 0 \<lparr>sm_site = 0, sm_served = True, sm_up = [sample_info], sm_down = []\<rparr>
           (with_gateway 0 (sample_gateway\<lparr>roomserverClient := NewRoomserverClient\<lparr>connected := True\<rparr>\<rparr>) y))"

lemma sample_info_decodes:
  "env_MsgType sample_info = InternalMsgGatewayInfo"
  "decGatewayInfo sample_codec (env_Payload sample_info) = Some \<lparr>gi_GatewayID = ''g'', gi_Addr = ''addr'', gi_Connections = 0\<rparr>"
proof -
  have "codec_ok c \<Longrightarrow> decGatewayInfo c (Encode c (WGatewayInfo gi)) = Some gi" for c gi by simp
  from this [OF sample_codec_ok] show "env_MsgType sample_info = InternalMsgGatewayInfo"
    "decGatewayInfo sample_codec (env_Payload sample_info) = Some \<lparr>gi_GatewayID = ''g'', gi_Addr = ''addr'', gi_Connections = 0\<rparr>"
    unfolding sample_info_def by (simp_all only: Envelope.simps)
qed

lemma sample_up: "sendLoop (snd (stream_up sample_codec sample_gateway)) =
    Some (sample_info, sample_gateway\<lparr>roomserverClient := NewRoomserverClient\<lparr>connected := True\<rparr>\<rparr>)"
  by (simp add: sendLoop_def stream_up_def SetNormal_def sendGatewayInfo_def client_send_def Gateway_Server.send_def sample_gateway_def
      NewGateway_def NewRoomserverClient_def make_chan_def sample_info_def Let_def)

lemma sample_sent_reachable: "reachable_by cluster_init (cluster_step sample_codec sorted_list_of_fset) sample_sent"
proof -
  let ?R = "reachable_by cluster_init (cluster_step sample_codec sorted_list_of_fset)"
  let ?y = "connect_site sample_codec 0 sample_gateway sample_cluster"
  have "gw_init sample_gateway" unfolding gw_init_def sample_gateway_def by blast
  then have "cluster_init sample_cluster" by (auto simp: cluster_init_def sample_cluster_def rs_init_def split: if_splits)
  then have "?R sample_cluster" by (rule reachable_init)
  then have "?R ?y" by (rule reachable_step) (rule cl_connect, simp_all add: sample_cluster_def)
  moreover have "cluster_step sample_codec sorted_list_of_fset ?y sample_sent"
    unfolding sample_sent_def Let_def
    using cl_send [of ?y 0 "snd (stream_up sample_codec sample_gateway)", OF _ sample_up, of 0
        "\<lparr>sm_site = 0, sm_served = True, sm_up = [], sm_down = []\<rparr>" sample_codec sorted_list_of_fset]
    by (simp add: connect_site_def sample_cluster_def Channel_open_def NewServer_def Roomserver.Start_def)
  ultimately show ?thesis by (rule reachable_step)
qed

theorem envelopes_in_transit_decode_witness:
  "\<exists>g. fmlookup (cl_gateways sample_sent) 0 = Some g \<and> server_bound sample_codec (GatewayID g) sample_info"
proof -
  have "fmlookup (cl_streams sample_sent) 0 = Some \<lparr>sm_site = 0, sm_served = True, sm_up = [sample_info], sm_down = []\<rparr>"
    by (simp add: sample_sent_def Let_def)
  from envelopes_in_transit_decode [OF sample_codec_ok sample_sent_reachable this] show ?thesis by auto
qed

theorem roomserver_routes_to_its_gateways_witness:
  "\<exists>y :: cluster. GetGatewayByID ''g'' (cl_server y) = Some 0
     \<and> (\<exists>st g. fmlookup (cl_streams y) 0 = Some st \<and> fmlookup (cl_gateways y) (sm_site st) = Some g \<and> GatewayID g = ''g'')"
proof -
  let ?st = "\<lparr>sm_site = 0, sm_served = True, sm_up = [sample_info], sm_down = []\<rparr>"
  have st: "fmlookup (cl_streams sample_sent) 0 = Some ?st" by (simp add: sample_sent_def Let_def)
  have "\<exists>s. handleGatewayMessage sample_codec 0 sample_info 7 (cl_server sample_sent) = Inr s \<and> GetGatewayByID ''g'' s = Some 0"
    using sample_info_decodes
    by (simp add: handleGatewayMessage_def handleGatewayInfo_def sample_sent_def sample_cluster_def connect_site_def
        Channel_open_def NewServer_def Roomserver.Start_def addGateway_def sendEpochNotify_def sendToGateway_def try_send_def
        make_chan_def GetGatewayByID_def Let_def)
  then obtain s where s: "handleGatewayMessage sample_codec 0 sample_info 7 (cl_server sample_sent) = Inr s" "GetGatewayByID ''g'' s = Some 0"
    by blast
  define y where "y = with_stream 0 (?st\<lparr>sm_up := []\<rparr>) (sample_sent\<lparr>cl_server := s\<rparr>)"
  have "cluster_step sample_codec sorted_list_of_fset sample_sent y" unfolding y_def by (rule cl_receive [OF st _ _ s(1)]) simp_all
  with sample_sent_reachable have "reachable_by cluster_init (cluster_step sample_codec sorted_list_of_fset) y" by (rule reachable_step)
  moreover have "GetGatewayByID ''g'' (cl_server y) = Some 0" using s(2) by (simp add: y_def)
  ultimately show ?thesis using roomserver_routes_to_its_gateways [OF sample_codec_ok go_range_sorted] by blast
qed

end
