(* ===== verification/Go_Strings.thy ===== *)
theory Go_Strings
  imports Go_Runtime
begin

text \<open>
  Parsing and formatting of the standard library: numbers of \<open>strconv\<close>, zero-padded verbs of \<open>fmt\<close>
  and the string functions that split a command line. A string is its bytes, and \<open>strings\<close> looks at
  the runes they encode.
\<close>

section \<open>Numbers\<close>

text \<open>\<open>fmt.Sprintf\<close> with a zero-padded width.\<close>

definition pad :: "nat \<Rightarrow> int \<Rightarrow> string" where
  "pad n i = replicate (n - length (Itoa i)) (CHR ''0'') @ Itoa i"

text \<open>The value of a digit in bases up to 16, upper and lower case.\<close>

definition digit_value :: "char \<Rightarrow> nat option" where
  "digit_value ch = (let b = of_char ch :: nat in
     if 48 \<le> b \<and> b \<le> 57 then Some (b - 48)
     else if 97 \<le> b \<and> b \<le> 102 then Some (b - 97 + 10)
     else if 65 \<le> b \<and> b \<le> 70 then Some (b - 65 + 10)
     else None)"

definition digit_of :: "nat \<Rightarrow> char \<Rightarrow> nat option" where
  "digit_of base ch = (case digit_value ch of None \<Rightarrow> None | Some d \<Rightarrow> if d < base then Some d else None)"

text \<open>
  \<open>strconv.ParseUint\<close> with an explicit base, as a loop that stops at a bad digit or when the value
  exceeds the largest number of the given width; \<open>None\<close> is an error.
\<close>

fun parse_digits :: "nat \<Rightarrow> nat \<Rightarrow> nat \<Rightarrow> string \<Rightarrow> nat option" where
  "parse_digits base maxVal n [] = Some n"
| "parse_digits base maxVal n (ch # s) =
     (case digit_of base ch of
        None \<Rightarrow> None
      | Some d \<Rightarrow> if n * base + d > maxVal then None else parse_digits base maxVal (n * base + d) s)"

definition ParseUint :: "string \<Rightarrow> nat \<Rightarrow> nat \<Rightarrow> nat option" where
  "ParseUint s base bitSize = (if s = [] then None else parse_digits base (2 ^ bitSize - 1) 0 s)"

text \<open>\<open>strconv.Atoi\<close> for 64-bit integers: an optional sign and decimal digits.\<close>

definition Atoi :: "string \<Rightarrow> int option" where
  "Atoi s =
     (case s of
        [] \<Rightarrow> None
      | ch # rest \<Rightarrow>
          let neg = (ch = CHR ''-''); digits = (if ch = CHR ''-'' \<or> ch = CHR ''+'' then rest else s)
          in (case ParseUint digits 10 64 of
                None \<Rightarrow> None
              | Some n \<Rightarrow> if neg then if n \<le> 2 ^ 63 then Some (- int n) else None
                          else if n < 2 ^ 63 then Some (int n) else None))"

text \<open>\<open>%X\<close> and its zero-padded form.\<close>

definition hex_digit :: "nat \<Rightarrow> char" where
  "hex_digit d = char_of (if d < 10 then 48 + d else 55 + d)"

fun hexadecimal :: "nat \<Rightarrow> string" where
  "hexadecimal n = (if n < 16 then [hex_digit n] else hexadecimal (n div 16) @ [hex_digit (n mod 16)])"

declare hexadecimal.simps [simp del]

definition pad_hex :: "nat \<Rightarrow> nat \<Rightarrow> string" where
  "pad_hex n i = replicate (n - length (hexadecimal i)) (CHR ''0'') @ hexadecimal i"

section \<open>Strings\<close>

text \<open>\<open>unicode.IsSpace\<close>\<close>

definition IsSpace :: "nat \<Rightarrow> bool" where
  "IsSpace r \<longleftrightarrow> r \<in> {9, 10, 11, 12, 13, 32, 133, 160, 5760, 8232, 8233, 8239, 8287, 12288} \<or> 8192 \<le> r \<and> r \<le> 8202"

text \<open>The first rune of a string with the number of bytes it takes.\<close>

definition first_rune :: "string \<Rightarrow> nat \<times> nat" where
  "first_rune s = DecodeRune (map of_char s)"

text \<open>\<open>strings.Fields\<close>; \<open>acc\<close> is the field read so far.\<close>

function fields_loop :: "string \<Rightarrow> string \<Rightarrow> string list" where
  "fields_loop acc s =
     (if s = [] then if acc = [] then [] else [acc]
      else (case first_rune s of (r, n) \<Rightarrow>
        if IsSpace r then if acc = [] then fields_loop [] (drop n s) else acc # fields_loop [] (drop n s)
        else fields_loop (acc @ take n s) (drop n s)))"
  by pat_completeness auto
termination
  by (relation "measure (\<lambda>(acc, s). length s)")
     (auto simp: first_rune_def dest!: sym [of "(_, _)"], (metis DecodeRune_width length_greater_0_conv map_is_Nil_conv snd_conv diff_less)+)

declare fields_loop.simps [simp del]

definition Fields :: "string \<Rightarrow> string list" where
  "Fields s = fields_loop [] s"

text \<open>\<open>strings.SplitN\<close> with limit 2, \<open>strings.TrimPrefix\<close> and \<open>strings.Join\<close>.\<close>

definition SplitN2 :: "string \<Rightarrow> char \<Rightarrow> string list" where
  "SplitN2 s sep = (if sep \<in> set s then [takeWhile (\<lambda>ch. ch \<noteq> sep) s, tl (dropWhile (\<lambda>ch. ch \<noteq> sep) s)] else [s])"

definition TrimPrefix :: "string \<Rightarrow> string \<Rightarrow> string" where
  "TrimPrefix s prefix = (if take (length prefix) s = prefix then drop (length prefix) s else s)"

fun Join :: "string list \<Rightarrow> string \<Rightarrow> string" where
  "Join [] sep = []"
| "Join [x] sep = x"
| "Join (x # xs) sep = x @ sep @ Join xs sep"


text \<open>\<open>strings.TrimSpace\<close>: leading and trailing spaces are dropped.\<close>

function trim_left :: "string \<Rightarrow> string" where
  "trim_left s = (if s = [] then [] else (case first_rune s of (r, n) \<Rightarrow> if IsSpace r then trim_left (drop n s) else s))"
  by pat_completeness auto
termination
  by (relation "measure length")
     (auto simp: first_rune_def dest!: sym [of "(_, _)"], (metis DecodeRune_width length_greater_0_conv map_is_Nil_conv snd_conv diff_less)+)

function trim_right :: "string \<Rightarrow> string" where
  "trim_right s =
     (if s = [] then []
      else (case first_rune s of (r, n) \<Rightarrow>
        let rest = trim_right (drop n s) in if rest = [] \<and> IsSpace r then [] else take n s @ rest))"
  by pat_completeness auto
termination
  by (relation "measure length")
     (auto simp: first_rune_def dest!: sym [of "(_, _)"], (metis DecodeRune_width length_greater_0_conv map_is_Nil_conv snd_conv diff_less)+)

declare trim_left.simps [simp del] trim_right.simps [simp del]

definition TrimSpace :: "string \<Rightarrow> string" where
  "TrimSpace s = trim_right (trim_left s)"

section \<open>Lemmas on fields\<close>

lemma first_rune_width: "s \<noteq> [] \<Longrightarrow> 0 < snd (first_rune s)"
  by (simp add: first_rune_def DecodeRune_width)

lemma DecodeRune_append:
  assumes "bs \<noteq> []" and "fst (DecodeRune bs) \<noteq> rune_error"
  shows "DecodeRune (bs @ cs) = DecodeRune bs"
proof -
  obtain b bs' where bs: "bs = b # bs'" using assms(1) by (cases bs) auto
  have "utf8_size b \<in> {0, 1, 2, 3, 4}" by (simp add: utf8_size_def)
  then consider "utf8_size b = 0" | "utf8_size b = 1" | "utf8_size b = 2" | "utf8_size b = 3" | "utf8_size b = 4"
    by auto
  then show ?thesis
    by cases (use assms(2) in \<open>simp_all add: bs nth_append split: if_splits\<close>, auto)
qed

lemma first_rune_prefix:
  assumes "s \<noteq> []" and "IsSpace (fst (first_rune s))"
  shows "first_rune (s @ t) = first_rune s"
proof -
  have "fst (first_rune s) \<noteq> rune_error" using assms(2) by (auto simp: IsSpace_def rune_error_def)
  then show ?thesis using assms(1) unfolding first_rune_def by (simp add: DecodeRune_append)
qed

lemma trim_left_first: "trim_left s \<noteq> [] \<Longrightarrow> \<not> IsSpace (fst (first_rune (trim_left s)))"
proof (induction s rule: trim_left.induct)
  case (1 s)
  then show ?case
    by (cases "s = []"; cases "first_rune s"; cases "IsSpace (fst (first_rune s))") (simp_all add: trim_left.simps [of s] trim_left.simps [of "[]"])
qed

lemma trim_right_prefix: "\<exists>t. s = trim_right s @ t"
proof (induction s rule: trim_right.induct)
  case (1 s)
  show ?case
  proof (cases "s = []")
    case False
    obtain r n where rn: "first_rune s = (r, n)" by fastforce
    obtain t where t: "drop n s = trim_right (drop n s) @ t" using 1 [OF False rn [symmetric]] by blast
    have "s = take n s @ trim_right (drop n s) @ t" using t by (metis append_take_drop_id)
    then have "\<exists>t. s = take n s @ trim_right (drop n s) @ t" by blast
    then show ?thesis using False rn by (subst trim_right.simps) (simp add: Let_def)
  qed (simp add: trim_right.simps)
qed

lemma fields_loop_acc: "acc \<noteq> [] \<Longrightarrow> fields_loop acc s \<noteq> []"
proof (induction acc s rule: fields_loop.induct)
  case (1 acc s)
  then show ?case
    by (subst fields_loop.simps) (auto split: prod.split)
qed

text \<open>A line that is not blank has a first field.\<close>

lemma Fields_TrimSpace: "TrimSpace s \<noteq> [] \<Longrightarrow> Fields (TrimSpace s) \<noteq> []"
proof -
  assume ne: "TrimSpace s \<noteq> []"
  let ?u = "TrimSpace s" and ?l = "trim_left s"
  obtain t where t: "?l = ?u @ t" unfolding TrimSpace_def using trim_right_prefix by blast
  then have "?l \<noteq> []" using ne by auto
  then have "\<not> IsSpace (fst (first_rune (?u @ t)))" using trim_left_first t by metis
  then have sp: "\<not> IsSpace (fst (first_rune ?u))" using first_rune_prefix [OF ne] by metis
  obtain r n where rn: "first_rune ?u = (r, n)" by fastforce
  have "take n ?u \<noteq> []" using first_rune_width [OF ne] rn ne by simp
  then have "fields_loop (take n ?u) (drop n ?u) \<noteq> []" by (rule fields_loop_acc)
  then show ?thesis unfolding Fields_def using ne sp rn by (subst fields_loop.simps) simp
qed

section \<open>Lemmas on numbers\<close>

text \<open>The value of a string of digits, without a bound.\<close>

fun digits_val :: "nat \<Rightarrow> nat \<Rightarrow> string \<Rightarrow> nat option" where
  "digits_val base n [] = Some n"
| "digits_val base n (ch # s) = (case digit_of base ch of None \<Rightarrow> None | Some d \<Rightarrow> digits_val base (n * base + d) s)"

lemma digits_val_ge: "0 < base \<Longrightarrow> digits_val base n s = Some v \<Longrightarrow> n \<le> v"
proof (induction s arbitrary: n)
  case (Cons ch s)
  then obtain d where "digits_val base (n * base + d) s = Some v" by (auto split: option.splits)
  from Cons.IH [OF Cons.prems(1) this] have "n * base \<le> v" by simp
  moreover have "n * 1 \<le> n * base" using Cons.prems(1) by (intro mult_le_mono2) simp
  ultimately show ?case by linarith
qed simp

lemma parse_digits_val:
  assumes "0 < base" and "n \<le> maxVal"
  shows "parse_digits base maxVal n s = Some v \<longleftrightarrow> digits_val base n s = Some v \<and> v \<le> maxVal"
  using assms
proof (induction s arbitrary: n)
  case (Cons ch s)
  show ?case
  proof (cases "digit_of base ch")
    case (Some d)
    show ?thesis
    proof (cases "n * base + d > maxVal")
      case True
      then show ?thesis using Some digits_val_ge [OF Cons.prems(1), of "n * base + d" s v] by auto
    qed (use Cons Some in simp)
  qed simp
qed auto

lemma ParseUint_val: "0 < base \<Longrightarrow> ParseUint s base w = Some v \<longleftrightarrow> s \<noteq> [] \<and> digits_val base 0 s = Some v \<and> v < 2 ^ w"
  using parse_digits_val [of base 0 "2 ^ w - 1" s v] by (auto simp: ParseUint_def less_eq_Suc_le le_diff_conv2)

lemma digits_val_append: "digits_val base n (s @ t) = (case digits_val base n s of None \<Rightarrow> None | Some m \<Rightarrow> digits_val base m t)"
  by (induction s arbitrary: n) (auto split: option.split)

lemma digits_val_zeros: "0 < base \<Longrightarrow> digits_val base 0 (replicate k (CHR ''0'') @ s) = digits_val base 0 s"
  by (induction k) (simp_all add: digit_of_def digit_value_def)

lemma digit_of_digit: "d < 10 \<Longrightarrow> digit_of 10 (digit d) = Some d"
  by (simp add: digit_of_def digit_value_def digit_def)

lemma digit_of_hex: "d < 16 \<Longrightarrow> digit_of 16 (hex_digit d) = Some d"
  by (simp add: digit_of_def digit_value_def hex_digit_def)

lemma digits_val_decimal: "digits_val 10 0 (decimal m) = Some m"
proof (induction m rule: decimal.induct)
  case (1 n)
  show ?case by (cases "n < 10") (simp_all add: decimal.simps [of n] 1 digits_val_append digit_of_digit)
qed

lemma digits_val_hexadecimal: "digits_val 16 0 (hexadecimal m) = Some m"
proof (induction m rule: hexadecimal.induct)
  case (1 n)
  show ?case by (cases "n < 16") (simp_all add: hexadecimal.simps [of n] 1 digits_val_append digit_of_hex)
qed

lemma decimal_nonempty [simp]: "decimal n \<noteq> []"
  by (subst decimal.simps) simp

lemma hexadecimal_nonempty [simp]: "hexadecimal n \<noteq> []"
  by (subst hexadecimal.simps) simp

lemma ParseUint_pad_hex: "m < 2 ^ w \<Longrightarrow> ParseUint (pad_hex k m) 16 w = Some m"
  by (simp add: ParseUint_val pad_hex_def digits_val_zeros digits_val_hexadecimal)

lemma pad_inj: "pad k (int i) = pad k (int j) \<Longrightarrow> i = j"
proof -
  assume "pad k (int i) = pad k (int j)"
  then have "digits_val 10 0 (pad k (int i)) = digits_val 10 0 (pad k (int j))" by simp
  then show "i = j" by (simp add: pad_def Itoa_def digits_val_zeros digits_val_decimal)
qed

lemma decimal_first: "\<exists>d s. d < 10 \<and> decimal n = digit d # s"
proof (induction n rule: decimal.induct)
  case (1 n)
  show ?case by (cases "n < 10") (use 1 in \<open>auto simp: decimal.simps [of n]\<close>)
qed

lemma Atoi_Itoa:
  assumes "- (2 ^ 63) \<le> i" and "i < 2 ^ 63"
  shows "Atoi (Itoa i) = Some i"
proof (cases "i < 0")
  case True
  then have "ParseUint (decimal (nat (- i))) 10 64 = Some (nat (- i))"
    using assms by (simp add: ParseUint_val digits_val_decimal nat_less_iff)
  then show ?thesis using True assms by (simp add: Atoi_def Itoa_def nat_le_iff)
next
  case False
  obtain d s where d: "d < 10" "decimal (nat i) = digit d # s" using decimal_first by blast
  then have sign: "digit d \<noteq> CHR ''-'' \<and> digit d \<noteq> CHR ''+''"
    by (auto simp: digit_def dest: arg_cong [of _ _ "of_char :: char \<Rightarrow> nat"])
  have "ParseUint (decimal (nat i)) 10 64 = Some (nat i)"
    using False assms by (simp add: ParseUint_val digits_val_decimal nat_less_iff)
  then show ?thesis using False assms sign d by (simp add: Atoi_def Itoa_def nat_less_iff)
qed

end
