(* ===== verification/Kafka_Client.thy ===== *)
theory Kafka_Client
  imports Kafka_Push Go_Strings "HOL-Library.Sublist"
begin

text \<open>
  The Kafka wrappers (\<open>pkg/kafka/consumer.go\<close>, \<open>pkg/kafka/producer.go\<close>,
  \<open>internal/gateway/kafka_producer.go\<close>) and how the gateway starts its consumer
  (\<open>startKafkaConsumer\<close>). The client library is outside the repository: what the reader returns is
  a list of turns, and the writer is a parameter \<open>write\<close> with a state of its own.
\<close>

section \<open>The consumer\<close>

record ConsumerConfig =
  cc_Brokers :: "string list"
  cc_Topic :: string
  cc_ConsumerGroup :: string

record Message =
  km_Key :: bytes
  km_Value :: bytes
  km_Partition :: int
  km_Offset :: int

record Consumer =
  con_cfg :: ConsumerConfig
  con_connected :: bool

definition NewConsumer :: "ConsumerConfig \<Rightarrow> Consumer option" where
  "NewConsumer cfg =
     (if cc_Brokers cfg = [] \<or> cc_Topic cfg = '''' \<or> cc_ConsumerGroup cfg = '''' then None
      else Some \<lparr>con_cfg = cfg, con_connected = True\<rparr>)"

text \<open>
  One turn of the loop: the context is done at the \<open>select\<close>, or the fetch fails (with the context
  cancelled meanwhile or not), or it returns a message at an instant. \<open>cs_commits\<close> are the
  messages given to \<open>CommitMessages\<close>, whose error is only logged; \<open>cs_state\<close> is what the handler
  works on. A loop that has not returned at the end of the list is still running.
\<close>

datatype turn = CtxDone | FetchFailed bool | Fetched Message instant

record 'h consuming =
  cs_consumer :: Consumer
  cs_commits :: "Message list"
  cs_state :: 'h
  cs_returned :: bool

fun consumer_Start ::
  "(Message \<Rightarrow> instant \<Rightarrow> 'h \<Rightarrow> string option \<times> 'h) \<Rightarrow> turn list \<Rightarrow> 'h consuming \<Rightarrow> 'h consuming" where
  "consumer_Start handler [] l = l"
| "consumer_Start handler (CtxDone # ts) l = l\<lparr>cs_returned := True\<rparr>"
| "consumer_Start handler (FetchFailed cancelled # ts) l =
     (if cancelled then l\<lparr>cs_returned := True\<rparr>
      else consumer_Start handler ts (l\<lparr>cs_consumer := (cs_consumer l)\<lparr>con_connected := False\<rparr>\<rparr>))"
| "consumer_Start handler (Fetched msg now # ts) l =
     (let l1 = l\<lparr>cs_consumer := (cs_consumer l)\<lparr>con_connected := True\<rparr>\<rparr>;
          (err, h) = handler msg now (cs_state l1)
      in consumer_Start handler ts (l1\<lparr>cs_state := h, cs_commits := cs_commits l1 @ [msg]\<rparr>))"

text \<open>The handler of the gateway never fails: a message that does not decode is dropped.\<close>

definition push_handler ::
  "codec \<Rightarrow> range_order \<Rightarrow> (bytes \<Rightarrow> PushMessage option) \<Rightarrow> Message \<Rightarrow> instant \<Rightarrow> GatewayServer \<Rightarrow> string option \<times> GatewayServer" where
  "push_handler c ord unmarshal msg now s = (None, handlePushMessage c ord (unmarshal (km_Value msg)) now s)"

text \<open>The start of the data plane: no consumer at all, or the loop over the turns.\<close>

definition startKafkaConsumer ::
  "codec \<Rightarrow> range_order \<Rightarrow> (bytes \<Rightarrow> PushMessage option) \<Rightarrow> string list \<Rightarrow> string \<Rightarrow> turn list \<Rightarrow> GatewayServer
   \<Rightarrow> GatewayServer consuming option" where
  "startKafkaConsumer c ord unmarshal brokers pushTopic ts s =
     (if brokers = [] \<or> pushTopic = '''' then None
      else
        let cfg = \<lparr>cc_Brokers = brokers, cc_Topic = pushTopic, cc_ConsumerGroup = GatewayID s\<rparr>
        in (case NewConsumer cfg of
              None \<Rightarrow> None
            | Some consumer \<Rightarrow>
                Some (consumer_Start (push_handler c ord unmarshal) ts
                  \<lparr>cs_consumer = consumer, cs_commits = [], cs_state = s, cs_returned = False\<rparr>)))"

section \<open>The producers\<close>

text \<open>\<open>write\<close> is \<open>WriteMessages\<close> of the library: whether it returns no error, and the writer after it.\<close>

type_synonym 'w write_messages = "'w \<Rightarrow> (bytes \<times> bytes) list \<Rightarrow> bool \<times> 'w"

record 'w Producer =
  pr_Brokers :: "string list"
  pr_Topic :: string
  pr_writer :: 'w

definition NewProducer :: "(string list \<Rightarrow> string \<Rightarrow> 'w) \<Rightarrow> string list \<Rightarrow> string \<Rightarrow> 'w Producer" where
  "NewProducer open_writer brokers topic =
     \<lparr>pr_Brokers = brokers, pr_Topic = topic, pr_writer = open_writer brokers topic\<rparr>"

definition SendBatch :: "'w write_messages \<Rightarrow> (bytes \<times> bytes) list \<Rightarrow> 'w Producer \<Rightarrow> bool \<times> 'w Producer" where
  "SendBatch write messages p =
     (case write (pr_writer p) messages of (ok, w) \<Rightarrow> (ok, p\<lparr>pr_writer := w\<rparr>))"

definition Producer_Send :: "'w write_messages \<Rightarrow> bytes \<Rightarrow> bytes \<Rightarrow> 'w Producer \<Rightarrow> bool \<times> 'w Producer" where
  "Producer_Send write key val p =
     (case write (pr_writer p) [(key, val)] of (ok, w) \<Rightarrow> (ok, p\<lparr>pr_writer := w\<rparr>))"

record 'w KafkaProducer =
  kp_writer :: 'w
  kp_connected :: bool

definition NewKafkaProducer :: "(string list \<Rightarrow> string \<Rightarrow> 'w) \<Rightarrow> string list \<Rightarrow> string \<Rightarrow> 'w KafkaProducer option" where
  "NewKafkaProducer open_writer brokers bizTopic =
     (if brokers = [] \<or> bizTopic = '''' then None
      else Some \<lparr>kp_writer = open_writer brokers bizTopic, kp_connected = False\<rparr>)"

definition string_bytes :: "string \<Rightarrow> bytes" where
  "string_bytes = map of_char"

text \<open>One round of \<open>checkConnection\<close>.\<close>

definition checkConnection :: "'w write_messages \<Rightarrow> 'w KafkaProducer \<Rightarrow> 'w KafkaProducer" where
  "checkConnection write p =
     (case write (kp_writer p) [(string_bytes ''health-check'', string_bytes ''ping'')] of
        (ok, w) \<Rightarrow> p\<lparr>kp_writer := w, kp_connected := ok\<rparr>)"

text \<open>
  \<open>time.Now().Format("20060102150405.000000")\<close>: the proleptic Gregorian date and the time of day in
  the local zone, whose offset in seconds is an argument, and the microseconds, which are truncated.
\<close>

definition civil_date :: "int \<Rightarrow> int \<times> int \<times> int" where
  "civil_date days =
     (let z = days + 719468;
          era = z div 146097;
          doe = z mod 146097;
          yoe = (doe - doe div 1460 + doe div 36524 - doe div 146096) div 365;
          doy = doe - (365 * yoe + yoe div 4 - yoe div 100);
          mp = (5 * doy + 2) div 153;
          d = doy - (153 * mp + 2) div 5 + 1;
          m = (if mp < 10 then mp + 3 else mp - 9)
      in (yoe + era * 400 + (if m \<le> 2 then 1 else 0), m, d))"

definition generateMsgID :: "int \<Rightarrow> instant \<Rightarrow> string" where
  "generateMsgID offset now =
     (let secs = now div second + offset; tod = secs mod 86400 in
      case civil_date (secs div 86400) of
        (y, m, d) \<Rightarrow> pad 4 y @ pad 2 m @ pad 2 d @ pad 2 (tod div 3600) @ pad 2 (tod div 60 mod 60)
          @ pad 2 (tod mod 60) @ ''.'' @ pad 6 (now mod second div 1000))"

text \<open>\<open>Send\<close> reads the clock twice: \<open>now\<close> for the time, \<open>later\<close> for the message id. The
  field \<open>Type\<close> of the code is never set and left out.\<close>

record StampedMessage = BizMessage +
  bz_MsgID :: string
  bz_Time :: int

definition stamp :: "int \<Rightarrow> instant \<Rightarrow> instant \<Rightarrow> BizMessage \<Rightarrow> StampedMessage" where
  "stamp offset now later msg =
     \<lparr>bz_UserID = bz_UserID msg, bz_RoomID = bz_RoomID msg, bz_Payload = bz_Payload msg, bz_Seq = bz_Seq msg,
      bz_MsgID = generateMsgID offset later, bz_Time = now div millisecond\<rparr>"

text \<open>\<open>marshal\<close> is the JSON encoder.\<close>

definition KafkaProducer_Send ::
  "'w write_messages \<Rightarrow> (StampedMessage \<Rightarrow> bytes option) \<Rightarrow> int \<Rightarrow> instant \<Rightarrow> instant \<Rightarrow> BizMessage \<Rightarrow> 'w KafkaProducer
   \<Rightarrow> bool \<times> 'w KafkaProducer" where
  "KafkaProducer_Send write marshal offset now later msg p =
     (case marshal (stamp offset now later msg) of
        None \<Rightarrow> (False, p)
      | Some data \<Rightarrow>
          (case write (kp_writer p) [(string_bytes (bz_UserID msg), data)] of
             (ok, w) \<Rightarrow> (ok, p\<lparr>kp_writer := w\<rparr>)))"

section \<open>The consumer loop\<close>

text \<open>The messages fetched before the loop returns, with the instants they arrive at.\<close>

fun fetched :: "turn list \<Rightarrow> (Message \<times> instant) list" where
  "fetched [] = []"
| "fetched (CtxDone # ts) = []"
| "fetched (FetchFailed cancelled # ts) = (if cancelled then [] else fetched ts)"
| "fetched (Fetched msg now # ts) = (msg, now) # fetched ts"

text \<open>Every fetched message is handled once, in order, and committed whether or not the handler failed.\<close>

lemma consumer_Start_effect:
  "cs_state (consumer_Start handler ts l) =
     fold (\<lambda>(msg, now) h. snd (handler msg now h)) (fetched ts) (cs_state l)"
  "cs_commits (consumer_Start handler ts l) = cs_commits l @ map fst (fetched ts)"
  by (induction handler ts l rule: consumer_Start.induct) (simp_all add: Let_def split: prod.split)

lemma consumer_Start_returned:
  "cs_returned (consumer_Start handler ts l) \<longleftrightarrow> cs_returned l \<or> CtxDone \<in> set ts \<or> FetchFailed True \<in> set ts"
  by (induction handler ts l rule: consumer_Start.induct) (auto simp: Let_def split: prod.split)

section \<open>Order from Kafka to the client queue\<close>

text \<open>The pushes among the fetched messages that address user \<open>u\<close>.\<close>

definition pushes_for ::
  "range_order \<Rightarrow> (bytes \<Rightarrow> PushMessage option) \<Rightarrow> user_id \<Rightarrow> GatewayServer \<Rightarrow> (Message \<times> instant) list \<Rightarrow> (PushMessage \<times> instant) list" where
  "pushes_for ord unmarshal u s fs =
     List.map_filter (\<lambda>(msg, now). case unmarshal (km_Value msg) of
        None \<Rightarrow> None | Some m \<Rightarrow> if u \<in> set (addressees ord m s) then Some (m, now) else None) fs"

definition push_ok :: "GatewayServer \<Rightarrow> PushMessage \<Rightarrow> bool" where
  "push_ok s m \<longleftrightarrow> (pm_Scope m = ''multicast'' \<longrightarrow> distinct (pm_UserIDs m)) \<and> (pm_Scope m = ''platform'' \<longrightarrow> one_room_each s)"

lemma dispatch_visits_localUsers [simp]:
  "localUsers (fold (dispatchToUser payload priority now) us s) = localUsers s"
  by (induction us arbitrary: s) simp_all

lemma handlePushMessage_frame [simp]:
  "connections (handlePushMessage c ord d now s) = connections s"
  "localRooms (handlePushMessage c ord d now s) = localRooms s"
  "localUsers (handlePushMessage c ord d now s) = localUsers s"
  "gw_ok s \<Longrightarrow> gw_ok (handlePushMessage c ord d now s)"
  by (cases d; simp add: handlePushMessage_eq du.visits_frame du.gw_ok_visits; simp add: handlePushMessage_def)+

lemma addressees_cong:
  "localRooms t = localRooms s \<Longrightarrow> localUsers t = localUsers s \<Longrightarrow> addressees ord m t = addressees ord m s"
  by (simp add: addressees_def GetRoomUsers_def room_users_def cong: if_cong)

lemma push_ok_cong: "localRooms t = localRooms s \<Longrightarrow> push_ok t m = push_ok s m"
  by (simp add: push_ok_def one_room_each_def in_room_def)

lemma distinct_addressees: "go_range ord \<Longrightarrow> push_ok s m \<Longrightarrow> distinct (addressees ord m s)"
  by (simp add: addressees_def push_ok_def room_users)

lemma pushes_for_cong:
  "localRooms t = localRooms s \<Longrightarrow> localUsers t = localUsers s \<Longrightarrow> pushes_for ord un u t fs = pushes_for ord un u s fs"
  by (simp add: pushes_for_def addressees_cong [of t s] cong: option.case_cong)

definition receive_push :: "codec \<Rightarrow> PushMessage \<times> instant \<Rightarrow> Connection \<Rightarrow> Connection" where
  "receive_push c = (\<lambda>(m, now). dispatched (buildPushPayload c m) (pm_Priority m) now)"

lemma push_on_connection:
  assumes "go_range ord" and "gw_ok s" and "\<forall>m. d = Some m \<longrightarrow> push_ok s m"
    and "fmlookup (connections s) u = Some ref" and "fmlookup (store s) ref = Some conn"
  shows "fmlookup (store (handlePushMessage c ord d now s)) ref =
    Some (case d of None \<Rightarrow> conn | Some m \<Rightarrow>
      if u \<in> set (addressees ord m s) then receive_push c (m, now) conn else conn)"
proof (cases d)
  case None
  then show ?thesis using assms by (simp add: handlePushMessage_def)
next
  case (Some m)
  then have "distinct (addressees ord m s)" using assms by (simp add: distinct_addressees)
  moreover have "(\<exists>v \<in> set (addressees ord m s). fmlookup (connections s) v = Some ref) \<longleftrightarrow> u \<in> set (addressees ord m s)"
    using assms(4) gw_ok_inj [OF assms(2,4)] by blast
  ultimately show ?thesis
    using assms Some by (simp add: handlePushMessage_eq du.visits_store receive_push_def)
qed

lemma pushes_on_connection:
  assumes "go_range ord" and "gw_ok s" and "\<forall>(msg, now) \<in> set fs. \<forall>m. un (km_Value msg) = Some m \<longrightarrow> push_ok s m"
    and "fmlookup (connections s) u = Some ref" and "fmlookup (store s) ref = Some conn"
  shows "fmlookup (store (fold (\<lambda>(msg, now) h. snd (push_handler c ord un msg now h)) fs s)) ref =
    Some (fold (receive_push c) (pushes_for ord un u s fs) conn)"
  using assms(2-)
proof (induction fs arbitrary: s conn)
  case Nil
  then show ?case by (simp add: pushes_for_def)
next
  case (Cons f fs)
  obtain msg now where f: "f = (msg, now)" by (cases f)
  let ?t = "handlePushMessage c ord (un (km_Value msg)) now s"
  let ?conn = "case un (km_Value msg) of None \<Rightarrow> conn | Some m \<Rightarrow>
      if u \<in> set (addressees ord m s) then receive_push c (m, now) conn else conn"
  have "fmlookup (store ?t) ref = Some ?conn"
    using assms(1) Cons.prems f by (intro push_on_connection) auto
  then have "fmlookup (store (fold (\<lambda>(msg, now) h. snd (push_handler c ord un msg now h)) fs ?t)) ref =
      Some (fold (receive_push c) (pushes_for ord un u ?t fs) ?conn)"
    using Cons.prems f by (intro Cons.IH) (auto simp: push_ok_cong [of ?t s])
  then show ?case
    by (simp add: f push_handler_def pushes_for_cong [of ?t s])
       (simp add: pushes_for_def map_filter_simps split: option.split)
qed

text \<open>
  What a client queue with room for \<open>n\<close> messages does with a push, without any other state: it is
  appended when the queue is short enough for its priority.
\<close>

definition headroom :: "string \<Rightarrow> nat \<Rightarrow> nat \<Rightarrow> bool" where
  "headroom prio len n \<longleftrightarrow>
     (if prio = ''critical'' then len < n else if prio = ''high'' then 20 * len < 19 * n
      else if prio = ''low'' then 2 * len < n else 5 * len < 4 * n)"

definition admit :: "nat \<Rightarrow> string \<times> bytes \<Rightarrow> bytes list \<Rightarrow> bytes list" where
  "admit n = (\<lambda>(prio, d) q. if headroom prio (length q) n then q @ [d] else q)"

definition push_item :: "codec \<Rightarrow> PushMessage \<times> instant \<Rightarrow> string \<times> bytes" where
  "push_item c = (\<lambda>(m, now). (pm_Priority m, buildPushPayload c m))"

lemma usage_le:
  assumes "0 < b" and "0 < n"
  shows "(of_nat a / of_nat b :: rat) \<le> of_nat l / of_nat n \<longleftrightarrow> a * n \<le> b * l"
proof -
  have "(of_nat a / of_nat b :: rat) \<le> of_nat l / of_nat n \<longleftrightarrow> (of_nat (a * n) :: rat) \<le> of_nat (b * l)"
    using assms by (simp add: field_simps)
  then show ?thesis by (simp only: of_nat_le_iff)
qed

lemma drop_iff_no_headroom:
  assumes "l < n"
  shows "shouldDrop default_protection (of_nat l / of_nat n) (parsePriority prio) \<longleftrightarrow> \<not> headroom prio l n"
proof -
  define u where "u = (of_nat l / of_nat n :: rat)"
  have "19 / 20 \<le> u \<longleftrightarrow> 19 * n \<le> 20 * l" "4 / 5 \<le> u \<longleftrightarrow> 4 * n \<le> 5 * l" "1 / 2 \<le> u \<longleftrightarrow> n \<le> 2 * l"
    using assms usage_le [of 20 n 19 l] usage_le [of 5 n 4 l] usage_le [of 2 n 1 l]
    unfolding u_def by (simp_all del: divide_le_eq_numeral le_divide_eq_numeral)
  then show ?thesis
    using assms unfolding u_def [symmetric]
    by (auto simp: shouldDrop_def default_protection_def parsePriority_def priority_defs headroom_def)
qed

lemma receive_push_admit:
  "conn_buf (receive_push c p conn) = admit (conn_cap conn) (push_item c p) (conn_buf conn)"
  "conn_cap (receive_push c p conn) = conn_cap conn"
proof -
  obtain m now where p: "p = (m, now)" by (cases p)
  show "conn_cap (receive_push c p conn) = conn_cap conn"
    by (simp add: p receive_push_def dispatched_def conn_cap_def)
  show "conn_buf (receive_push c p conn) = admit (conn_cap conn) (push_item c p) (conn_buf conn)"
  proof (cases "length (conn_buf conn) < conn_cap conn")
    case True
    then show ?thesis
      using drop_iff_no_headroom [OF True, of "pm_Priority m"]
      by (simp add: p receive_push_def dispatched_def admit_def push_item_def cq.content_send
          QueueUsage_def conn_buf_def [symmetric] conn_cap_def [symmetric])
  next
    case False
    then have "\<not> headroom (pm_Priority m) (length (conn_buf conn)) (conn_cap conn)"
      by (simp add: headroom_def)
    with False show ?thesis
      by (simp add: p receive_push_def dispatched_def admit_def push_item_def cq.content_send)
  qed
qed

lemma receive_pushes_admit:
  "conn_buf (fold (receive_push c) ps conn) = fold (admit (conn_cap conn)) (map (push_item c) ps) (conn_buf conn)"
  by (induction ps arbitrary: conn) (simp_all add: receive_push_admit)

text \<open>The queue keeps a subsequence of what is offered, and of urgent pushes all that fit.\<close>

lemma admits_subseq: "\<exists>kept. fold (admit n) items q = q @ kept \<and> subseq kept (map snd items)"
proof (induction items arbitrary: q)
  case Nil
  then show ?case by simp
next
  case (Cons item items)
  obtain prio d where item: "item = (prio, d)" by (cases item)
  obtain kept where kept: "fold (admit n) items (admit n item q) = admit n item q @ kept" "subseq kept (map snd items)"
    using Cons by blast
  show ?case
    using kept by (cases "headroom prio (length q) n") (auto simp: item admit_def)
qed

lemma admits_critical:
  "\<forall>item \<in> set items. fst item = ''critical'' \<Longrightarrow>
     fold (admit n) items q = q @ take (n - length q) (map snd items)"
proof (induction items arbitrary: q)
  case Nil
  then show ?case by simp
next
  case (Cons item items)
  then show ?case
    by (cases "length q < n") (auto simp: admit_def headroom_def Suc_diff_Suc [symmetric] case_prod_beta)
qed


definition sample_push :: "string \<Rightarrow> PushMessage" where
  "sample_push prio = \<lparr>pm_Scope = ''user'', pm_RoomID = '''', pm_UserID = ''u'', pm_UserIDs = [], pm_Seq = 1,
     pm_Priority = prio, pm_Message = [1]\<rparr>"

text \<open>A decoder for the example: an empty message does not decode.\<close>

definition sample_unmarshal :: "bytes \<Rightarrow> PushMessage option" where
  "sample_unmarshal b = (if b = [] then None else Some (sample_push ''critical''))"

definition sample_turns :: "turn list" where
  "sample_turns =
     [Fetched \<lparr>km_Key = [], km_Value = [], km_Partition = 0, km_Offset = 6\<rparr> 5, FetchFailed False,
      Fetched \<lparr>km_Key = [], km_Value = [7], km_Partition = 0, km_Offset = 7\<rparr> 6, CtxDone]"


section \<open>The producers\<close>

text \<open>
  The producer of the gateway opens its writer with \<open>Async: true\<close>. By the documentation of the
  library such a write does not report the outcome: with a writer that accepts whatever it is
  given, the connection check always succeeds, whether or not a broker is there.
\<close>

definition async_writer :: "'w write_messages \<Rightarrow> bool" where
  "async_writer write \<longleftrightarrow> (\<forall>w ms. fst (write w ms))"

lemma async_check_always_connected: "async_writer write \<Longrightarrow> kp_connected (checkConnection write p)"
  by (simp add: async_writer_def checkConnection_def case_prod_beta)

text \<open>Two ids generated within one microsecond are equal.\<close>

lemma generateMsgID_collides:
  assumes "now div 1000 = now' div 1000"
  shows "generateMsgID offset now = generateMsgID offset now'"
proof -
  have "now div second = now' div second"
    using assms zdiv_zmult2_eq [of 1000000 now 1000] zdiv_zmult2_eq [of 1000000 now' 1000] by simp
  moreover have "t mod second div 1000 = t div 1000 mod 1000000" for t :: int
    using zmod_zmult2_eq [of 1000000 t 1000] by simp
  ultimately show ?thesis
    unfolding generateMsgID_def by (simp only: assms)
qed

lemma civil_date_example: "civil_date 19675 = (2023, 11, 14)" "civil_date 19782 = (2024, 2, 29)"
  unfolding civil_date_def Let_def by simp_all

lemma generateMsgID_example: "generateMsgID 0 1700000000123456789 = ''20231114221320.123456''"
  unfolding generateMsgID_def Let_def
  by (simp add: civil_date_example pad_def Itoa_def decimal.simps digit_def char_of_def bit_0)

text \<open>A request that cannot be encoded is never written; otherwise exactly one message, keyed by the user.\<close>

lemma KafkaProducer_Send_writes:
  "KafkaProducer_Send (\<lambda>w ms. (True, w @ ms)) marshal offset now later msg p =
     (case marshal (stamp offset now later msg) of
        None \<Rightarrow> (False, p)
      | Some data \<Rightarrow> (True, p\<lparr>kp_writer := kp_writer p @ [(string_bytes (bz_UserID msg), data)]\<rparr>))"
  by (simp add: KafkaProducer_Send_def split: option.split)

end
