(* ===== verification/Lifecycle.thy ===== *)
theory Lifecycle
  imports Gateway_Steps Kafka_Client Registry
begin

text \<open>
  Starting and stopping the two servers (\<open>Start\<close> and \<open>Stop\<close> of \<open>internal/gateway/server.go\<close> and
  \<open>internal/roomserver/server.go\<close>, with \<open>runHealthServer\<close>, \<open>runWebSocketServer\<close>, \<open>runGRPCServer\<close> and
  \<open>runHTTPServer\<close>). \<open>Start\<close> launches goroutines that are counted by a wait group, \<open>Stop\<close> cancels
  the context and waits for all of them. What makes each goroutine return is read off its code;
  the HTTP and gRPC libraries are outside the repository: a listener serves until it fails or its
  server is shut down, and a graceful stop waits for the open streams.
\<close>

section \<open>The gateway\<close>

datatype gw_goroutine =
    RunDistributor nat
  | RunKafkaConsumer
  | RunRoomserverClient
  | RunHealthServer
  | RunWebSocketServer

text \<open>\<open>s.httpServer\<close> is nil until \<open>runWebSocketServer\<close> has stored its server there.\<close>

datatype http_server = HttpNil | HttpServing | HttpClosed

datatype stop_phase = Up | StopShutdown | StopConnections | StopCancel | StopWait | Stopped

record gw_process =
  gp_server :: GatewayServer
  gp_running :: "gw_goroutine list"
  gp_httpServer :: http_server
  gp_cancelled :: bool
  gp_phase :: stop_phase

text \<open>
  The environment: whether the consumer is configured (see \<open>startKafkaConsumer\<close>) and whether the two
  listeners fail, as they do when their port is taken.
\<close>

record gw_env =
  kafka_configured :: bool
  health_fails :: bool
  websocket_fails :: bool

definition gw_Start :: "string list \<Rightarrow> string \<Rightarrow> GatewayServer \<Rightarrow> gw_process" where
  "gw_Start brokers bizTopic s =
     \<lparr>gp_server = s\<lparr>kafkaProducer := (if brokers = [] \<or> bizTopic = '''' then None else Some False),
                    roomserverClient := NewRoomserverClient\<rparr>,
      gp_running = map RunDistributor [0..<length (distributors s)]
        @ [RunKafkaConsumer, RunRoomserverClient, RunHealthServer, RunWebSocketServer],
      gp_httpServer = HttpNil, gp_cancelled = False, gp_phase = Up\<rparr>"

text \<open>When a goroutine returns.\<close>

fun gw_returns :: "gw_env \<Rightarrow> gw_process \<Rightarrow> gw_goroutine \<Rightarrow> bool" where
  "gw_returns e p (RunDistributor i) \<longleftrightarrow> gp_cancelled p"
| "gw_returns e p RunKafkaConsumer \<longleftrightarrow> \<not> kafka_configured e \<or> gp_cancelled p"
| "gw_returns e p RunRoomserverClient \<longleftrightarrow> gp_cancelled p"
| "gw_returns e p RunHealthServer \<longleftrightarrow> health_fails e"
| "gw_returns e p RunWebSocketServer \<longleftrightarrow> websocket_fails e \<or> gp_httpServer p = HttpClosed"

text \<open>
  The steps: a goroutine returns, the WebSocket server starts to serve, or \<open>Stop\<close> does its next
  action. \<open>Shutdown\<close> is skipped for a nil server.
\<close>

inductive gw_life :: "codec \<Rightarrow> range_order \<Rightarrow> gw_env \<Rightarrow> gw_process \<Rightarrow> gw_process \<Rightarrow> bool"
  for c :: codec and ord :: range_order and e :: gw_env
where
  life_return: "x \<in> set (gp_running p) \<Longrightarrow> gw_returns e p x \<Longrightarrow>
    gw_life c ord e p (p\<lparr>gp_running := remove1 x (gp_running p)\<rparr>)"
| life_serve: "RunWebSocketServer \<in> set (gp_running p) \<Longrightarrow> gp_httpServer p = HttpNil \<Longrightarrow>
    gw_life c ord e p (p\<lparr>gp_httpServer := HttpServing\<rparr>)"
| life_stop: "gp_phase p = Up \<Longrightarrow> gw_life c ord e p (p\<lparr>gp_phase := StopShutdown\<rparr>)"
| life_shutdown: "gp_phase p = StopShutdown \<Longrightarrow>
    gw_life c ord e p (p\<lparr>gp_httpServer := (if gp_httpServer p = HttpNil then HttpNil else HttpClosed), gp_phase := StopConnections\<rparr>)"
| life_close: "gp_phase p = StopConnections \<Longrightarrow> closeAllConnections c ord now (gp_server p) = Inr s \<Longrightarrow>
    gw_life c ord e p (p\<lparr>gp_server := s, gp_phase := StopCancel\<rparr>)"
| life_cancel: "gp_phase p = StopCancel \<Longrightarrow> gw_life c ord e p (p\<lparr>gp_cancelled := True, gp_phase := StopWait\<rparr>)"
| life_wait: "gp_phase p = StopWait \<Longrightarrow> gp_running p = [] \<Longrightarrow> gw_life c ord e p (p\<lparr>gp_phase := Stopped\<rparr>)"

inductive_cases gw_lifeE: "gw_life c ord e p q"

fun phase_work :: "stop_phase \<Rightarrow> nat" where
  "phase_work Up = 5"
| "phase_work StopShutdown = 4"
| "phase_work StopConnections = 3"
| "phase_work StopCancel = 2"
| "phase_work StopWait = 1"
| "phase_work Stopped = 0"

definition gw_work :: "gw_process \<Rightarrow> nat" where
  "gw_work p = phase_work (gp_phase p) + length (gp_running p) + (if gp_httpServer p = HttpNil then 1 else 0)"

interpretation gwl: terminating "gw_life c ord e" gw_work for c ord e
proof
  fix p q assume "gw_life c ord e p q"
  then show "gw_work q < gw_work p"
  proof cases
    case (life_return x)
    then have "length (remove1 x (gp_running p)) < length (gp_running p)"
      using length_pos_if_in_set [of x "gp_running p"] by (simp add: length_remove1)
    with life_return show ?thesis by (simp add: gw_work_def)
  qed (simp_all add: gw_work_def)
qed

section \<open>Closing all connections\<close>

lemma gw_inv_Close_all:
  assumes "gw_inv s" and "\<forall>ref \<in> set refs. fmlookup (store s) ref \<noteq> None"
  shows "\<exists>t. go_fold (\<lambda>ref. Close c ref now) refs s = Inr t \<and> gw_inv t
    \<and> (\<forall>ref. fmlookup (store t) ref = None \<longleftrightarrow> fmlookup (store s) ref = None)
    \<and> (\<forall>u ref. fmlookup (connections t) u = Some ref \<longrightarrow> fmlookup (connections s) u = Some ref \<and> ref \<notin> set refs)"
  using assms
proof (induction refs arbitrary: s)
  case Nil
  then show ?case by simp
next
  case (Cons ref refs)
  obtain conn where conn: "fmlookup (store s) ref = Some conn" using Cons.prems(2) by auto
  have ok: "gw_ok s" "open_ok s" using Cons.prems(1) by (simp_all add: gw_inv_def)
  define s1 where "s1 = (if closed conn then s else closed_state c ref conn now s)"
  have cl: "Close c ref now s = Inr s1"
    using conn Close_eq [OF ok(1) conn] by (simp add: s1_def Close_def)
  then have inv1: "gw_inv s1" by (rule gw_inv_Close [OF Cons.prems(1)])
  have st: "fmlookup (store s1) x = None \<longleftrightarrow> fmlookup (store s) x = None" for x
    using conn by (simp add: s1_def closed_state_def Let_def)
  have cs: "fmlookup (connections s1) u = Some x \<Longrightarrow> fmlookup (connections s) u = Some x \<and> x \<noteq> ref" for u x
  proof -
    assume u: "fmlookup (connections s1) u = Some x"
    show "fmlookup (connections s) u = Some x \<and> x \<noteq> ref"
    proof (cases "closed conn")
      case True
      then have "fmlookup (connections s) u = Some x" using u by (simp add: s1_def)
      moreover from this obtain k where "fmlookup (store s) x = Some k" "cn_UserID k = u" using gw_okD(3) [OF ok(1)] by blast
      ultimately show ?thesis using open_okD [OF ok(2) conn] True conn by auto
    next
      case False
      then have "fmlookup (connections s) (cn_UserID conn) = Some ref" using open_okD [OF ok(2) conn] by blast
      moreover have "u \<noteq> cn_UserID conn" "fmlookup (connections s) u = Some x"
        using u False by (auto simp: s1_def closed_state_def Let_def split: if_splits)
      ultimately show ?thesis using gw_ok_inj [OF ok(1)] by blast
    qed
  qed
  have "\<forall>x \<in> set refs. fmlookup (store s1) x \<noteq> None" using Cons.prems(2) st by simp
  from Cons.IH [OF inv1 this] cl st cs show ?case by (auto; blast)
qed

lemma closeAllConnections_effect:
  assumes "gw_inv s" and "go_range ord"
  shows "\<exists>t. closeAllConnections c ord now s = Inr t \<and> gw_inv t \<and> connections t = fmempty"
proof -
  let ?refs = "map (\<lambda>u. the (fmlookup (connections s) u)) (ord (fmdom (connections s)))"
  have ok: "gw_ok s" using assms(1) by (simp add: gw_inv_def)
  have "\<forall>ref \<in> set ?refs. fmlookup (store s) ref \<noteq> None"
    using assms(2) gw_okD(3) [OF ok] by (fastforce simp: fmdom_iff_lookup)
  then obtain t where t: "closeAllConnections c ord now s = Inr t" "gw_inv t"
      "\<And>u ref. fmlookup (connections t) u = Some ref \<Longrightarrow> fmlookup (connections s) u = Some ref \<and> ref \<notin> set ?refs"
    using gw_inv_Close_all [OF assms(1), of ?refs c now] unfolding closeAllConnections_def Let_def by blast
  have "fmlookup (connections t) u = None" for u
  proof (cases "fmlookup (connections t) u")
    case (Some ref)
    then have r: "fmlookup (connections s) u = Some ref" "ref \<notin> set ?refs" using t(3) by blast+
    then have "u \<in> set (ord (fmdom (connections s)))" using assms(2) by (simp add: fmdom_iff_lookup)
    then have "the (fmlookup (connections s) u) \<in> set ?refs" by (rule image_eqI [OF refl, THEN subsetD [OF eq_refl [OF set_map [symmetric]]]])
    with r show ?thesis by simp
  qed simp
  then have "connections t = fmempty" by (intro fmap_ext) simp
  with t show ?thesis by blast
qed

section \<open>Stopping the gateway\<close>

definition life_ok :: "gw_env \<Rightarrow> gw_process \<Rightarrow> bool" where
  "life_ok e p \<longleftrightarrow> gw_inv (gp_server p)
     \<and> (gp_cancelled p \<longleftrightarrow> gp_phase p \<in> {StopWait, Stopped})
     \<and> (gp_phase p \<in> {StopCancel, StopWait, Stopped} \<longrightarrow> connections (gp_server p) = fmempty)
     \<and> (\<not> health_fails e \<longrightarrow> RunHealthServer \<in> set (gp_running p))
     \<and> (gp_phase p = Stopped \<longrightarrow> gp_running p = [])"

lemma gw_inv_fields:
  "gw_inv s \<Longrightarrow> gw_inv (s\<lparr>kafkaProducer := k, roomserverClient := NewRoomserverClient\<rparr>)"
  unfolding gw_inv_def gw_ok_def rooms_ok_def shards_ok_def open_ok_def
  by (simp add: client_ok_def NewRoomserverClient_def client_queue_def client_capacity_def make_chan_def)

interpretation gws: inductive_invariant "\<lambda>p. \<exists>brokers topic s. gw_inv s \<and> p = gw_Start brokers topic s"
    "\<lambda>p q. go_range ord \<and> gw_life c ord e p q" "life_ok e" for c ord e
proof
  fix p assume "\<exists>brokers topic s. gw_inv s \<and> p = gw_Start brokers topic s"
  then show "life_ok e p" by (auto simp: life_ok_def gw_Start_def gw_inv_fields)
next
  fix p q assume inv: "life_ok e p" and step: "go_range ord \<and> gw_life c ord e p q"
  from step have "gw_life c ord e p q" by blast
  then show "life_ok e q"
  proof cases
    case (life_return x)
    have "RunHealthServer \<in> set (remove1 x (gp_running p))" if "\<not> health_fails e"
    proof -
      have "x \<noteq> RunHealthServer" using life_return that by auto
      then show ?thesis using inv that by (simp add: life_ok_def in_set_remove1)
    qed
    then show ?thesis using inv life_return by (auto simp: life_ok_def)
  next
    case (life_close now s)
    then obtain t where "closeAllConnections c ord now (gp_server p) = Inr t" "gw_inv t" "connections t = fmempty"
      using closeAllConnections_effect inv step unfolding life_ok_def by blast
    then show ?thesis using inv life_close by (auto simp: life_ok_def)
  qed (use inv in \<open>auto simp: life_ok_def\<close>)
qed

lemma life_ok_run:
  "go_range ord \<Longrightarrow> life_ok e p \<Longrightarrow> rtranclp (gw_life c ord e) p q \<Longrightarrow> life_ok e q"
  by (rotate_tac 2, induction rule: rtranclp_induct) (auto intro: gws.inv_step)

text \<open>A state without a successor: \<open>Stop\<close> has returned, or it waits for a listener.\<close>

lemma life_end:
  assumes "go_range ord" and "life_ok e q" and stuck: "\<And>r. \<not> gw_life c ord e q r"
  shows "gp_phase q = Stopped \<or> gp_phase q = StopWait \<and> gp_running q \<noteq> []"
    and "x \<in> set (gp_running q) \<Longrightarrow> x = RunHealthServer \<and> \<not> health_fails e
      \<or> x = RunWebSocketServer \<and> gp_httpServer q = HttpServing \<and> \<not> websocket_fails e"
proof -
  obtain t where "closeAllConnections c ord 0 (gp_server q) = Inr t"
    using closeAllConnections_effect [of "gp_server q" ord c 0] assms(1,2) unfolding life_ok_def by blast
  then show ph: "gp_phase q = Stopped \<or> gp_phase q = StopWait \<and> gp_running q \<noteq> []"
    using stuck by (cases "gp_phase q") (blast intro: gw_life.intros)+
  then have "gp_cancelled q" using assms(2) by (auto simp: life_ok_def)
  then show "x \<in> set (gp_running q) \<Longrightarrow> x = RunHealthServer \<and> \<not> health_fails e
      \<or> x = RunWebSocketServer \<and> gp_httpServer q = HttpServing \<and> \<not> websocket_fails e"
    using life_return [of x q e c ord] life_serve [of q c ord e] stuck
    by (cases x; cases "gp_httpServer q") auto
qed


lemma gw_inv_sample: "gw_inv sample_gateway"
  by (rule gwi.inv_init) (unfold gw_init_def sample_gateway_def, blast)


section \<open>The roomserver\<close>

datatype rs_goroutine = RunGRPCServer | RunHTTPServer | RunRecoveryMonitor | RunTimeoutChecker

text \<open>\<open>rp_streams\<close> are the open \<open>Channel\<close> calls, by the address of their connection object.\<close>

record rs_process =
  rp_server :: Server
  rp_running :: "rs_goroutine list"
  rp_streams :: "conn_ref list"
  rp_cancelled :: bool
  rp_phase :: stop_phase

record rs_env =
  grpc_fails :: bool
  http_fails :: bool

definition rs_Start :: "Server \<Rightarrow> conn_ref list \<Rightarrow> rs_process" where
  "rs_Start s streams =
     \<lparr>rp_server = Start s, rp_running = [RunGRPCServer, RunHTTPServer, RunRecoveryMonitor, RunTimeoutChecker],
      rp_streams = streams, rp_cancelled = False, rp_phase = Up\<rparr>"

text \<open>
  The goroutines: the gRPC server returns when it cannot listen, or after the cancellation when
  \<open>GracefulStop\<close> has seen all streams end; the timeout checker checks at every tick until the
  cancellation; the recovery monitor does not look at the context. A stream ends when its gateway
  ends it. The checks themselves do not bear on the shutdown and are left to \<open>call_step\<close>.
\<close>

inductive rs_life :: "rs_env \<Rightarrow> instant \<Rightarrow> rs_process \<Rightarrow> rs_process \<Rightarrow> bool"
  for e :: rs_env and started :: instant
where
  rs_grpc: "RunGRPCServer \<in> set (rp_running p) \<Longrightarrow> grpc_fails e \<or> rp_cancelled p \<and> rp_streams p = [] \<Longrightarrow>
    rs_life e started p (p\<lparr>rp_running := remove1 RunGRPCServer (rp_running p)\<rparr>)"
| rs_http: "RunHTTPServer \<in> set (rp_running p) \<Longrightarrow> http_fails e \<Longrightarrow>
    rs_life e started p (p\<lparr>rp_running := remove1 RunHTTPServer (rp_running p)\<rparr>)"
| rs_monitor: "RunRecoveryMonitor \<in> set (rp_running p) \<Longrightarrow> recoveryMonitor started now (rp_server p) = Some s \<Longrightarrow>
    rs_life e started p (p\<lparr>rp_server := s, rp_running := remove1 RunRecoveryMonitor (rp_running p)\<rparr>)"
| rs_checker: "RunTimeoutChecker \<in> set (rp_running p) \<Longrightarrow> rp_cancelled p \<Longrightarrow>
    rs_life e started p (p\<lparr>rp_running := remove1 RunTimeoutChecker (rp_running p)\<rparr>)"
| rs_stream: "ref \<in> set (rp_streams p) \<Longrightarrow> Channel_close ref (rp_server p) = Inr s \<Longrightarrow>
    rs_life e started p (p\<lparr>rp_server := s, rp_streams := remove1 ref (rp_streams p)\<rparr>)"
| rs_stop: "rp_phase p = Up \<Longrightarrow> rs_life e started p (p\<lparr>rp_phase := StopCancel\<rparr>)"
| rs_cancel: "rp_phase p = StopCancel \<Longrightarrow> rs_life e started p (p\<lparr>rp_cancelled := True, rp_phase := StopWait\<rparr>)"
| rs_wait: "rp_phase p = StopWait \<Longrightarrow> rp_running p = [] \<Longrightarrow> rs_life e started p (p\<lparr>rp_phase := Stopped\<rparr>)"

inductive_cases rs_lifeE: "rs_life e started p q"

definition rs_work :: "rs_process \<Rightarrow> nat" where
  "rs_work p = phase_work (rp_phase p) + length (rp_running p) + length (rp_streams p)"

lemma length_remove1_less: "x \<in> set xs \<Longrightarrow> length (remove1 x xs) < length xs"
  using length_pos_if_in_set [of x xs] by (simp add: length_remove1)

interpretation rsl: terminating "rs_life e started" rs_work for e started
  by unfold_locales (auto elim!: rs_lifeE simp: rs_work_def length_remove1_less)

definition rs_ok :: "rs_env \<Rightarrow> rs_process \<Rightarrow> bool" where
  "rs_ok e p \<longleftrightarrow> registry_ok (rp_server p) \<and> distinct (rp_streams p)
     \<and> (\<forall>ref \<in> set (rp_streams p). \<exists>conn. fmlookup (conns (rp_server p)) ref = Some conn \<and> \<not> gc_closed conn)
     \<and> (rp_cancelled p \<longleftrightarrow> rp_phase p \<in> {StopWait, Stopped}) \<and> rp_phase p \<in> {Up, StopCancel, StopWait, Stopped}
     \<and> (\<not> http_fails e \<longrightarrow> RunHTTPServer \<in> set (rp_running p))
     \<and> (RunGRPCServer \<notin> set (rp_running p) \<longrightarrow> grpc_fails e \<or> rp_streams p = []) \<and> (rp_phase p = Stopped \<longrightarrow> rp_running p = [])"

lemma rs_ok_stream:
  assumes "rs_ok e p" and "ref \<in> set (rp_streams p)" and "Channel_close ref (rp_server p) = Inr s"
  shows "rs_ok e (p\<lparr>rp_server := s, rp_streams := remove1 ref (rp_streams p)\<rparr>)"
proof -
  obtain conn where conn: "fmlookup (conns (rp_server p)) ref = Some conn" "\<not> gc_closed conn"
    using assms(1,2) unfolding rs_ok_def by blast
  have ok: "registry_ok (rp_server p)" "conns_ok (rp_server p)" using assms(1) by (simp_all add: rs_ok_def registry_ok_def)
  have "registry_ok s" using Channel_close_registry_ok [OF ok(1) conn] assms(3) by auto
  moreover have "fmlookup (conns s) x = fmlookup (conns (rp_server p)) x" if "x \<noteq> ref" for x
    using assms(3) conn that by (auto simp: Channel_close_eq [OF ok(2)] Let_def removeGateway_def split: if_splits)
  ultimately show ?thesis using assms(1) by (auto simp: rs_ok_def)
qed

lemma rs_ok_monitor:
  assumes "rs_ok e p" and "recoveryMonitor started now (rp_server p) = Some s"
  shows "rs_ok e (p\<lparr>rp_server := s, rp_running := remove1 RunRecoveryMonitor (rp_running p)\<rparr>)"
proof -
  have "conns s = conns (rp_server p)" "gateways s = gateways (rp_server p)" "next_ref s = next_ref (rp_server p)"
    using assms(2) by (auto simp: recoveryMonitor_def split: option.splits)
  moreover from this have "registry_ok s = registry_ok (rp_server p)" by (intro registry_ok_cong) simp_all
  ultimately show ?thesis using assms(1) by (auto simp: rs_ok_def in_set_remove1)
qed

lemma rs_ok_return:
  assumes "rs_ok e p" and "x = RunHTTPServer \<longrightarrow> http_fails e"
    and "x = RunGRPCServer \<longrightarrow> grpc_fails e \<or> rp_streams p = []"
  shows "rs_ok e (p\<lparr>rp_running := remove1 x (rp_running p)\<rparr>)"
proof -
  have keep: "y \<in> set (remove1 x (rp_running p)) \<longleftrightarrow> y \<in> set (rp_running p)" if "y \<noteq> x" for y
    using that by (rule in_set_remove1)
  have "\<not> http_fails e \<longrightarrow> RunHTTPServer \<in> set (remove1 x (rp_running p))"
    using assms(1,2) keep [of RunHTTPServer] unfolding rs_ok_def by blast
  moreover have "RunGRPCServer \<notin> set (remove1 x (rp_running p)) \<longrightarrow> grpc_fails e \<or> rp_streams p = []"
    using assms(1,3) keep [of RunGRPCServer] unfolding rs_ok_def by blast
  ultimately show ?thesis using assms(1) unfolding rs_ok_def by simp
qed

lemma rs_ok_step: "rs_ok e p \<Longrightarrow> rs_life e started p q \<Longrightarrow> rs_ok e q"
proof (erule rs_lifeE, goal_cases)
  case 5
  then show ?case using rs_ok_stream by blast
next
  case 3
  then show ?case using rs_ok_monitor by blast
qed (auto intro!: rs_ok_return, auto simp: rs_ok_def)

interpretation rss: inductive_invariant
    "\<lambda>p. \<exists>s streams. p = rs_Start s streams \<and> rs_ok e p" "rs_life e started" "rs_ok e" for e started
  by unfold_locales (auto intro: rs_ok_step)

lemma recoveryMonitor_eventually: "\<exists>now s'. recoveryMonitor started now s = Some s'"
  by (rule exI [of _ "started + timeout (recovery s)"]) (simp add: recoveryMonitor_def Wait_def split: option.split)



end
