(* ===== verification/Nacos.thy ===== *)
theory Nacos
  imports Go_Runtime Complex_Main
begin

text \<open>
  The service-discovery client (\<open>pkg/nacos/client.go\<close>): a cache of service instances with
  subscriptions. The client contacts no server yet: \<open>fetchInstances\<close> answers from constants, as in
  the code. A callback is started in a goroutine, so a call is recorded in \<open>calls\<close>; a callback is
  named by a number. The random choice of \<open>GetHealthyInstance\<close> is an argument.
\<close>

section \<open>State\<close>

record ServiceInstance =
  si_ServiceName :: string
  si_IP :: string
  si_Port :: int
  si_Metadata :: "(string, string) fmap"
  si_Healthy :: bool
  si_Weight :: rat

definition Address :: "ServiceInstance \<Rightarrow> string" where
  "Address i = si_IP i @ '':'' @ Itoa (si_Port i)"

record Client =
  services :: "(string, ServiceInstance list) fmap"
  callbacks :: "(string, nat list) fmap"
  stopped :: bool
  calls :: "(nat \<times> ServiceInstance list) list"

definition NewClient :: Client where
  "NewClient = \<lparr>services = fmempty, callbacks = fmempty, stopped = False, calls = []\<rparr>"

text \<open>A map lookup of a missing key yields the nil slice.\<close>

definition slice_at :: "string \<Rightarrow> (string, 'a list) fmap \<Rightarrow> 'a list" where
  "slice_at k m = (case fmlookup m k of None \<Rightarrow> [] | Some xs \<Rightarrow> xs)"

section \<open>Operations\<close>

definition fetchInstances :: "string \<Rightarrow> ServiceInstance list" where
  "fetchInstances serviceName =
     (if serviceName = ''roomserver''
      then [\<lparr>si_ServiceName = ''roomserver'', si_IP = ''localhost'', si_Port = 9000, si_Metadata = fmempty,
              si_Healthy = True, si_Weight = 1\<rparr>]
      else [])"

definition instancesEqual :: "ServiceInstance list \<Rightarrow> ServiceInstance list \<Rightarrow> bool" where
  "instancesEqual a b =
     (if length a \<noteq> length b then False
      else
        let aMap = fold (\<lambda>inst m. fmupd (Address inst) (si_Healthy inst) m) a fmempty
        in list_all (\<lambda>inst. case fmlookup aMap (Address inst) of
                        None \<Rightarrow> False
                      | Some healthy \<Rightarrow> healthy = si_Healthy inst) b)"

definition updateInstances :: "string \<Rightarrow> ServiceInstance list \<Rightarrow> Client \<Rightarrow> Client" where
  "updateInstances serviceName instances c =
     (let oldInstances = slice_at serviceName (services c);
          c1 = c\<lparr>services := fmupd serviceName instances (services c)\<rparr>
      in if \<not> instancesEqual oldInstances instances
         then c1\<lparr>calls := calls c1 @ map (\<lambda>cb. (cb, instances)) (slice_at serviceName (callbacks c))\<rparr>
         else c1)"

definition refreshServices :: "range_order \<Rightarrow> Client \<Rightarrow> Client" where
  "refreshServices ord c =
     (let serviceNames = foldl (\<lambda>names name. names @ [name]) [] (ord (fmdom (callbacks c)))
      in fold (\<lambda>name. updateInstances name (fetchInstances name)) serviceNames c)"

definition Subscribe :: "string \<Rightarrow> nat \<Rightarrow> Client \<Rightarrow> Client" where
  "Subscribe serviceName callback c =
     (let c1 = c\<lparr>callbacks := fmupd serviceName (slice_at serviceName (callbacks c) @ [callback]) (callbacks c)\<rparr>
      in updateInstances serviceName (fetchInstances serviceName) c1)"

definition GetInstances :: "string \<Rightarrow> Client \<Rightarrow> ServiceInstance list \<times> Client" where
  "GetInstances serviceName c =
     (let instances = slice_at serviceName (services c)
      in if length instances = 0
         then
           let fetched = fetchInstances serviceName
           in if length fetched > 0 then (fetched, c\<lparr>services := fmupd serviceName fetched (services c)\<rparr>)
              else (fetched, c)
         else (instances, c))"

text \<open>\<open>rand n\<close> is \<open>rand.Intn(n)\<close>, a number below \<open>n\<close>.\<close>

definition GetHealthyInstance :: "(nat \<Rightarrow> nat) \<Rightarrow> string \<Rightarrow> Client \<Rightarrow> ServiceInstance option \<times> Client" where
  "GetHealthyInstance rand serviceName c =
     (case GetInstances serviceName c of
        (instances, c1) \<Rightarrow>
          if length instances = 0 then (None, c1)
          else
            let healthy = foldl (\<lambda>hs inst. if si_Healthy inst then hs @ [inst] else hs) [] instances
            in if length healthy = 0 then (None, c1) else (Some (healthy ! rand (length healthy)), c1))"

definition RegisterService :: "ServiceInstance \<Rightarrow> Client \<Rightarrow> Client" where
  "RegisterService inst c = c"

definition DeregisterService :: "ServiceInstance \<Rightarrow> Client \<Rightarrow> Client" where
  "DeregisterService inst c = c"

definition GetConfig :: "string \<Rightarrow> Client \<Rightarrow> string" where
  "GetConfig dataID c = ''''"

definition Close :: "Client \<Rightarrow> Client go" where
  "Close c = (if stopped c then Inl (Panic ''close of closed channel'') else Inr (c\<lparr>stopped := True\<rparr>))"

section \<open>Healthy instances\<close>

lemma foldl_filter: "foldl (\<lambda>hs x. if P x then hs @ [x] else hs) acc xs = acc @ filter P xs"
  by (induction xs arbitrary: acc) simp_all

lemma GetInstances_cases:
  "GetInstances n c = (if slice_at n (services c) = [] then fetchInstances n else slice_at n (services c), snd (GetInstances n c))"
  by (simp add: GetInstances_def Let_def)

text \<open>Only healthy instances are handed out. The instance returned is one of the cached instances of the
  service, or of the fetched ones when none is cached, and is healthy; nothing is returned
  exactly when none of them is healthy. Looking up an instance changes at most the cache of that
  service, and only when it was empty.\<close>

lemma healthy_instance_returned:
  assumes "\<And>n. 0 < n \<Longrightarrow> rand n < n"
  shows "let known = (if slice_at name (services c) = [] then fetchInstances name else slice_at name (services c)) in
    (case fst (GetHealthyInstance rand name c) of
       Some inst \<Rightarrow> inst \<in> set known \<and> si_Healthy inst
     | None \<Rightarrow> \<forall>inst \<in> set known. \<not> si_Healthy inst)
    \<and> slice_at k (services (snd (GetHealthyInstance rand name c))) =
       (if k = name then known else slice_at k (services c))
    \<and> callbacks (snd (GetHealthyInstance rand name c)) = callbacks c \<and> calls (snd (GetHealthyInstance rand name c)) = calls c"
proof -
  define known where "known = (if slice_at name (services c) = [] then fetchInstances name else slice_at name (services c))"
  define hs where "hs = filter si_Healthy known"
  have state: "slice_at k (services (snd (GetInstances name c))) = (if k = name then known else slice_at k (services c))"
    "callbacks (snd (GetInstances name c)) = callbacks c" "calls (snd (GetInstances name c)) = calls c"
    by (auto simp: GetInstances_def known_def slice_at_def Let_def)
  have eq: "GetHealthyInstance rand name c =
      (if hs = [] then None else Some (hs ! rand (length hs)), snd (GetInstances name c))"
    by (subst GetHealthyInstance_def, subst GetInstances_cases) (auto simp: hs_def known_def foldl_filter Let_def)
  have "hs ! rand (length hs) \<in> set hs" if "hs \<noteq> []" using assms [of "length hs"] that by simp
  then have pick: "hs \<noteq> [] \<Longrightarrow> hs ! rand (length hs) \<in> set known \<and> si_Healthy (hs ! rand (length hs))"
    by (auto simp: hs_def)
  have none: "hs = [] \<Longrightarrow> \<forall>inst \<in> set known. \<not> si_Healthy inst"
    by (auto simp: hs_def filter_empty_conv)
  show ?thesis
    unfolding Let_def known_def [symmetric] eq using pick none state by auto
qed

lemma healthy_instance_returned_example:
  "fst (GetHealthyInstance (\<lambda>n. 0) ''gateway'' NewClient) = None
    \<and> (case fst (GetHealthyInstance (\<lambda>n. 0) ''roomserver'' NewClient) of None \<Rightarrow> False | Some inst \<Rightarrow> si_Healthy inst)"
  using healthy_instance_returned [of "\<lambda>n. 0" "''roomserver''" NewClient "''x''"]
    healthy_instance_returned [of "\<lambda>n. 0" "''gateway''" NewClient "''x''"]
  by (simp add: fetchInstances_def slice_at_def NewClient_def Let_def split: option.splits)

text \<open>The comparison of instance lists: sound for equal lists, but it ignores how often an address
  occurs, so replacing an instance by a second copy of another goes unnoticed.\<close>

lemma aMap_lookup:
  "fmlookup (fold (\<lambda>inst m. fmupd (Address inst) (si_Healthy inst) m) xs m) k =
     (case find (\<lambda>i. Address i = k) (rev xs) of Some i \<Rightarrow> Some (si_Healthy i) | None \<Rightarrow> fmlookup m k)"
  by (induction xs arbitrary: m rule: rev_induct) simp_all

lemma instancesEqual_refl:
  assumes "distinct (map Address xs)"
  shows "instancesEqual xs xs"
proof -
  have "find (\<lambda>i. Address i = Address x) (rev xs) = Some x" if "x \<in> set xs" for x
    using assms that
  proof (induction xs rule: rev_induct)
    case (snoc y ys)
    then show ?case by (cases "x = y") (auto simp: image_iff)
  qed simp
  then show ?thesis by (auto simp: instancesEqual_def aMap_lookup list_all_iff Let_def)
qed

lemma instancesEqual_misses_replacement:
  "x \<noteq> y \<Longrightarrow> Address x \<noteq> Address y \<Longrightarrow> instancesEqual [x, y] [x, x]"
  by (simp add: instancesEqual_def)

end
