(* ===== verification/Startup.thy ===== *)
theory Startup
  imports Lifecycle Nacos
begin

text \<open>
  From the command line to a serving process: the configuration structs and their loading
  (\<open>pkg/config/config.go\<close>), the default logger (\<open>pkg/logger/logger.go\<close>), \<open>NewServer\<close> of both servers as
  it reads the configuration, and the \<open>main\<close> functions of \<open>cmd/gateway\<close> and \<open>cmd/roomserver\<close>. The file
  system, the YAML decoder and the zap library are parameters.
\<close>

section \<open>Configuration (config.go)\<close>

record AuthConfig =
  JWTSecret :: string

record GatewayIdentity =
  gid_ID :: string
  gid_IP :: string
  gid_Port :: int

record DisconnectConfig =
  dc_Timeout :: int

record ServerConfig =
  sc_ID :: string
  sc_Addr :: string
  HealthAddr :: string

record RoomserverServerConfig =
  rsc_ID :: string
  GRPCAddr :: string
  HTTPAddr :: string

record WebSocketConfig =
  ReadBufferSize :: int
  WriteBufferSize :: int
  HandshakeTimeout :: duration

record DistributorConfig =
  Shards :: int
  InputQueueSize :: int

record ConnectionConfig =
  SendChSize :: int
  BatchInterval :: duration
  BatchMaxSize :: int
  HeartbeatInterval :: duration

text \<open>\<open>ProtectionConfig\<close> with the two fields that only the write loop reads.\<close>

record FullProtectionConfig = ProtectionConfig +
  WriteTimeout :: duration
  MaxConsecutiveWriteTimeouts :: int

record RoomserverClientConfig =
  ReconnectInterval :: duration
  ReconnectMaxInterval :: duration

record RoomConfig =
  MsgChSize :: int
  MemberDisconnectTimeout :: duration

record RecoveryConfig =
  rcv_Timeout :: duration
  PushQueueSize :: int
  GatewayRequestQueueSize :: int
  ReSyncBatchSize :: int
  ReSyncBatchInterval :: duration

record HashRingConfig =
  VirtualNodes :: int

record KafkaConfig =
  Brokers :: "string list"
  PushTopic :: string
  BizTopic :: string
  kc_BatchSize :: int
  kc_BatchTimeout :: duration

record NacosConfig =
  nc_ServerAddr :: string
  nc_Namespace :: string
  nc_ServiceName :: string
  RoomserverServiceName :: string
  GatewayServiceName :: string

record LogConfig =
  lc_Level :: string
  lc_Format :: string
  lc_Output :: string

record MetricsConfig =
  mc_Enabled :: bool
  mc_Addr :: string

record GatewayConfig =
  gcfg_Gateway :: GatewayIdentity
  gcfg_Server :: ServerConfig
  gcfg_WebSocket :: WebSocketConfig
  gcfg_Distributor :: DistributorConfig
  gcfg_Connection :: ConnectionConfig
  gcfg_Protection :: FullProtectionConfig
  gcfg_Roomserver :: RoomserverClientConfig
  gcfg_Kafka :: KafkaConfig
  gcfg_Auth :: AuthConfig
  gcfg_Nacos :: NacosConfig
  gcfg_Log :: LogConfig
  gcfg_Metrics :: MetricsConfig

record RoomserverConfig =
  rcfg_Server :: RoomserverServerConfig
  rcfg_Room :: RoomConfig
  rcfg_Recovery :: RecoveryConfig
  rcfg_Disconnect :: DisconnectConfig
  rcfg_HashRing :: HashRingConfig
  rcfg_Nacos :: NacosConfig
  rcfg_Log :: LogConfig
  rcfg_Metrics :: MetricsConfig

text \<open>
  What the programs ask of their environment: \<open>os.ReadFile\<close>, \<open>yaml.Unmarshal\<close> into each of the two
  structs, and the error of \<open>os.OpenFile\<close> on a log file; errors are their messages.
\<close>

record environment =
  os_ReadFile :: "string \<Rightarrow> string + bytes"
  yaml_Gateway :: "bytes \<Rightarrow> string + GatewayConfig"
  yaml_Roomserver :: "bytes \<Rightarrow> string + RoomserverConfig"
  os_OpenFile :: "string \<Rightarrow> string option"

definition LoadGatewayConfig :: "environment \<Rightarrow> string \<Rightarrow> string + GatewayConfig" where
  "LoadGatewayConfig env path =
     (case os_ReadFile env path of Inl err \<Rightarrow> Inl err
      | Inr data \<Rightarrow> (case yaml_Gateway env data of Inl err \<Rightarrow> Inl err | Inr cfg \<Rightarrow> Inr cfg))"

definition LoadRoomserverConfig :: "environment \<Rightarrow> string \<Rightarrow> string + RoomserverConfig" where
  "LoadRoomserverConfig env path =
     (case os_ReadFile env path of Inl err \<Rightarrow> Inl err
      | Inr data \<Rightarrow> (case yaml_Roomserver env data of Inl err \<Rightarrow> Inl err | Inr cfg \<Rightarrow> Inr cfg))"

section \<open>The default logger (logger.go)\<close>

datatype zap_level = DebugLevel | InfoLevel | WarnLevel | ErrorLevel

datatype zap_encoder = ConsoleEncoder | JSONEncoder

datatype zap_writer = Stdout | LogFile string

text \<open>\<open>ZapProduction\<close> stands for what \<open>zap.NewProduction\<close> returns.\<close>

datatype Logger = ZapCore zap_encoder zap_writer zap_level | ZapProduction

definition parseLevel :: "string \<Rightarrow> zap_level" where
  "parseLevel level =
     (if level = ''debug'' then DebugLevel
      else if level = ''info'' then InfoLevel
      else if level = ''warn'' then WarnLevel
      else if level = ''error'' then ErrorLevel
      else InfoLevel)"

text \<open>\<open>Init\<close> returns its error and the new value of \<open>defaultLogger\<close>.\<close>

definition logger_Init :: "environment \<Rightarrow> LogConfig \<Rightarrow> Logger option \<Rightarrow> string option \<times> Logger option" where
  "logger_Init env cfg defaultLogger =
     (let level = parseLevel (lc_Level cfg);
          encoder = (if lc_Format cfg = ''console'' then ConsoleEncoder else JSONEncoder)
      in if lc_Output cfg = ''stdout'' \<or> lc_Output cfg = ''''
         then (None, Some (ZapCore encoder Stdout level))
         else (case os_OpenFile env (lc_Output cfg) of
                 Some err \<Rightarrow> (Some err, defaultLogger)
               | None \<Rightarrow> (None, Some (ZapCore encoder (LogFile (lc_Output cfg)) level))))"

definition logger_L :: "Logger option \<Rightarrow> Logger \<times> Logger option" where
  "logger_L defaultLogger =
     (case defaultLogger of None \<Rightarrow> (ZapProduction, Some ZapProduction) | Some l \<Rightarrow> (l, Some l))"

text \<open>\<open>Debug\<close>, \<open>Info\<close>, \<open>Warn\<close> and \<open>Error\<close>: which logger gets the call, and the default logger after it.\<close>

definition logger_call :: "zap_level \<Rightarrow> string \<Rightarrow> Logger option \<Rightarrow> (Logger \<times> zap_level \<times> string) \<times> Logger option" where
  "logger_call level msg defaultLogger =
     (case logger_L defaultLogger of (l, d) \<Rightarrow> ((l, level, msg), d))"

text \<open>\<open>With\<close> and \<open>Sync\<close>: the logger that is asked, with the fields of the one and the flush of the other left to zap.\<close>

definition logger_With :: "'f list \<Rightarrow> Logger option \<Rightarrow> (Logger \<times> 'f list) \<times> Logger option" where
  "logger_With fs defaultLogger = (case logger_L defaultLogger of (l, d) \<Rightarrow> ((l, fs), d))"

definition logger_Sync :: "Logger option \<Rightarrow> Logger \<times> Logger option" where
  "logger_Sync defaultLogger = logger_L defaultLogger"

lemma logger_never_nil: "snd (logger_L d) = Some (fst (logger_L d))" "logger_L (snd (logger_L d)) = logger_L d"
  by (simp_all add: logger_L_def split: option.split)

section \<open>Construction from the configuration\<close>

text \<open>
  \<open>NewServer\<close> of the gateway: \<open>make\<close> panics on a negative length, and the validator and the discovery
  client exist when they are configured.
\<close>

record gateway_parts =
  gpt_server :: GatewayServer
  gpt_jwtValidator :: "JWTValidator option"
  gpt_nacosClient :: "Client option"

definition gateway_NewServer :: "GatewayConfig \<Rightarrow> gateway_parts go" where
  "gateway_NewServer cfg =
     (let n = Shards (gcfg_Distributor cfg); q = InputQueueSize (gcfg_Distributor cfg) in
      if n < 0 then Inl (Panic ''makeslice: len out of range'')
      else if 0 < n \<and> q < 0 then Inl (Panic ''makechan: size out of range'')
      else Inr \<lparr>gpt_server = NewGateway (gid_ID (gcfg_Gateway cfg)) (sc_Addr (gcfg_Server cfg)) (nat n) (nat q)
                  (ProtectionConfig.truncate (gcfg_Protection cfg)) None,
                gpt_jwtValidator = (if JWTSecret (gcfg_Auth cfg) \<noteq> '''' then Some (NewJWTValidator (JWTSecret (gcfg_Auth cfg))) else None),
                gpt_nacosClient = (if nc_ServerAddr (gcfg_Nacos cfg) \<noteq> '''' then Some NewClient else None)\<rparr>)"

text \<open>\<open>NewConnection\<close> and the first lines of \<open>writeLoop\<close> (connection.go) as they read the configuration.\<close>

definition configured_NewConnection :: "ConnectionConfig \<Rightarrow> user_id \<Rightarrow> string \<Rightarrow> Connection go" where
  "configured_NewConnection cfg userID connID =
     (if SendChSize cfg < 0 then Inl (Panic ''makechan: size out of range'')
      else Inr (NewConnection userID connID (nat (SendChSize cfg))))"

definition configured_writeLoop :: "ConnectionConfig \<Rightarrow> Connection \<Rightarrow> writer go" where
  "configured_writeLoop cfg conn =
     (if BatchInterval cfg \<le> 0 then Inl (Panic ''non-positive interval for NewTicker'')
      else if BatchMaxSize cfg < 0 then Inl (Panic ''makeslice: cap out of range'')
      else Inr (start_writer conn))"

definition roomserver_NewServer :: "RoomserverConfig \<Rightarrow> instant \<Rightarrow> Server" where
  "roomserver_NewServer cfg now =
     NewServer (rsc_ID (rcfg_Server cfg)) (rcv_Timeout (rcfg_Recovery cfg)) (VirtualNodes (rcfg_HashRing cfg)) now"

text \<open>
  \<open>Start\<close> of the gateway fails when \<open>NewKafkaProducer\<close> does; the two results of that function are its
  error and the producer.
\<close>

definition producer_results :: "KafkaConfig \<Rightarrow> string option \<times> bool option" where
  "producer_results cfg = (if Brokers cfg = [] \<or> BizTopic cfg = '''' then (None, None) else (None, Some False))"

definition gateway_Start :: "GatewayConfig \<Rightarrow> gateway_parts \<Rightarrow> string + gw_process" where
  "gateway_Start cfg s =
     (case producer_results (gcfg_Kafka cfg) of
        (Some err, _) \<Rightarrow> Inl err
      | (None, _) \<Rightarrow> Inr (gw_Start (Brokers (gcfg_Kafka cfg)) (BizTopic (gcfg_Kafka cfg)) (gpt_server s)))"

section \<open>The main functions\<close>

text \<open>How \<open>main\<close> ends before it waits for a signal, or the process that serves.\<close>

datatype 'p outcome = MainPanic string | MainFault fault | MainExit nat | MainServing 'p

definition gateway_main :: "environment \<Rightarrow> string \<Rightarrow> gw_process outcome \<times> Logger option" where
  "gateway_main env configPath =
     (case LoadGatewayConfig env configPath of
        Inl err \<Rightarrow> (MainPanic (''load config failed: '' @ err), None)
      | Inr cfg \<Rightarrow>
          (case logger_Init env (gcfg_Log cfg) None of
             (Some err, d) \<Rightarrow> (MainPanic (''init logger failed: '' @ err), d)
           | (None, d) \<Rightarrow>
               (case gateway_NewServer cfg of
                  Inl fault \<Rightarrow> (MainFault fault, d)
                | Inr s \<Rightarrow>
                    (case gateway_Start cfg s of Inl err \<Rightarrow> (MainExit 1, d) | Inr p \<Rightarrow> (MainServing p, d)))))"

definition roomserver_main :: "environment \<Rightarrow> string \<Rightarrow> instant \<Rightarrow> rs_process outcome \<times> Logger option" where
  "roomserver_main env configPath now =
     (case LoadRoomserverConfig env configPath of
        Inl err \<Rightarrow> (MainPanic (''load config failed: '' @ err), None)
      | Inr cfg \<Rightarrow>
          (case logger_Init env (rcfg_Log cfg) None of
             (Some err, d) \<Rightarrow> (MainPanic (''init logger failed: '' @ err), d)
           | (None, d) \<Rightarrow> (MainServing (rs_Start (roomserver_NewServer cfg now) []), d)))"

section \<open>How the processes come up\<close>

text \<open>The conditions under which each stage succeeds.\<close>

definition log_error :: "environment \<Rightarrow> LogConfig \<Rightarrow> string option" where
  "log_error env cfg = (if lc_Output cfg \<in> {''stdout'', ''''} then None else os_OpenFile env (lc_Output cfg))"

definition sizes_ok :: "DistributorConfig \<Rightarrow> bool" where
  "sizes_ok cfg \<longleftrightarrow> 0 \<le> Shards cfg \<and> (Shards cfg = 0 \<or> 0 \<le> InputQueueSize cfg)"

lemma logger_Init_error: "fst (logger_Init env cfg d) = log_error env cfg"
  by (simp add: logger_Init_def log_error_def Let_def split: option.split)

lemma logger_Init_logger:
  "log_error env cfg = None \<Longrightarrow> logger_Init env cfg d = (None, Some (ZapCore
     (if lc_Format cfg = ''console'' then ConsoleEncoder else JSONEncoder)
     (if lc_Output cfg \<in> {''stdout'', ''''} then Stdout else LogFile (lc_Output cfg)) (parseLevel (lc_Level cfg))))"
  by (auto simp: logger_Init_def log_error_def Let_def split: if_splits)

lemma gateway_NewServer_ok: "(\<exists>s. gateway_NewServer cfg = Inr s) \<longleftrightarrow> sizes_ok (gcfg_Distributor cfg)"
  by (auto simp: gateway_NewServer_def sizes_ok_def Let_def)

lemma gateway_NewServer_state:
  assumes "gateway_NewServer cfg = Inr s"
  shows "gw_init (gpt_server s)" and "GatewayID (gpt_server s) = gid_ID (gcfg_Gateway cfg)"
    and "int (length (distributors (gpt_server s))) = Shards (gcfg_Distributor cfg)"
    and "d \<in> set (distributors (gpt_server s)) \<Longrightarrow> int (cap (inputQueue d)) = InputQueueSize (gcfg_Distributor cfg)"
proof -
  have g: "gpt_server s = NewGateway (gid_ID (gcfg_Gateway cfg)) (sc_Addr (gcfg_Server cfg)) (nat (Shards (gcfg_Distributor cfg)))
      (nat (InputQueueSize (gcfg_Distributor cfg))) (ProtectionConfig.truncate (gcfg_Protection cfg)) None"
    and sz: "sizes_ok (gcfg_Distributor cfg)"
    using assms by (auto simp: gateway_NewServer_def sizes_ok_def Let_def split: if_splits)
  show "gw_init (gpt_server s)" unfolding gw_init_def g by blast
  show "GatewayID (gpt_server s) = gid_ID (gcfg_Gateway cfg)"
    and "int (length (distributors (gpt_server s))) = Shards (gcfg_Distributor cfg)"
    using sz by (simp_all add: g NewGateway_def sizes_ok_def)
  show "d \<in> set (distributors (gpt_server s)) \<Longrightarrow> int (cap (inputQueue d)) = InputQueueSize (gcfg_Distributor cfg)"
    using sz by (auto simp: g NewGateway_def NewDistributor_def make_chan_def sizes_ok_def)
qed

lemma gateway_Start_ok:
  "gateway_Start cfg s = Inr (gw_Start (Brokers (gcfg_Kafka cfg)) (BizTopic (gcfg_Kafka cfg)) (gpt_server s))"
  by (simp add: gateway_Start_def producer_results_def)

lemma gw_Start_state:
  "distributors (gp_server (gw_Start b t s)) = distributors s" "GatewayID (gp_server (gw_Start b t s)) = GatewayID s"
  "length (gp_running (gw_Start b t s)) = length (distributors s) + 4" "gp_phase (gw_Start b t s) = Up"
  by (simp_all add: gw_Start_def)



text \<open>The values of \<open>configs/gateway.yaml\<close>.\<close>

definition shipped_config :: GatewayConfig where
  "shipped_config =
     \<lparr>gcfg_Gateway = \<lparr>gid_ID = ''gateway-1'', gid_IP = ''127.0.0.1'', gid_Port = 8080\<rparr>,
      gcfg_Server = \<lparr>sc_ID = ''gateway-1'', sc_Addr = '':8080'', HealthAddr = '':8081''\<rparr>,
      gcfg_WebSocket = \<lparr>ReadBufferSize = 4096, WriteBufferSize = 4096, HandshakeTimeout = 10 * second\<rparr>,
      gcfg_Distributor = \<lparr>Shards = 10, InputQueueSize = 10000\<rparr>,
      gcfg_Connection = \<lparr>SendChSize = 1024, BatchInterval = 10 * millisecond, BatchMaxSize = 10, HeartbeatInterval = 20 * second\<rparr>,
      gcfg_Protection = \<lparr>QueueWarningRatio = 1/2, QueueSevereRatio = 4/5, QueueCriticalRatio = 19/20, QueueFullTimeout = 30 * second,
        MaxConsecutiveDrops = 50, WriteTimeout = 500 * millisecond, MaxConsecutiveWriteTimeouts = 10\<rparr>,
      gcfg_Roomserver = \<lparr>ReconnectInterval = second, ReconnectMaxInterval = 30 * second\<rparr>,
      gcfg_Kafka = \<lparr>Brokers = [], PushTopic = '''', BizTopic = '''', kc_BatchSize = 100, kc_BatchTimeout = 10 * millisecond\<rparr>,
      gcfg_Auth = \<lparr>JWTSecret = ''''\<rparr>,
      gcfg_Nacos = \<lparr>nc_ServerAddr = '''', nc_Namespace = '''', nc_ServiceName = '''', RoomserverServiceName = '''', GatewayServiceName = ''''\<rparr>,
      gcfg_Log = \<lparr>lc_Level = ''info'', lc_Format = ''json'', lc_Output = ''stdout''\<rparr>,
      gcfg_Metrics = \<lparr>mc_Enabled = True, mc_Addr = '':9090''\<rparr>\<rparr>"

text \<open>An environment in which every file exists and decodes to the same configuration.\<close>

definition env_with :: "GatewayConfig \<Rightarrow> environment" where
  "env_with cfg = \<lparr>os_ReadFile = (\<lambda>_. Inr []), yaml_Gateway = (\<lambda>_. Inr cfg), yaml_Roomserver = (\<lambda>_. Inl ''no roomserver''),
     os_OpenFile = (\<lambda>_. None)\<rparr>"

lemma env_with_loads: "LoadGatewayConfig (env_with cfg) path = Inr cfg"
  by (simp add: LoadGatewayConfig_def env_with_def)


text \<open>
  The configuration is not checked any further: without \<open>connection.batch_interval\<close>, whose value is then zero, the gateway
  comes up, and the write loop of the first connection panics in its goroutine.
\<close>

lemma configured_writeLoop_ok: "(\<exists>w. configured_writeLoop cfg conn = Inr w) \<longleftrightarrow> 0 < BatchInterval cfg \<and> 0 \<le> BatchMaxSize cfg"
  by (auto simp: configured_writeLoop_def)

lemma missing_batch_interval_panics:
  assumes "LoadGatewayConfig env path = Inr cfg" and "BatchInterval (gcfg_Connection cfg) = 0"
    and "log_error env (gcfg_Log cfg) = None" and "sizes_ok (gcfg_Distributor cfg)"
  shows "(\<exists>p. fst (gateway_main env path) = MainServing p)
    \<and> configured_writeLoop (gcfg_Connection cfg) conn = Inl (Panic ''non-positive interval for NewTicker'')"
proof -
  obtain s where "gateway_NewServer cfg = Inr s" using gateway_NewServer_ok assms(4) by blast
  then show ?thesis using assms(1,2) logger_Init_logger [OF assms(3), of None]
    by (simp add: gateway_main_def gateway_Start_ok configured_writeLoop_def)
qed

text \<open>The roomserver comes up whenever its configuration loads and its log opens; its server is an initial one.\<close>

lemma roomserver_main_outcome:
  "(\<exists>p. fst (roomserver_main env path now) = MainServing p) \<longleftrightarrow>
     (\<exists>cfg. LoadRoomserverConfig env path = Inr cfg \<and> log_error env (rcfg_Log cfg) = None)"
  "fst (roomserver_main env path now) = MainServing p \<Longrightarrow>
     server_wf (rp_server p) \<and> gateways (rp_server p) = fmempty \<and> length (rp_running p) = 4"
proof -
  have err: "\<exists>d. logger_Init env lc None = (log_error env lc, d)" for lc using logger_Init_error [of env lc None] by (metis prod.collapse)
  show "(\<exists>p. fst (roomserver_main env path now) = MainServing p) \<longleftrightarrow>
     (\<exists>cfg. LoadRoomserverConfig env path = Inr cfg \<and> log_error env (rcfg_Log cfg) = None)"
  proof (cases "LoadRoomserverConfig env path")
    case (Inr cfg)
    obtain d where "logger_Init env (rcfg_Log cfg) None = (log_error env (rcfg_Log cfg), d)" using err by blast
    with Inr show ?thesis by (cases "log_error env (rcfg_Log cfg)") (simp_all add: roomserver_main_def)
  qed (simp add: roomserver_main_def)
  have "server_wf (Roomserver.Start (NewServer i t v now)) = server_wf (NewServer i t v now)" for i t v
    by (rule server_wf_cong) (simp_all add: Roomserver.Start_def)
  then have st: "server_wf (Roomserver.Start (NewServer i t v now))" for i t v using server_wf_New by blast
  have ga: "gateways (Roomserver.Start (NewServer i t v now)) = fmempty" for i t v by (simp add: Roomserver.Start_def NewServer_def)
  assume "fst (roomserver_main env path now) = MainServing p"
  then obtain cfg where "p = rs_Start (roomserver_NewServer cfg now) []"
    by (auto simp: roomserver_main_def split: sum.splits prod.splits option.splits)
  then show "server_wf (rp_server p) \<and> gateways (rp_server p) = fmempty \<and> length (rp_running p) = 4"
    using st ga by (simp add: rs_Start_def roomserver_NewServer_def)
qed

end
