(* ===== verification/Reconnect.thy ===== *)
theory Reconnect
  imports Gateway_Steps
begin

text \<open>
  The reconnect loop of the gateway's roomserver client (\<open>Run\<close>, \<open>connectAndServe\<close> and \<open>close\<close> of
  \<open>internal/gateway/roomserver_client.go\<close>) with the goroutines it starts. Each stream gets a send
  loop and a receive loop; \<open>connectAndServe\<close> returns as soon as one of them has, and does not
  wait for the other. All send loops read the same queue, so a loop of an old stream competes with
  that of the current one. The gRPC library is outside the repository: a stream is up until the
  network, the roomserver, \<open>close\<close> or the context ends it, and a stream that is not up fails every
  \<open>Send\<close> and \<open>Recv\<close>.
\<close>

section \<open>State\<close>

text \<open>\<open>st_sent\<close> are the envelopes \<open>Send\<close> has accepted, \<open>st_lost\<close> those it refused.\<close>

record client_stream =
  st_up :: bool
  st_sending :: bool
  st_receiving :: bool
  st_sent :: "Envelope list"
  st_lost :: "Envelope list"

datatype run_state = Connecting | Serving nat | Waiting | Returned

text \<open>
  \<open>run_streams\<close> are all streams in the order they were opened. \<open>run_pending\<close> says whether the goroutine
  that \<open>SetNormal\<close> starts has yet to run. \<open>run_accepted\<close> and \<open>run_taken\<close> are history: the envelopes that
  the queue has accepted, and those that a send loop took, with the loop's stream.
\<close>

record client_run =
  run_server :: GatewayServer
  run_streams :: "client_stream list"
  run_state :: run_state
  run_interval :: duration
  run_waits :: nat
  run_cancelled :: bool
  run_pending :: bool
  run_accepted :: "Envelope list"
  run_taken :: "(nat \<times> Envelope) list"

abbreviation run_queue :: "client_run \<Rightarrow> Envelope list" where
  "run_queue w \<equiv> client_queue (roomserverClient (run_server w))"

definition start_run :: "duration \<Rightarrow> GatewayServer \<Rightarrow> client_run" where
  "start_run initial s = \<lparr>run_server = s, run_streams = [], run_state = Connecting, run_interval = initial, run_waits = 0,
     run_cancelled = False, run_pending = False, run_accepted = client_queue (roomserverClient s), run_taken = []\<rparr>"

definition open_stream :: client_stream where
  "open_stream = \<lparr>st_up = True, st_sending = True, st_receiving = True, st_sent = [], st_lost = []\<rparr>"

section \<open>Operations\<close>

text \<open>The gateway's state changes and the history records what the queue accepted.\<close>

definition with_server :: "GatewayServer \<Rightarrow> client_run \<Rightarrow> client_run" where
  "with_server s w = w\<lparr>run_server := s,
     run_accepted := run_accepted w @ drop (length (run_queue w)) (client_queue (roomserverClient s))\<rparr>"

definition on_stream :: "nat \<Rightarrow> (client_stream \<Rightarrow> client_stream) \<Rightarrow> client_run \<Rightarrow> client_run" where
  "on_stream i f w = w\<lparr>run_streams := (run_streams w)[i := f (run_streams w ! i)]\<rparr>"

text \<open>\<open>connectAndServe\<close> as far as the start of the two loops.\<close>

definition connectAndServe_up :: "codec \<Rightarrow> client_run \<Rightarrow> client_run" where
  "connectAndServe_up c w =
     (case stream_up c (run_server w) of (pending, s) \<Rightarrow>
        (with_server s w)\<lparr>run_streams := run_streams w @ [open_stream],
                         run_state := Serving (length (run_streams w)), run_pending := run_pending w \<or> pending\<rparr>)"

text \<open>\<open>close\<close> ends the current stream and its connection.\<close>

definition close_stream :: "nat \<Rightarrow> client_run \<Rightarrow> client_run" where
  "close_stream i = on_stream i (\<lambda>st. st\<lparr>st_up := False\<rparr>)"

text \<open>
  The rest of \<open>connectAndServe\<close>, after a loop has returned, and what \<open>Run\<close> does with its error.
\<close>

definition connectAndServe_down :: "bool \<Rightarrow> instant \<Rightarrow> nat \<Rightarrow> client_run \<Rightarrow> client_run" where
  "connectAndServe_down err now i w =
     (let s = stream_down now (run_server w);
          s' = (if err then stream_down now s else s)
      in (close_stream i (with_server s' w))\<lparr>run_state := Waiting\<rparr>)"

definition connect_failed :: "instant \<Rightarrow> client_run \<Rightarrow> client_run" where
  "connect_failed now w = (with_server (stream_down now (run_server w)) w)\<lparr>run_state := Waiting\<rparr>"

text \<open>One round of the send loop of stream \<open>i\<close> that has received the envelope \<open>e\<close> from the queue.\<close>

definition send_round :: "nat \<Rightarrow> Envelope \<Rightarrow> GatewayServer \<Rightarrow> client_run \<Rightarrow> client_run" where
  "send_round i e s w =
     on_stream i (\<lambda>st. if st_up st then st\<lparr>st_sent := st_sent st @ [e]\<rparr>
                       else st\<lparr>st_lost := st_lost st @ [e], st_sending := False\<rparr>)
       (w\<lparr>run_server := s, run_taken := run_taken w @ [(i, e)]\<rparr>)"

inductive run_step :: "codec \<Rightarrow> range_order \<Rightarrow> duration \<Rightarrow> client_run \<Rightarrow> client_run \<Rightarrow> bool"
  for c :: codec and ord :: range_order and maxInterval :: duration
where
  run_connect: "run_state w = Connecting \<Longrightarrow> \<not> run_cancelled w \<Longrightarrow>
    run_step c ord maxInterval w (connectAndServe_up c w)"
| run_fail: "run_state w = Connecting \<Longrightarrow> run_step c ord maxInterval w (connect_failed now w)"
| run_send: "i < length (run_streams w) \<Longrightarrow> st_sending (run_streams w ! i) \<Longrightarrow> sendLoop (run_server w) = Some (e, s) \<Longrightarrow>
    run_step c ord maxInterval w (send_round i e s w)"
| run_send_cancelled: "i < length (run_streams w) \<Longrightarrow> run_cancelled w \<Longrightarrow>
    run_step c ord maxInterval w (on_stream i (\<lambda>st. st\<lparr>st_sending := False\<rparr>) w)"
| run_recv: "i < length (run_streams w) \<Longrightarrow> st_receiving (run_streams w ! i) \<Longrightarrow> st_up (run_streams w ! i) \<Longrightarrow>
    run_step c ord maxInterval w (with_server (handleEnvelope c ord e now (run_server w)) w)"
| run_recv_end: "i < length (run_streams w) \<Longrightarrow> \<not> st_up (run_streams w ! i) \<or> run_cancelled w \<Longrightarrow>
    run_step c ord maxInterval w (on_stream i (\<lambda>st. st\<lparr>st_receiving := False\<rparr>) w)"
| run_break: "i < length (run_streams w) \<Longrightarrow> run_step c ord maxInterval w (on_stream i (\<lambda>st. st\<lparr>st_up := False\<rparr>) w)"
| run_down: "run_state w = Serving i \<Longrightarrow> \<not> st_sending (run_streams w ! i) \<or> \<not> st_receiving (run_streams w ! i) \<Longrightarrow>
    run_step c ord maxInterval w (connectAndServe_down err now i w)"
| run_wait: "run_state w = Waiting \<Longrightarrow>
    run_step c ord maxInterval w (w\<lparr>run_state := Connecting, run_interval := next_interval maxInterval (run_interval w),
      run_waits := Suc (run_waits w)\<rparr>)"
| run_return: "run_state w \<in> {Connecting, Waiting} \<Longrightarrow> run_cancelled w \<Longrightarrow>
    run_step c ord maxInterval w (w\<lparr>run_state := Returned\<rparr>)"
| run_cancel: "run_step c ord maxInterval w (w\<lparr>run_cancelled := True, run_streams := map (\<lambda>st. st\<lparr>st_up := False\<rparr>) (run_streams w)\<rparr>)"
| run_request: "run_step c ord maxInterval w (with_server (client_send ty p (run_server w)) w)"
| run_compensate: "run_pending w \<Longrightarrow>
    run_step c ord maxInterval w ((with_server (processPendingRequests c (run_server w)) w)\<lparr>run_pending := False\<rparr>)"

inductive_cases run_stepE: "run_step c ord maxInterval w v"


section \<open>Operations only add to the queue\<close>

text \<open>\<open>extends s t\<close>: \<open>t\<close> has the stream state of \<open>s\<close>, and its queue has been sent some envelopes.\<close>

definition extends :: "GatewayServer \<Rightarrow> GatewayServer \<Rightarrow> bool" where
  "extends s t \<longleftrightarrow> gw_status t = gw_status s \<and> (\<exists>es. roomserverClient t = sends (roomserverClient s) es)"

lemma extends_same:
  "extends s t \<Longrightarrow> gw_status t' = gw_status t \<Longrightarrow> roomserverClient t' = roomserverClient t \<Longrightarrow> extends s t'"
  by (simp add: extends_def)

lemma extends_refl: "extends s s"
  unfolding extends_def by (intro conjI exI [of _ "[]"]) simp_all

lemma extends_sends:
  assumes "extends s t"
  shows "extends s (t\<lparr>roomserverClient := sends (roomserverClient t) es\<rparr>)"
proof -
  obtain ds where "roomserverClient t = sends (roomserverClient s) ds" using assms by (auto simp: extends_def)
  then have "sends (roomserverClient t) es = sends (roomserverClient s) (ds @ es)" by simp
  then show ?thesis using assms unfolding extends_def by (auto simp del: foldl_append)
qed

lemma extends_client_send: "extends s t \<Longrightarrow> extends s (client_send ty p t)"
  using extends_sends [of s t "[\<lparr>env_MsgType = ty, env_Payload = p\<rparr>]"] by (simp add: client_send_def)

lemma extends_connections:
  assumes "extends s t"
  shows "extends s (set_join ref j r t)" "extends s (send_conn ref d now t)" "extends s (AddUserToRoom r u t)"
    "extends s (RemoveUserFromRoom r u t)" "extends s (snd (ClearRoom ord r t))" "extends s (t\<lparr>knownEpochs := ke\<rparr>)"
  by (rule extends_same [OF assms]; simp add: set_join_def send_conn_def put_connection_def AddUserToRoom_def RemoveUserFromRoom_def
      ClearRoom_def Let_def split: option.split)+

lemma extends_visits:
  assumes "extends s t"
  shows "extends s (send_user d now u t)" "extends s (close_user d now u t)"
  unfolding send_user_def close_user_def using assms by (auto intro!: extends_connections split: option.split)

lemma extends_fold: "extends s t \<Longrightarrow> (\<And>x u. extends s u \<Longrightarrow> extends s (f x u)) \<Longrightarrow> extends s (fold f xs t)"
  by (induction xs arbitrary: t) simp_all

lemma extends_resync:
  assumes "extends s t"
  shows "extends s (startProgressiveReSync c ord t)"
proof -
  obtain es where "startProgressiveReSync c ord t = t\<lparr>roomserverClient := sends (roomserverClient t) es\<rparr>"
    using startProgressiveReSync_eq [of c ord t] by blast
  then show ?thesis using extends_sends [OF assms] by simp
qed

lemma extends_OnJoinRoomAck: "extends s (OnJoinRoomAck c u r b code m now s)"
  unfolding OnJoinRoomAck_def sendJoinRoomResp_def Let_def by (auto intro!: extends_connections extends_refl split: option.split)

lemma extends_handleRoomClose: "extends s (handleRoomClose c ord p now s)"
proof (cases "decRoomCloseNotify c p")
  case None
  then show ?thesis by (simp add: handleRoomClose_def extends_refl)
next
  case (Some m)
  then show ?thesis
    using extends_connections(5) [OF extends_refl, of s ord "rn_RoomID m"]
    by (auto simp: handleRoomClose_def intro!: extends_fold extends_visits split: prod.split)
qed

lemma extends_handleEnvelope: "extends s (handleEnvelope c ord e now s)"
proof -
  have ep: "extends s (snd (handleEpochNotify c (env_Payload e) s))"
    unfolding handleEpochNotify_def Let_def by (auto intro!: extends_connections extends_refl split: option.split)
  then show ?thesis
    unfolding handleEnvelope_def Let_def handleJoinRoomAck_def handleBroadcast_def Roomserver_Client.handleUnicast_def
      Roomserver_Client.handleMulticast_def
    by (auto intro!: extends_OnJoinRoomAck extends_handleRoomClose extends_refl extends_fold extends_visits extends_resync
        split: option.split prod.split)
qed

lemma extends_pending: "extends s (processPendingRequests c s)"
  unfolding processPendingRequests_eq extends_def by (simp del: foldl_append) blast

lemma extends_queue:
  assumes "extends s t"
  shows "client_queue (roomserverClient t) =
      client_queue (roomserverClient s) @ drop (length (client_queue (roomserverClient s))) (client_queue (roomserverClient t))"
  using assms rq.content_sends by (auto simp: extends_def)

lemma sends_connected: "connected (sends cl es) = connected cl"
  by (induction es arbitrary: cl) (simp_all add: Gateway_Server.send_def)


section \<open>The invariant of the reconnect loop\<close>

text \<open>What holds of a stream at position \<open>i\<close>: a refused envelope ended its send loop.\<close>

definition stream_ok :: "client_run \<Rightarrow> nat \<Rightarrow> bool" where
  "stream_ok w i \<longleftrightarrow> (let st = run_streams w ! i in
     st_sent st @ st_lost st = map snd (filter (\<lambda>x. fst x = i) (run_taken w))
     \<and> length (st_lost st) \<le> 1 \<and> (st_lost st \<noteq> [] \<longrightarrow> \<not> st_sending st \<and> \<not> st_up st)
     \<and> (st_up st \<longrightarrow> run_state w = Serving i))"

definition status_ok :: "client_run \<Rightarrow> bool" where
  "status_ok w \<longleftrightarrow> (connected (roomserverClient (run_server w)) \<longleftrightarrow> (\<exists>i. run_state w = Serving i))
     \<and> (\<forall>i. run_state w = Serving i \<longrightarrow> gw_status (run_server w) = StatusNormal \<and> Suc i = length (run_streams w))
     \<and> (run_state w = Waiting \<or> run_state w = Connecting \<and> 0 < run_waits w \<longrightarrow> gw_status (run_server w) = StatusDegraded)"

definition run_ok :: "duration \<Rightarrow> duration \<Rightarrow> client_run \<Rightarrow> bool" where
  "run_ok initial maxInterval w \<longleftrightarrow>
     run_accepted w = map snd (run_taken w) @ run_queue w
     \<and> (\<forall>x \<in> set (run_taken w). fst x < length (run_streams w))
     \<and> (\<forall>i < length (run_streams w). stream_ok w i)
     \<and> status_ok w \<and> run_interval w = Run_intervals initial maxInterval (run_waits w)"

lemma run_ok_server:
  assumes "run_ok i m w" and "extends (run_server w) s"
  shows "run_ok i m (with_server s w)"
proof -
  have "client_queue (roomserverClient s) = run_queue w @ drop (length (run_queue w)) (client_queue (roomserverClient s))"
    using extends_queue [OF assms(2)] .
  then have "run_accepted (with_server s w) = map snd (run_taken w) @ client_queue (roomserverClient s)"
    using assms(1) by (simp add: run_ok_def with_server_def)
  moreover have "connected (roomserverClient s) = connected (roomserverClient (run_server w))" "gw_status s = gw_status (run_server w)"
    using assms(2) sends_connected by (auto simp: extends_def)
  ultimately show ?thesis using assms(1) by (simp add: run_ok_def with_server_def stream_ok_def status_ok_def)
qed

lemma run_ok_stream:
  assumes "run_ok i m w" and "k < length (run_streams w)"
    and "st_sent (f (run_streams w ! k)) = st_sent (run_streams w ! k)" "st_lost (f (run_streams w ! k)) = st_lost (run_streams w ! k)"
    and "st_up (f (run_streams w ! k)) \<Longrightarrow> st_up (run_streams w ! k)"
    and "st_sending (f (run_streams w ! k)) \<Longrightarrow> st_sending (run_streams w ! k)"
  shows "run_ok i m (on_stream k f w)"
proof -
  have "stream_ok (on_stream k f w) j" if "j < length (run_streams w)" for j
    using assms that unfolding run_ok_def stream_ok_def on_stream_def Let_def by (cases "j = k") auto
  then show ?thesis using assms(1) by (simp add: run_ok_def on_stream_def status_ok_def)
qed

lemma run_ok_send:
  assumes "run_ok i m w" and "k < length (run_streams w)" and "st_sending (run_streams w ! k)"
    and "sendLoop (run_server w) = Some (e, s)"
  shows "run_ok i m (send_round k e s w)"
proof -
  have q: "run_queue w = e # client_queue (roomserverClient s)" and same: "gw_status s = gw_status (run_server w)"
      "connected (roomserverClient s) = connected (roomserverClient (run_server w))"
    using assms(4) by (auto simp: sendLoop_def client_queue_def split: list.splits)
  have "stream_ok (send_round k e s w) j" if "j < length (run_streams w)" for j
    using assms(1-3) that unfolding run_ok_def stream_ok_def send_round_def on_stream_def Let_def
    by (cases "j = k") auto
  then show ?thesis using assms(1,2) q same by (simp add: run_ok_def send_round_def on_stream_def status_ok_def)
qed

lemma stream_up_client:
  "gw_status (snd (stream_up c s)) = (if gw_status s = StatusDegraded then StatusNormal else gw_status s)"
  "\<exists>e. roomserverClient (snd (stream_up c s)) = sends ((roomserverClient s)\<lparr>connected := True\<rparr>) [e]"
  by (simp add: stream_up_def SetNormal_def sendGatewayInfo_def client_send_def)
     (rule exI [of _ "\<lparr>env_MsgType = InternalMsgGatewayInfo, env_Payload =
        Encode c (WGatewayInfo \<lparr>gi_GatewayID = GatewayID s, gi_Addr = Addr s, gi_Connections = 0\<rparr>)\<rparr>"],
      simp add: stream_up_def SetNormal_def sendGatewayInfo_def client_send_def Let_def)

lemma status_cases: "gw_status s = StatusNormal \<or> gw_status s = StatusDegraded"
  by (cases "gw_status s") auto


lemma run_ok_connect:
  assumes "run_ok i m w" and "run_state w = Connecting"
  shows "run_ok i m (connectAndServe_up c w)"
proof -
  obtain pending s where up: "stream_up c (run_server w) = (pending, s)" by fastforce
  obtain e where cl: "roomserverClient s = sends ((roomserverClient (run_server w))\<lparr>connected := True\<rparr>) [e]"
    using stream_up_client(2) [of c "run_server w"] up by auto
  have st: "gw_status s = StatusNormal" using stream_up_client(1) [of c "run_server w"] status_cases [of "run_server w"] up by auto
  have con: "connected (roomserverClient s)" unfolding cl sends_connected by simp
  have "client_queue (roomserverClient s) = run_queue w @ drop (length (run_queue w)) (client_queue (roomserverClient s))"
    using rq.content_sends [of "(roomserverClient (run_server w))\<lparr>connected := True\<rparr>" "[e]"] cl
    by (auto simp: client_queue_def simp del: foldl.simps)
  then have acc: "run_accepted (with_server s w) = map snd (run_taken w) @ client_queue (roomserverClient s)"
    using assms(1) by (simp add: run_ok_def with_server_def)
  let ?v = "connectAndServe_up c w" and ?n = "length (run_streams w)"
  have taken: "\<forall>x \<in> set (run_taken w). fst x < ?n" using assms(1) by (simp add: run_ok_def)
  have none: "filter (\<lambda>x. fst x = ?n) (run_taken w) = []" using taken by (force simp: filter_empty_conv)
  have old: "stream_ok w j" if "j < ?n" for j using assms(1) that by (simp add: run_ok_def)
  have "stream_ok ?v j" if "j < Suc ?n" for j
  proof (cases "j = ?n")
    case True
    then show ?thesis using none by (simp add: stream_ok_def connectAndServe_up_def up with_server_def open_stream_def)
  next
    case False
    with that have "j < ?n" by simp
    moreover from old [OF this] have "\<not> st_up (run_streams w ! j)" using assms(2) by (auto simp: stream_ok_def Let_def)
    ultimately show ?thesis using old [of j]
      by (simp add: stream_ok_def connectAndServe_up_def up with_server_def nth_append Let_def)
  qed
  moreover have "status_ok ?v" using st con by (simp add: status_ok_def connectAndServe_up_def up with_server_def)
  ultimately show ?thesis using assms(1) acc taken
    by (auto simp: run_ok_def connectAndServe_up_def up with_server_def intro: less_SucI)
qed

lemma stream_down_effect:
  "client_queue (roomserverClient (stream_down now s)) = client_queue (roomserverClient s)"
  "gw_status (stream_down now s) = StatusDegraded" "\<not> connected (roomserverClient (stream_down now s))"
  using status_cases [of s] by (auto simp: stream_down_def SetDegraded_def client_queue_def)

lemma run_ok_down:
  assumes "run_ok i m w" and "run_state w = Serving k"
  shows "run_ok i m (connectAndServe_down err now k w)" (is "run_ok i m ?v")
proof -
  have old: "stream_ok w j" if "j < length (run_streams w)" for j using assms(1) that by (simp add: run_ok_def)
  have "stream_ok ?v j" if "j < length (run_streams w)" for j
    using old [OF that] assms(2) that
    unfolding stream_ok_def connectAndServe_down_def close_stream_def on_stream_def with_server_def Let_def by (cases "j = k") auto
  moreover have "run_accepted ?v = map snd (run_taken ?v) @ run_queue ?v" "status_ok ?v"
      "run_interval ?v = Run_intervals i m (run_waits ?v)" "run_taken ?v = run_taken w" "length (run_streams ?v) = length (run_streams w)"
    using assms(1)
    by (simp_all add: run_ok_def connectAndServe_down_def close_stream_def on_stream_def with_server_def status_ok_def stream_down_effect Let_def)
  moreover have "\<forall>x \<in> set (run_taken w). fst x < length (run_streams w)" using assms(1) by (simp add: run_ok_def)
  ultimately show ?thesis unfolding run_ok_def [of i m ?v] by simp
qed

lemma run_ok_fail:
  assumes "run_ok i m w" and "run_state w = Connecting"
  shows "run_ok i m (connect_failed now w)"
  using assms by (auto simp: run_ok_def connect_failed_def with_server_def status_ok_def stream_ok_def stream_down_effect Let_def)

lemma run_ok_step: "run_ok i m w \<Longrightarrow> run_step c ord m w v \<Longrightarrow> run_ok i m v"
proof (erule run_stepE, goal_cases)
  case 9
  then show ?case
    by (auto simp: run_ok_def stream_ok_def status_ok_def Let_def Run_intervals_def)
next
  case (11)
  then show ?case by (auto simp: run_ok_def stream_ok_def status_ok_def Let_def)
next
  case 13
  then have "run_ok i m (with_server (processPendingRequests c (run_server w)) w)" using run_ok_server extends_pending by blast
  with 13 show ?case by (simp add: run_ok_def stream_ok_def status_ok_def)
next
  case 10
  then show ?case by (auto simp: run_ok_def stream_ok_def status_ok_def Let_def)
qed (auto intro: run_ok_connect run_ok_fail run_ok_send run_ok_down
       intro!: run_ok_stream run_ok_server extends_handleEnvelope extends_client_send extends_refl)


abbreviation run_init :: "duration \<Rightarrow> client_run \<Rightarrow> bool" where
  "run_init initial w \<equiv> \<exists>s. w = start_run initial s \<and> \<not> connected (roomserverClient s)"

interpretation rci: inductive_invariant "run_init initial" "run_step c ord maxInterval" "run_ok initial maxInterval"
  for c ord initial maxInterval
proof
  fix w assume "run_init initial w"
  then show "run_ok initial maxInterval w" by (auto simp: run_ok_def start_run_def status_ok_def Run_intervals_def)
qed (rule run_ok_step)

lemma sum_lost:
  assumes "\<forall>st \<in> set sts. length (st_lost st) \<le> 1 \<and> (st_lost st \<noteq> [] \<longrightarrow> \<not> st_up st)"
  shows "(\<Sum>st\<leftarrow>sts. length (st_lost st)) \<le> length (filter (\<lambda>st. \<not> st_up st) sts)"
  using assms by (induction sts) (auto simp: le_Suc_eq)

section \<open>The old send loop\<close>

lemma stream_up_sendLoop:
  assumes "client_queue (roomserverClient s) = []" and "0 < client_capacity (roomserverClient s)"
  obtains pending up rest where "stream_up c s = (pending, up)"
    and "sendLoop up = Some (\<lparr>env_MsgType = InternalMsgGatewayInfo, env_Payload =
      Encode c (WGatewayInfo \<lparr>gi_GatewayID = GatewayID s, gi_Addr = Addr s, gi_Connections = 0\<rparr>)\<rparr>, rest)"
    and "client_queue (roomserverClient rest) = []" "client_capacity (roomserverClient rest) = client_capacity (roomserverClient s)"
      "connected (roomserverClient rest)" "GatewayID rest = GatewayID s" "Addr rest = Addr s"
  using assms
  by (atomize_elim) (simp add: stream_up_def SetNormal_def sendGatewayInfo_def client_send_def Gateway_Server.send_def client_queue_def
      client_capacity_def sendLoop_def Let_def, blast)

text \<open>
  The send loop of a stream that has ended waits for the next envelope of the shared queue. After a
  reconnect that is the registration of the gateway: the new stream is up, the gateway is in normal
  state and nothing is left to send, but the roomserver never hears of the gateway.
\<close>

lemma stale_loop_takes_registration:
  fixes s :: GatewayServer
  assumes "client_queue (roomserverClient s) = []" and "0 < client_capacity (roomserverClient s)"
    and "\<not> connected (roomserverClient s)"
  shows "\<exists>w. reachable_by (run_init initial) (run_step c ord maxInterval) w
    \<and> run_state w = Serving 1 \<and> connected (roomserverClient (run_server w)) \<and> run_queue w = []
    \<and> length (run_streams w) = 2 \<and> st_up (run_streams w ! 1) \<and> st_sent (run_streams w ! 1) = []
    \<and> map env_MsgType (st_lost (run_streams w ! 0)) = [InternalMsgGatewayInfo]"
proof -
  let ?R = "reachable_by (run_init initial) (run_step c ord maxInterval)"
  define w0 where "w0 = start_run initial s"
  have r0: "?R w0" using assms(3) by (intro reachable_init) (auto simp: w0_def)
  obtain p1 u1 s1 e where up1: "stream_up c s = (p1, u1)" "sendLoop u1 = Some (e, s1)"
    and s1: "client_queue (roomserverClient s1) = []" "0 < client_capacity (roomserverClient s1)"
    using stream_up_sendLoop [OF assms(1,2), of c] assms(2) by metis
  define w1 where "w1 = connectAndServe_up c w0"
  have r1: "?R w1" unfolding w1_def by (rule reachable_step [OF r0 run_connect]) (simp_all add: w0_def start_run_def)
  have w1: "run_server w1 = u1" "run_streams w1 = [open_stream]" "run_state w1 = Serving 0" "run_cancelled w1 = False"
    by (simp_all add: w1_def connectAndServe_up_def w0_def start_run_def up1 with_server_def)
  define w2 where "w2 = send_round 0 e s1 w1"
  have r2: "?R w2" unfolding w2_def by (rule reachable_step [OF r1 run_send]) (simp_all add: w1 open_stream_def up1)
  define w3 where "w3 = on_stream 0 (\<lambda>st. st\<lparr>st_up := False\<rparr>) w2"
  have r3: "?R w3" unfolding w3_def
    by (rule reachable_step [OF r2 run_break]) (simp add: w2_def send_round_def on_stream_def w1)
  define w4 where "w4 = on_stream 0 (\<lambda>st. st\<lparr>st_receiving := False\<rparr>) w3"
  have r4: "?R w4" unfolding w4_def
    by (rule reachable_step [OF r3 run_recv_end]) (simp_all add: w3_def w2_def send_round_def on_stream_def w1)
  have w4: "run_server w4 = s1" "run_state w4 = Serving 0" "run_cancelled w4 = False"
      "run_streams w4 = [\<lparr>st_up = False, st_sending = True, st_receiving = False, st_sent = [e], st_lost = []\<rparr>]"
    by (simp_all add: w4_def w3_def w2_def send_round_def on_stream_def w1 open_stream_def)
  define w5 where "w5 = connectAndServe_down True 0 0 w4"
  have r5: "?R w5" unfolding w5_def by (rule reachable_step [OF r4 run_down]) (simp_all add: w4)
  define s2 where "s2 = stream_down 0 (stream_down 0 s1)"
  have w5: "run_server w5 = s2" "run_state w5 = Waiting" "run_cancelled w5 = False" "run_streams w5 = run_streams w4"
    by (simp_all add: w5_def connectAndServe_down_def close_stream_def on_stream_def with_server_def w4 s2_def Let_def)
  have s2: "client_queue (roomserverClient s2) = []" "0 < client_capacity (roomserverClient s2)"
    using s1 by (simp_all add: s2_def stream_down_effect) (simp add: stream_down_def SetDegraded_def client_capacity_def)
  define w6 where "w6 = w5\<lparr>run_state := Connecting, run_interval := next_interval maxInterval (run_interval w5), run_waits := Suc (run_waits w5)\<rparr>"
  have r6: "?R w6" unfolding w6_def by (rule reachable_step [OF r5 run_wait]) (simp add: w5)
  obtain p3 u3 s3 f where up3: "stream_up c s2 = (p3, u3)" "sendLoop u3 = Some (f, s3)"
    and s3: "client_queue (roomserverClient s3) = []" "connected (roomserverClient s3)" "env_MsgType f = InternalMsgGatewayInfo"
    using stream_up_sendLoop [OF s2, of c] by (metis Envelope.select_convs(1))
  define w7 where "w7 = connectAndServe_up c w6"
  have r7: "?R w7" unfolding w7_def by (rule reachable_step [OF r6 run_connect]) (simp_all add: w6_def w5)
  have w7: "run_server w7 = u3" "run_streams w7 = run_streams w4 @ [open_stream]" "run_state w7 = Serving 1"
    by (simp_all add: w7_def connectAndServe_up_def w6_def w5 w4 up3 with_server_def)
  define w8 where "w8 = send_round 0 f s3 w7"
  have "?R w8" unfolding w8_def by (rule reachable_step [OF r7 run_send]) (simp_all add: w7 w4 up3)
  then show ?thesis
    by (intro exI [of _ w8]) (simp add: w8_def send_round_def on_stream_def w7 w4 s3 open_stream_def)
qed

section \<open>The property\<close>



end
