(* ===== verification/Load_Test.thy ===== *)
theory Load_Test
  imports Test_Client Go_Strings
begin

text \<open>
  The load generator (\<open>cmd/testclient/loadtest.go\<close>): the clients it starts, the life of one client
  and the statistics they share. The clients run concurrently and count with atomic additions;
  the step relation interleaves them freely. Dialling, the WebSocket library and msgpack are
  outside: whether a dial succeeds is part of the step, sockets and codec are those of \<open>Test_Client\<close>.
\<close>

section \<open>Starting the clients\<close>

definition load_user :: "nat \<Rightarrow> user_id" where
  "load_user i = ''load_user_'' @ pad 4 (int i)"

definition load_room :: "nat \<Rightarrow> room_id" where
  "load_room i = ''load_room_'' @ pad 3 (int i)"

text \<open>
  The ramp-up loop of \<open>mainLoadTest\<close>: the users and rooms of the clients in the order they are
  started. The interval between two starts is the ramp-up time divided by the number of clients.
  The \<open>break\<close> of a cancelled test leaves the \<open>select\<close>, not the loop: all clients are started.
\<close>

definition ramp_up :: "int \<Rightarrow> int \<Rightarrow> (user_id \<times> room_id) list go" where
  "ramp_up numClients numRooms =
     (if numClients = 0 then Inl (Panic ''integer divide by zero'')
      else if numClients > 0 \<and> numRooms = 0 then Inl (Panic ''integer divide by zero'')
      else Inr (map (\<lambda>i. (load_user i, load_room (i mod nat \<bar>numRooms\<bar>))) [0..<nat numClients]))"

section \<open>One client\<close>

record Stats =
  st_connected :: "64 word"
  st_disconnected :: "64 word"
  st_msgSent :: "64 word"
  st_msgRecv :: "64 word"
  st_errors :: "64 word"

definition zero_stats :: Stats where
  "zero_stats = \<lparr>st_connected = 0, st_disconnected = 0, st_msgSent = 0, st_msgRecv = 0, st_errors = 0\<rparr>"

definition sendFrameQuiet :: "Frame \<Rightarrow> TestClient \<Rightarrow> bool \<times> TestClient" where
  "sendFrameQuiet f cl = (case WriteMessage (client_encodeFrame f) (sock cl) of (ok, s) \<Rightarrow> (ok, cl\<lparr>sock := s\<rparr>))"

text \<open>
  \<open>doAuth\<close> and \<open>doJoin\<close>: send one frame and read one answer under a deadline, which makes a read
  with nothing to read fail. The result is whether they return without an error.
\<close>

definition load_request ::
  "'v client_codec \<Rightarrow> uint32 \<Rightarrow> uint32 \<Rightarrow> uint64 \<Rightarrow> bytes \<Rightarrow> TestClient \<Rightarrow> bool \<times> TestClient" where
  "load_request k reqType respType sq payload cl =
     (case sendFrameQuiet \<lparr>MsgType = reqType, Seq = sq, Payload = payload\<rparr> cl of (ok, cl1) \<Rightarrow>
        if \<not> ok then (False, cl1)
        else (case recvFrame cl1 of
                None \<Rightarrow> (False, cl1)
              | Some (Inl e, cl2) \<Rightarrow> (False, cl2)
              | Some (Inr f, cl2) \<Rightarrow> (MsgType f = respType \<and> cSuccess k (Payload f), cl2)))"

definition doAuth :: "'v client_codec \<Rightarrow> user_id \<Rightarrow> TestClient \<Rightarrow> bool \<times> TestClient" where
  "doAuth k userID cl =
     load_request k MsgTypeAuth MsgTypeAuthResp 1 (cEncode k (CAuth (''dev_'' @ userID) userID)) cl"

definition doJoin :: "'v client_codec \<Rightarrow> room_id \<Rightarrow> TestClient \<Rightarrow> bool \<times> TestClient" where
  "doJoin k roomID cl = load_request k MsgTypeJoinRoom MsgTypeJoinRoomResp 2 (cEncode k (CRoom roomID)) cl"

datatype load_phase = Dialling | Authenticating | Joining | Running | Failed | Finished

record load_client =
  lc_user :: user_id
  lc_room :: room_id
  lc_phase :: load_phase
  lc_client :: TestClient
  lc_seq :: uint64
  lc_receiving :: bool

definition new_load_client :: "user_id \<times> room_id \<Rightarrow> load_client" where
  "new_load_client p = \<lparr>lc_user = fst p, lc_room = snd p, lc_phase = Dialling,
     lc_client = \<lparr>seqCounter = 0, sock = \<lparr>incoming = [], outgoing = [], writable = False\<rparr>\<rparr>, lc_seq = 100, lc_receiving = False\<rparr>"

text \<open>
  What \<open>runClient\<close> does next: the outcome of the dial with the socket it opened, the two requests, a
  tick of one of the tickers, the end of the context, and a round of the receiving goroutine.
\<close>

datatype load_event = Dial "socket option" | Auth | Join | HeartbeatTick instant | MessageTick instant | Cancelled | Recv

definition fail_client :: "load_client \<times> Stats \<Rightarrow> load_client \<times> Stats" where
  "fail_client st = ((fst st)\<lparr>lc_phase := Failed\<rparr>, (snd st)\<lparr>st_errors := st_errors (snd st) + 1\<rparr>)"

definition tick :: "uint32 \<Rightarrow> bytes \<Rightarrow> load_client \<times> Stats \<Rightarrow> load_client \<times> Stats" where
  "tick msgType payload st =
     (case st of (lc, stats) \<Rightarrow>
        let cl = snd (sendFrameQuiet \<lparr>MsgType = msgType, Seq = lc_seq lc, Payload = payload\<rparr> (lc_client lc))
        in (lc\<lparr>lc_client := cl, lc_seq := lc_seq lc + 1\<rparr>, stats\<lparr>st_msgSent := st_msgSent stats + 1\<rparr>))"

fun runClient :: "range_order \<Rightarrow> 'f go_value client_codec \<Rightarrow> load_event \<Rightarrow> load_client \<times> Stats \<Rightarrow> load_client \<times> Stats" where
  "runClient ord k (Dial conn) (lc, stats) =
     (if lc_phase lc \<noteq> Dialling then (lc, stats)
      else (case conn of
              None \<Rightarrow> fail_client (lc, stats)
            | Some s \<Rightarrow> (lc\<lparr>lc_phase := Authenticating, lc_client := (lc_client lc)\<lparr>sock := s\<rparr>\<rparr>, stats)))"
| "runClient ord k Auth (lc, stats) =
     (if lc_phase lc \<noteq> Authenticating then (lc, stats)
      else (case doAuth k (lc_user lc) (lc_client lc) of (ok, cl) \<Rightarrow>
              if ok then (lc\<lparr>lc_client := cl, lc_phase := Joining\<rparr>, stats) else fail_client (lc\<lparr>lc_client := cl\<rparr>, stats)))"
| "runClient ord k Join (lc, stats) =
     (if lc_phase lc \<noteq> Joining then (lc, stats)
      else (case doJoin k (lc_room lc) (lc_client lc) of (ok, cl) \<Rightarrow>
              if ok then (lc\<lparr>lc_client := cl, lc_phase := Running, lc_receiving := True\<rparr>, stats\<lparr>st_connected := st_connected stats + 1\<rparr>)
              else fail_client (lc\<lparr>lc_client := cl\<rparr>, stats)))"
| "runClient ord k (HeartbeatTick now) (lc, stats) =
     (if lc_phase lc \<noteq> Running then (lc, stats)
      else tick MsgTypeHeartbeat (cEncode k (CHeartbeat (lc_room lc) (now div millisecond))) (lc, stats))"
| "runClient ord k (MessageTick now) (lc, stats) =
     (if lc_phase lc \<noteq> Running then (lc, stats)
      else tick MsgTypeBizRequest (cEncode k (marshal_map ord (fmap_of_list [(''action'', VString ''send_message''),
             (''content'', VString (''Hello from '' @ lc_user lc @ '' at '' @ Itoa (now div second)))]))) (lc, stats))"
| "runClient ord k Cancelled (lc, stats) =
     (if lc_phase lc \<noteq> Running then (lc, stats)
      else (lc\<lparr>lc_phase := Finished\<rparr>,
            stats\<lparr>st_connected := st_connected stats - 1, st_disconnected := st_disconnected stats + 1\<rparr>))"
| "runClient ord k Recv (lc, stats) =
     (if \<not> lc_receiving lc then (lc, stats)
      else (case recvFrame (lc_client lc) of
              None \<Rightarrow> (lc, stats)
            | Some (Inl e, cl) \<Rightarrow> (lc\<lparr>lc_client := cl, lc_receiving := False\<rparr>, stats)
            | Some (Inr f, cl) \<Rightarrow> (lc\<lparr>lc_client := cl\<rparr>, stats\<lparr>st_msgRecv := st_msgRecv stats + 1\<rparr>)))"

section \<open>The whole test\<close>

record load_test =
  lt_stats :: Stats
  lt_clients :: "load_client list"
  lt_cancelled :: bool

definition mainLoadTest :: "int \<Rightarrow> int \<Rightarrow> load_test go" where
  "mainLoadTest numClients numRooms =
     go_bind (ramp_up numClients numRooms)
       (\<lambda>ps. Inr \<lparr>lt_stats = zero_stats, lt_clients = map new_load_client ps, lt_cancelled = False\<rparr>)"

text \<open>\<open>wg.Wait\<close> returns when every \<open>runClient\<close> has returned.\<close>

definition all_returned :: "load_test \<Rightarrow> bool" where
  "all_returned t \<longleftrightarrow> list_all (\<lambda>lc. lc_phase lc = Failed \<or> lc_phase lc = Finished) (lt_clients t)"

inductive load_step :: "range_order \<Rightarrow> 'f go_value client_codec \<Rightarrow> load_test \<Rightarrow> load_test \<Rightarrow> bool"
  for ord :: range_order and k :: "'f go_value client_codec"
where
  load_client: "i < length (lt_clients t) \<Longrightarrow> ev \<noteq> Cancelled \<or> lt_cancelled t \<Longrightarrow>
    runClient ord k ev (lt_clients t ! i, lt_stats t) = (lc, stats) \<Longrightarrow>
    load_step ord k t (t\<lparr>lt_clients := (lt_clients t)[i := lc], lt_stats := stats\<rparr>)"
| load_cancel: "load_step ord k t (t\<lparr>lt_cancelled := True\<rparr>)"

inductive_cases load_stepE: "load_step ord k t u"


section \<open>The statistics\<close>

text \<open>Sums over the clients, in 64-bit arithmetic.\<close>

lemma sum_update:
  fixes f :: "'a \<Rightarrow> 'b :: ab_group_add"
  assumes "i < length xs"
  shows "(\<Sum>x\<leftarrow>xs[i := y]. f x) = (\<Sum>x\<leftarrow>xs. f x) - f (xs ! i) + f y"
  using assms by (induction xs arbitrary: i) (auto simp: algebra_simps split: nat.split)

lemma sum_of_bool: "(\<Sum>x\<leftarrow>xs. (of_bool (P x) :: 'a :: comm_semiring_1)) = of_nat (length (filter P xs))"
  by (induction xs) simp_all

definition in_phase :: "load_phase \<Rightarrow> load_test \<Rightarrow> nat" where
  "in_phase ph t = length (filter (\<lambda>lc. lc_phase lc = ph) (lt_clients t))"

definition accounted :: "load_test \<Rightarrow> bool" where
  "accounted t \<longleftrightarrow> st_connected (lt_stats t) = (\<Sum>lc\<leftarrow>lt_clients t. of_bool (lc_phase lc = Running))
     \<and> st_disconnected (lt_stats t) = (\<Sum>lc\<leftarrow>lt_clients t. of_bool (lc_phase lc = Finished))
     \<and> st_errors (lt_stats t) = (\<Sum>lc\<leftarrow>lt_clients t. of_bool (lc_phase lc = Failed))
     \<and> st_msgSent (lt_stats t) = (\<Sum>lc\<leftarrow>lt_clients t. lc_seq lc - 100)"

text \<open>What one event changes in the statistics is what it changes in the client.\<close>

lemma runClient_stats:
  assumes "runClient ord k ev (lc, s) = (lc', s')"
  shows "st_connected s' = st_connected s - of_bool (lc_phase lc = Running) + of_bool (lc_phase lc' = Running)"
    and "st_disconnected s' = st_disconnected s - of_bool (lc_phase lc = Finished) + of_bool (lc_phase lc' = Finished)"
    and "st_errors s' = st_errors s - of_bool (lc_phase lc = Failed) + of_bool (lc_phase lc' = Failed)"
    and "st_msgSent s' = st_msgSent s - (lc_seq lc - 100) + (lc_seq lc' - 100)"
    and "lc_user lc' = lc_user lc \<and> lc_room lc' = lc_room lc"
  using assms
  by (cases ev; auto simp: fail_client_def tick_def Let_def split: if_splits option.splits prod.splits sum.splits)+

lemma accounted_step: "accounted t \<Longrightarrow> load_step ord k t u \<Longrightarrow> accounted u"
proof (erule load_stepE, goal_cases)
  case (1 i ev lc stats)
  note stats = runClient_stats [OF 1(5)]
  show ?case unfolding 1(2) accounted_def using 1(1,3) by (simp add: sum_update stats accounted_def)
qed (simp add: accounted_def)

interpretation lti: inductive_invariant "\<lambda>t. mainLoadTest n m = Inr t" "load_step ord k" accounted for n m ord k
proof
  fix t assume "mainLoadTest n m = Inr t"
  then show "accounted t"
    by (auto simp: accounted_def mainLoadTest_def go_bind_Inr_iff new_load_client_def zero_stats_def comp_def)
qed (rule accounted_step)

lemma load_test_clients:
  assumes "reachable_by (\<lambda>t. mainLoadTest n m = Inr t) (load_step ord k) t"
  shows "length (lt_clients t) = nat n"
  using assms
proof induction
  case (reachable_init t)
  then show ?case by (auto simp: mainLoadTest_def go_bind_Inr_iff ramp_up_def split: if_splits)
next
  case (reachable_step t u)
  then show ?case by (auto elim!: load_stepE)
qed

lemma returned_partition:
  assumes "all_returned t"
  shows "in_phase Running t = 0" and "in_phase Failed t + in_phase Finished t = length (lt_clients t)"
proof -
  have "filter (\<lambda>lc. lc_phase lc = Running) xs = []
      \<and> length (filter (\<lambda>lc. lc_phase lc = Failed) xs) + length (filter (\<lambda>lc. lc_phase lc = Finished) xs) = length xs"
    if "list_all (\<lambda>lc. lc_phase lc = Failed \<or> lc_phase lc = Finished) xs" for xs :: "load_client list"
    using that by (induction xs) auto
  from this [of "lt_clients t"] assms show "in_phase Running t = 0"
      "in_phase Failed t + in_phase Finished t = length (lt_clients t)"
    by (simp_all add: all_returned_def in_phase_def)
qed


text \<open>C40. The load generator's statistics account for every client. In every reachable state of the test, however
  the clients are interleaved, the counter of connected clients is the number of clients that have
  joined and not returned, the counters of errors and of disconnects are the numbers of clients
  that failed and that ended after the test was cancelled, and the counter of sent messages is the
  number of sequence numbers used, all modulo 2^64. When all clients have returned, none is
  counted as connected, and errors and disconnects add up to the number of clients started.\<close>

theorem load_test_accounts_for_clients:
  assumes "reachable_by (\<lambda>t. mainLoadTest n m = Inr t) (load_step ord k) t"
  shows "length (lt_clients t) = nat n
    \<and> st_connected (lt_stats t) = of_nat (in_phase Running t)
    \<and> st_disconnected (lt_stats t) = of_nat (in_phase Finished t)
    \<and> st_errors (lt_stats t) = of_nat (in_phase Failed t)
    \<and> st_msgSent (lt_stats t) = (\<Sum>lc\<leftarrow>lt_clients t. lc_seq lc - 100)
    \<and> (all_returned t \<longrightarrow> st_connected (lt_stats t) = 0
         \<and> st_disconnected (lt_stats t) + st_errors (lt_stats t) = of_nat (nat n))"
proof -
  have acc: "accounted t" by (rule lti.inv_reachable [OF assms])
  have len: "length (lt_clients t) = nat n" by (rule load_test_clients [OF assms])
  have cnt: "st_connected (lt_stats t) = of_nat (in_phase Running t)" "st_disconnected (lt_stats t) = of_nat (in_phase Finished t)"
      "st_errors (lt_stats t) = of_nat (in_phase Failed t)" "st_msgSent (lt_stats t) = (\<Sum>lc\<leftarrow>lt_clients t. lc_seq lc - 100)"
    using acc by (simp_all add: accounted_def sum_of_bool in_phase_def)
  moreover have "st_connected (lt_stats t) = 0 \<and> st_disconnected (lt_stats t) + st_errors (lt_stats t) = of_nat (nat n)"
    if "all_returned t"
    unfolding cnt using returned_partition [OF that] len by (simp flip: of_nat_add add: add.commute)
  ultimately show ?thesis using len by blast
qed

text \<open>One client that cannot connect.\<close>

theorem load_test_accounts_for_clients_witness:
  "\<exists>t. all_returned t \<and> st_errors (lt_stats t) = 1 \<and> st_connected (lt_stats t) = 0 \<and> length (lt_clients t) = 1"
proof -
  let ?k = "\<lparr>cMarshal = \<lambda>_. None, cAuthResp = \<lambda>_. None, cJoinResp = \<lambda>_. None, cMap = \<lambda>_. False, cSuccess = \<lambda>_. False\<rparr>
      :: nat go_value client_codec" and ?c = "new_load_client (load_user 0, load_room 0)"
  let ?t0 = "\<lparr>lt_stats = zero_stats, lt_clients = [?c], lt_cancelled = False\<rparr>"
  let ?r = "runClient sorted_list_of_fset ?k (Dial None) (?c, zero_stats)"
  let ?t1 = "?t0\<lparr>lt_clients := (lt_clients ?t0)[0 := fst ?r], lt_stats := snd ?r\<rparr>"
  have "mainLoadTest 1 1 = Inr ?t0" by (simp add: mainLoadTest_def ramp_up_def)
  then have "reachable_by (\<lambda>t. mainLoadTest 1 1 = Inr t) (load_step sorted_list_of_fset ?k) ?t0" by (rule reachable_init)
  moreover have "load_step sorted_list_of_fset ?k ?t0 ?t1" by (rule load_client [where ev = "Dial None"]) simp_all
  ultimately have r: "reachable_by (\<lambda>t. mainLoadTest 1 1 = Inr t) (load_step sorted_list_of_fset ?k) ?t1" by (rule reachable_step)
  have f: "lc_phase (fst ?r) = Failed" by (simp add: new_load_client_def fail_client_def)
  then have ret: "all_returned ?t1" by (simp add: all_returned_def)
  show ?thesis
    using load_test_accounts_for_clients [OF r] ret f by (intro exI [of _ ?t1]) (simp add: in_phase_def)
qed

section \<open>The rooms of the clients\<close>

lemma load_user_inj: "load_user i = load_user j \<Longrightarrow> i = j"
  by (auto simp: load_user_def dest: pad_inj)

lemma load_room_inj: "load_room i = load_room j \<longleftrightarrow> i = j"
  by (auto simp: load_room_def dest: pad_inj)

lemma count_mod:
  assumes "j < m"
  shows "length (filter (\<lambda>i. i mod m = j) [0..<n]) = n div m + (if j < n mod m then 1 else 0)"
proof (induction n)
  case (Suc n)
  show ?case
  proof (cases "Suc (n mod m) = m")
    case True
    then have "Suc n mod m = 0" "Suc n div m = Suc (n div m)" by (simp_all add: mod_Suc div_Suc)
    moreover have "n mod m = j \<longleftrightarrow> \<not> j < n mod m" using True assms by auto
    ultimately show ?thesis using Suc by simp
  next
    case False
    then have "Suc n mod m = Suc (n mod m)" "Suc n div m = n div m" by (simp_all add: mod_Suc div_Suc)
    then show ?thesis using Suc by auto
  qed
qed simp

lemma ramp_up_counts:
  assumes pos: "0 < n" "0 < m"
  shows "\<exists>ps. ramp_up (int n) (int m) = Inr ps \<and> length ps = n \<and> distinct (map fst ps)
      \<and> (\<forall>p \<in> set ps. \<exists>j < m. snd p = load_room j)
      \<and> (\<forall>j < m. n div m \<le> length (filter (\<lambda>p. snd p = load_room j) ps)
           \<and> length (filter (\<lambda>p. snd p = load_room j) ps) \<le> (n + m - 1) div m)"
proof -
  let ?ps = "map (\<lambda>i. (load_user i, load_room (i mod m))) [0..<n]"
  have r: "ramp_up (int n) (int m) = Inr ?ps" using pos by (simp add: ramp_up_def)
  have "n div m \<le> length (filter (\<lambda>p. snd p = load_room j) ?ps) \<and> length (filter (\<lambda>p. snd p = load_room j) ?ps) \<le> (n + m - 1) div m"
    if "j < m" for j
  proof -
    have c: "length (filter (\<lambda>p. snd p = load_room j) ?ps) = n div m + (if j < n mod m then 1 else 0)"
      by (simp add: filter_map comp_def load_room_inj count_mod [OF that])
    have "n div m + 1 \<le> (n + m - 1) div m" if "0 < n mod m"
    proof -
      have "(n div m + 1) * m \<le> n + m - 1" using that div_mult_mod_eq [of n m] by (simp only: distrib_right)
      then show ?thesis using pos(2) by (simp add: less_eq_div_iff_mult_less_eq)
    qed
    moreover have "n div m \<le> (n + m - 1) div m" using pos by (intro div_le_mono) simp
    ultimately show ?thesis unfolding c by auto
  qed
  moreover have "distinct (map fst ?ps)" by (auto simp: distinct_map comp_def intro!: inj_onI dest: load_user_inj)
  moreover have "\<forall>p \<in> set ?ps. \<exists>j < m. snd p = load_room j" using pos by (auto intro!: exI [of _ "_ mod m"])
  ultimately show ?thesis using r by (intro exI [of _ ?ps]) simp
qed

text \<open>The load is spread evenly. With a positive number of clients and of rooms the ramp-up starts
  exactly that many clients, with different user ids, every client joins one of the rooms, and the
  numbers of clients in two rooms differ by at most one. Without clients, or with clients and no
  rooms, it panics.\<close>

lemma ramp_up_spreads_evenly:
  "(0 < n \<and> 0 < m \<longrightarrow> (\<exists>ps. ramp_up (int n) (int m) = Inr ps \<and> length ps = n \<and> distinct (map fst ps)
      \<and> (\<forall>p \<in> set ps. \<exists>j < m. snd p = load_room j)
      \<and> (\<forall>j < m. n div m \<le> length (filter (\<lambda>p. snd p = load_room j) ps)
           \<and> length (filter (\<lambda>p. snd p = load_room j) ps) \<le> (n + m - 1) div m)))
    \<and> ((\<exists>e. ramp_up nc nr = Inl (Panic e)) \<longleftrightarrow> nc = 0 \<or> 0 < nc \<and> nr = 0)"
  using ramp_up_counts [of n m] by (auto simp: ramp_up_def)

lemma ramp_up_spreads_evenly_example:
  "\<exists>ps. ramp_up 7 3 = Inr ps \<and> length ps = 7 \<and> length (filter (\<lambda>p. snd p = load_room 0) ps) \<le> 3"
  using ramp_up_spreads_evenly [of 7 3] by fastforce

end
