(* ===== verification/Interactive.thy ===== *)
theory Interactive
  imports Test_Client Go_Strings
begin

text \<open>
  The interactive client (\<open>cmd/testclient/interactive.go\<close>): its command loop, the frames each command
  sends and what is printed. The lines of the scanner are the input; \<open>strconv.ParseFloat\<close> is an
  argument, since the client only passes floating-point numbers on.
\<close>

section \<open>Output\<close>

datatype direction = SEND | RECV

text \<open>\<open>PFrame\<close> is one line of \<open>printFrame\<close>; the payload is printed as the map it unmarshals to.\<close>

datatype printed =
    PFrame direction string string uint64 bytes
  | PSendFailed
  | PHelp
  | PUsage
  | PInvalidType string
  | PUnknown string
  | PBye
  | PClosed

definition msgTypeNames :: "(uint32 \<times> string) list" where
  "msgTypeNames =
     [(MsgTypeAuth, ''Auth''), (MsgTypeJoinRoom, ''JoinRoom''), (MsgTypeLeaveRoom, ''LeaveRoom''), (MsgTypeResume, ''Resume''),
      (MsgTypeBizRequest, ''BizRequest''), (MsgTypeHeartbeat, ''Heartbeat''), (MsgTypeAuthResp, ''AuthResp''),
      (MsgTypeJoinRoomResp, ''JoinRoomResp''), (MsgTypeLeaveRoomResp, ''LeaveRoomResp''), (MsgTypeResumeResp, ''ResumeResp''),
      (MsgTypePushMessage, ''PushMessage''), (MsgTypeBizResponse, ''BizResponse''), (MsgTypeHeartbeatResp, ''HeartbeatResp'')]"

definition getMsgTypeName :: "uint32 \<Rightarrow> string" where
  "getMsgTypeName msgType = (case map_of msgTypeNames msgType of Some name \<Rightarrow> name | None \<Rightarrow> ''Unknown'')"

definition printFrame :: "direction \<Rightarrow> Frame \<Rightarrow> printed" where
  "printFrame d f = PFrame d (''0x'' @ pad_hex 4 (unat (MsgType f))) (getMsgTypeName (MsgType f)) (Seq f) (Payload f)"

section \<open>Commands\<close>

text \<open>The common end of all commands that send: a new sequence number, the frame, and its print.\<close>

definition send_print :: "uint32 \<Rightarrow> bytes \<Rightarrow> TestClient \<Rightarrow> printed list \<times> TestClient" where
  "send_print msgType payload cl =
     (case nextSeq cl of (q, cl1) \<Rightarrow>
        let f = \<lparr>MsgType = msgType, Seq = q, Payload = payload\<rparr>
        in (case sendFrame f cl1 of (ok, cl2) \<Rightarrow> ([if ok then printFrame SEND f else PSendFailed], cl2)))"

definition sendAuth :: "'v client_codec \<Rightarrow> user_id \<Rightarrow> string \<Rightarrow> TestClient \<Rightarrow> printed list \<times> TestClient" where
  "sendAuth k uid tok = send_print MsgTypeAuth (cEncode k (CAuth tok uid))"

definition sendJoin :: "'v client_codec \<Rightarrow> room_id \<Rightarrow> TestClient \<Rightarrow> printed list \<times> TestClient" where
  "sendJoin k rid = send_print MsgTypeJoinRoom (cEncode k (CRoom rid))"

definition sendLeave :: "'v client_codec \<Rightarrow> room_id \<Rightarrow> TestClient \<Rightarrow> printed list \<times> TestClient" where
  "sendLeave k rid = send_print MsgTypeLeaveRoom (cEncode k (CRoom rid))"

definition sendResume :: "'v client_codec \<Rightarrow> room_id \<Rightarrow> TestClient \<Rightarrow> printed list \<times> TestClient" where
  "sendResume k rid = send_print MsgTypeResume (cEncode k (CRoom rid))"

definition sendHB :: "'v client_codec \<Rightarrow> room_id \<Rightarrow> instant \<Rightarrow> TestClient \<Rightarrow> printed list \<times> TestClient" where
  "sendHB k rid now = send_print MsgTypeHeartbeat (cEncode k (CHeartbeat rid (now div millisecond)))"

text \<open>The value of a \<open>key=value\<close> argument: an integer if it parses as one, then a float, a boolean, a string.\<close>

definition parse_value :: "(string \<Rightarrow> 'f option) \<Rightarrow> string \<Rightarrow> 'f go_value" where
  "parse_value ParseFloat v =
     (case Atoi v of
        Some i \<Rightarrow> VInt i
      | None \<Rightarrow> (case ParseFloat v of
          Some f \<Rightarrow> VFloat f
        | None \<Rightarrow> if v = ''true'' then VBool True else if v = ''false'' then VBool False else VString v))"

definition add_pair :: "(string \<Rightarrow> 'f option) \<Rightarrow> string \<Rightarrow> (string, 'f go_value) fmap \<Rightarrow> (string, 'f go_value) fmap" where
  "add_pair ParseFloat kv data =
     (case SplitN2 kv (CHR ''='') of
        [key, v] \<Rightarrow> fmupd key (parse_value ParseFloat v) data
      | _ \<Rightarrow> data)"

definition sendBiz ::
  "range_order \<Rightarrow> (string \<Rightarrow> 'f option) \<Rightarrow> 'f go_value client_codec \<Rightarrow> string \<Rightarrow> string list \<Rightarrow> TestClient \<Rightarrow> printed list \<times> TestClient" where
  "sendBiz ord ParseFloat k action kvPairs =
     send_print MsgTypeBizRequest (cEncode k (marshal_map ord
       (fold (add_pair ParseFloat) kvPairs (fmupd ''action'' (VString action) fmempty))))"

definition sendRaw ::
  "range_order \<Rightarrow> 'f go_value client_codec \<Rightarrow> string \<Rightarrow> string \<Rightarrow> TestClient \<Rightarrow> printed list \<times> TestClient" where
  "sendRaw ord k typeStr payloadJSON cl =
     (case ParseUint (TrimPrefix typeStr ''0x'') 16 32 of
        None \<Rightarrow> ([PInvalidType typeStr], cl)
      | Some msgType \<Rightarrow>
          send_print (of_nat msgType) (cEncode k (marshal_map ord (fmupd ''raw'' (VString payloadJSON) fmempty))) cl)"

section \<open>The loop\<close>

text \<open>The command-line flags.\<close>

record client_flags =
  fl_user :: user_id
  fl_token :: string
  fl_room :: room_id

definition arg :: "nat \<Rightarrow> string \<Rightarrow> string list \<Rightarrow> string" where
  "arg i dflt parts = (if length parts > i then parts ! i else dflt)"

record interactive =
  ia_client :: TestClient
  ia_out :: "printed list"
  ia_exited :: bool

definition emit :: "printed list \<times> TestClient \<Rightarrow> interactive \<Rightarrow> interactive" where
  "emit r s = s\<lparr>ia_client := snd r, ia_out := ia_out s @ fst r\<rparr>"

text \<open>One command, given its fields.\<close>

definition run_command ::
  "range_order \<Rightarrow> (string \<Rightarrow> 'f option) \<Rightarrow> 'f go_value client_codec \<Rightarrow> client_flags \<Rightarrow> instant \<Rightarrow> string list \<Rightarrow> interactive \<Rightarrow> interactive" where
  "run_command ord ParseFloat k fl now parts s =
     (let cmd = parts ! 0; rid = arg 1 (fl_room fl) parts; cl = ia_client s in
      if cmd = ''help'' then emit ([PHelp], cl) s
      else if cmd = ''auth'' then emit (sendAuth k (arg 1 (fl_user fl) parts) (arg 2 (fl_token fl) parts) cl) s
      else if cmd = ''join'' then emit (sendJoin k rid cl) s
      else if cmd = ''leave'' then emit (sendLeave k rid cl) s
      else if cmd = ''resume'' then emit (sendResume k rid cl) s
      else if cmd = ''hb'' \<or> cmd = ''heartbeat'' then emit (sendHB k rid now cl) s
      else if cmd = ''biz'' then
        (if length parts < 2 then emit ([PUsage], cl) s
         else emit (sendBiz ord ParseFloat k (parts ! 1) (drop 2 parts) cl) s)
      else if cmd = ''raw'' then
        (if length parts < 3 then emit ([PUsage], cl) s
         else emit (sendRaw ord k (parts ! 1) (Join (drop 2 parts) '' '') cl) s)
      else if cmd = ''quit'' \<or> cmd = ''exit'' then (emit ([PBye], cl) s)\<lparr>ia_exited := True\<rparr>
      else emit ([PUnknown cmd], cl) s)"

text \<open>A line of input; \<open>parts[0]\<close> panics on a line without fields.\<close>

definition run_line ::
  "range_order \<Rightarrow> (string \<Rightarrow> 'f option) \<Rightarrow> 'f go_value client_codec \<Rightarrow> client_flags \<Rightarrow> instant \<times> string \<Rightarrow> interactive \<Rightarrow> interactive go" where
  "run_line ord ParseFloat k fl l s =
     (if ia_exited s then Inr s
      else let line = TrimSpace (snd l) in
        if line = [] then Inr s
        else let parts = Fields line in
          if parts = [] then Inl (Panic ''index out of range'')
          else Inr (run_command ord ParseFloat k fl (fst l) parts s))"

text \<open>A round of the receiving goroutine, which ends the process when the connection is gone.\<close>

definition receive_round :: "interactive \<Rightarrow> interactive" where
  "receive_round s =
     (if ia_exited s then s
      else (case recvFrame (ia_client s) of
              None \<Rightarrow> s
            | Some (Inl e, cl) \<Rightarrow> (emit ([PClosed], cl) s)\<lparr>ia_exited := True\<rparr>
            | Some (Inr f, cl) \<Rightarrow> emit ([printFrame RECV f], cl) s))"

datatype interactive_event = Line instant string | Incoming

definition mainInteractive ::
  "range_order \<Rightarrow> (string \<Rightarrow> 'f option) \<Rightarrow> 'f go_value client_codec \<Rightarrow> client_flags \<Rightarrow> interactive_event list \<Rightarrow> interactive \<Rightarrow> interactive go" where
  "mainInteractive ord ParseFloat k fl evs =
     go_fold (\<lambda>ev s. case ev of Line now l \<Rightarrow> run_line ord ParseFloat k fl (now, l) s | Incoming \<Rightarrow> Inr (receive_round s)) evs"


section \<open>Sequence numbers\<close>

fun is_sent :: "printed \<Rightarrow> bool" where
  "is_sent (PFrame SEND t name q p) = True"
| "is_sent _ = False"

lemma is_sent_printFrame [simp]: "is_sent (printFrame SEND f)" "\<not> is_sent (printFrame RECV f)"
  by (simp_all add: printFrame_def)

text \<open>
  What a client has sent since the state \<open>s\<close>: these frames, numbered without a gap, each printed when
  it was sent.
\<close>

definition sent_since :: "interactive \<Rightarrow> Frame list \<Rightarrow> interactive \<Rightarrow> bool" where
  "sent_since s fs t \<longleftrightarrow> writable (sock (ia_client t))
     \<and> outgoing (sock (ia_client t)) = outgoing (sock (ia_client s)) @ map client_encodeFrame fs
     \<and> map Seq fs = map (\<lambda>i. seqCounter (ia_client s) + of_nat i) [1..<Suc (length fs)]
     \<and> seqCounter (ia_client t) = seqCounter (ia_client s) + of_nat (length fs)
     \<and> filter is_sent (ia_out t) = filter is_sent (ia_out s) @ map (printFrame SEND) fs"

lemma sent_since_refl: "writable (sock (ia_client s)) \<Longrightarrow> sent_since s [] s"
  by (simp add: sent_since_def)

lemma sent_since_quiet:
  assumes "sent_since s fs t" and "ia_client u = ia_client t" and "filter is_sent (ia_out u) = filter is_sent (ia_out t)"
  shows "sent_since s fs u"
  using assms by (simp add: sent_since_def)

lemma sent_since_send:
  assumes "sent_since s fs t"
  shows "\<exists>f. sent_since s (fs @ [f]) (emit (send_print msgType payload (ia_client t)) t)
    \<and> MsgType f = msgType \<and> Payload f = payload"
  using assms
  by (intro exI [of _ "\<lparr>MsgType = msgType, Seq = seqCounter (ia_client t) + 1, Payload = payload\<rparr>"])
     (auto simp: sent_since_def emit_def send_print_def nextSeq_def sendFrame_def WriteMessage_def Let_def ac_simps)

text \<open>A command sends at most one frame.\<close>

definition one_more :: "interactive \<Rightarrow> Frame list \<Rightarrow> interactive \<Rightarrow> bool" where
  "one_more s fs t \<longleftrightarrow> (\<exists>gs. sent_since s (fs @ gs) t \<and> length gs \<le> 1)"

lemma one_more_quiet: "sent_since s fs t \<Longrightarrow> \<not> is_sent p \<Longrightarrow> one_more s fs (emit ([p], ia_client t) t)"
  unfolding one_more_def using sent_since_quiet [of s fs t "emit ([p], ia_client t) t"]
  by (intro exI [of _ "[]"]) (simp add: emit_def)

lemma one_more_send: "sent_since s fs t \<Longrightarrow> one_more s fs (emit (send_print msgType payload (ia_client t)) t)"
  unfolding one_more_def using sent_since_send [of s fs t msgType payload] by fastforce

lemma one_more_exit: "one_more s fs t \<Longrightarrow> one_more s fs (t\<lparr>ia_exited := b\<rparr>)"
  by (simp add: one_more_def sent_since_def)

lemma run_command_sends:
  assumes "sent_since s fs t"
  shows "one_more s fs (run_command ord pf k fl now parts t)"
proof -
  have raw: "one_more s fs (emit (sendRaw ord k ty p (ia_client t)) t)" for ty p
    by (cases "ParseUint (TrimPrefix ty ''0x'') 16 32")
       (simp_all add: sendRaw_def one_more_quiet [OF assms] one_more_send [OF assms])
  show ?thesis
    unfolding run_command_def Let_def sendAuth_def sendJoin_def sendLeave_def sendResume_def sendHB_def sendBiz_def
    by (simp add: raw one_more_quiet [OF assms] one_more_send [OF assms] one_more_exit)
qed

lemma run_line_sends:
  assumes "sent_since s fs t"
  shows "\<exists>u. run_line ord pf k fl l t = Inr u \<and> one_more s fs u"
proof -
  have "one_more s fs t" unfolding one_more_def using assms by (intro exI [of _ "[]"]) simp
  then show ?thesis
    using run_command_sends [OF assms] Fields_TrimSpace by (auto simp: run_line_def Let_def)
qed

lemma receive_round_quiet: "sent_since s fs t \<Longrightarrow> sent_since s fs (receive_round t)"
proof (cases "ia_exited t \<or> recvFrame (ia_client t) = None")
  case False
  assume sent: "sent_since s fs t"
  obtain r cl where rc: "recvFrame (ia_client t) = Some (r, cl)" using False by auto
  then have "seqCounter cl = seqCounter (ia_client t)" "outgoing (sock cl) = outgoing (sock (ia_client t))"
      "writable (sock cl) = writable (sock (ia_client t))"
    by (auto simp: recvFrame_def ReadMessage_def split: list.splits option.splits)
  then show ?thesis using sent False rc
    by (cases r) (simp_all add: receive_round_def emit_def sent_since_def)
qed (auto simp: receive_round_def)

fun is_line :: "interactive_event \<Rightarrow> bool" where
  "is_line (Line now l) = True"
| "is_line Incoming = False"

lemma mainInteractive_sends:
  assumes "sent_since s fs t"
  shows "\<exists>u gs. mainInteractive ord pf k fl evs t = Inr u \<and> sent_since s (fs @ gs) u \<and> length gs \<le> length (filter is_line evs)"
  using assms
proof (induction evs arbitrary: fs t)
  case Nil
  then show ?case by (auto simp: mainInteractive_def intro: exI [of _ "[]"])
next
  case (Cons ev evs)
  show ?case
  proof (cases ev)
    case (Line now l)
    obtain u gs where u: "run_line ord pf k fl (now, l) t = Inr u" "sent_since s (fs @ gs) u" "length gs \<le> 1"
      using run_line_sends [OF Cons.prems] unfolding one_more_def by blast
    obtain v hs where "mainInteractive ord pf k fl evs u = Inr v" "sent_since s ((fs @ gs) @ hs) v" "length hs \<le> length (filter is_line evs)"
      using Cons.IH [OF u(2)] by blast
    then show ?thesis using u Line by (intro exI [of _ v] exI [of _ "gs @ hs"]) (simp add: mainInteractive_def)
  next
    case Incoming
    then show ?thesis using Cons.IH [OF receive_round_quiet [OF Cons.prems]] by (simp add: mainInteractive_def)
  qed
qed

text \<open>The interactive client never panics and numbers its frames without a gap. Whatever lines are typed and
  whatever arrives in between, the command loop does not fault: a line that is not blank always has
  a first field. On a connection that accepts writes, each line sends at most one frame, the frames
  carry consecutive sequence numbers from the counter on (modulo 2^64), the counter ends at the last
  of them, and what is printed as sent are exactly these frames in order.\<close>

lemma interactive_sends_in_sequence:
  assumes "writable (sock (ia_client s))"
  shows "\<exists>t fs. mainInteractive ord ParseFloat k fl evs s = Inr t \<and> length fs \<le> length (filter is_line evs)
    \<and> outgoing (sock (ia_client t)) = outgoing (sock (ia_client s)) @ map client_encodeFrame fs
    \<and> map Seq fs = map (\<lambda>i. seqCounter (ia_client s) + of_nat i) [1..<Suc (length fs)]
    \<and> seqCounter (ia_client t) = seqCounter (ia_client s) + of_nat (length fs)
    \<and> filter is_sent (ia_out t) = filter is_sent (ia_out s) @ map (printFrame SEND) fs"
proof -
  obtain t fs where "mainInteractive ord ParseFloat k fl evs s = Inr t" "sent_since s ([] @ fs) t"
      "length fs \<le> length (filter is_line evs)"
    using mainInteractive_sends [OF sent_since_refl [OF assms]] by blast
  then show ?thesis unfolding sent_since_def by (intro exI [of _ t] exI [of _ fs]) simp
qed

definition typed_client :: interactive where
  "typed_client = \<lparr>ia_client = \<lparr>seqCounter = 0, sock = \<lparr>incoming = [], outgoing = [], writable = True\<rparr>\<rparr>, ia_out = [], ia_exited = False\<rparr>"

lemma interactive_sends_in_sequence_example:
  "\<exists>t fs. mainInteractive sorted_list_of_fset (\<lambda>_. None :: nat option)
      \<lparr>cMarshal = \<lambda>_. Some [], cAuthResp = \<lambda>_. None, cJoinResp = \<lambda>_. None, cMap = \<lambda>_. False, cSuccess = \<lambda>_. False\<rparr>
      \<lparr>fl_user = ''u'', fl_token = ''dev_1'', fl_room = ''r''\<rparr> [Line 0 ''auth'', Line 1 '' join r2 '', Incoming, Line 2 '' ''] typed_client = Inr t
    \<and> length fs \<le> 3 \<and> outgoing (sock (ia_client t)) = map client_encodeFrame fs
    \<and> seqCounter (ia_client t) = of_nat (length fs)"
proof -
  have w: "writable (sock (ia_client typed_client))" "outgoing (sock (ia_client typed_client)) = []" "seqCounter (ia_client typed_client) = 0"
    by (simp_all add: typed_client_def)
  show ?thesis
    using interactive_sends_in_sequence [OF w(1), of sorted_list_of_fset "\<lambda>_. None :: nat option"
        "\<lparr>cMarshal = \<lambda>_. Some [], cAuthResp = \<lambda>_. None, cJoinResp = \<lambda>_. None, cMap = \<lambda>_. False, cSuccess = \<lambda>_. False\<rparr>"
        "\<lparr>fl_user = ''u'', fl_token = ''dev_1'', fl_room = ''r''\<rparr>" "[Line 0 ''auth'', Line 1 '' join r2 '', Incoming, Line 2 '' '']"]
    unfolding w by (elim exE conjE) (intro exI conjI; simp)
qed

text \<open>The message type that the client prints can be typed back. For every 32-bit type, \<open>raw\<close> with the
  type as \<open>printFrame\<close> shows it sends a frame of that type; a type is refused exactly if, without a
  leading \<open>0x\<close>, it is not a hexadecimal number below 2^32.\<close>

lemma raw_type_roundtrip:
  "sendRaw ord k (''0x'' @ pad_hex 4 (unat t)) p cl =
     send_print t (cEncode k (marshal_map ord (fmupd ''raw'' (VString p) fmempty))) cl
   \<and> (fst (sendRaw ord k typ p cl) = [PInvalidType typ] \<longleftrightarrow>
       \<not> (TrimPrefix typ ''0x'' \<noteq> [] \<and> (\<exists>v < 2 ^ 32. digits_val 16 0 (TrimPrefix typ ''0x'') = Some v)))"
proof
  have "unat t < 2 ^ 32" using unsigned_less [of t] by simp
  then show "sendRaw ord k (''0x'' @ pad_hex 4 (unat t)) p cl =
     send_print t (cEncode k (marshal_map ord (fmupd ''raw'' (VString p) fmempty))) cl"
    by (simp add: sendRaw_def TrimPrefix_def ParseUint_pad_hex)
next
  let ?s = "TrimPrefix typ ''0x''"
  have "fst (send_print m b cl) \<noteq> [PInvalidType typ]" for m b
    by (simp add: send_print_def nextSeq_def Let_def printFrame_def split: prod.split)
  then have "fst (sendRaw ord k typ p cl) = [PInvalidType typ] \<longleftrightarrow> ParseUint ?s 16 32 = None"
    by (cases "ParseUint ?s 16 32") (simp_all add: sendRaw_def)
  also have "\<dots> \<longleftrightarrow> \<not> (?s \<noteq> [] \<and> (\<exists>v < 2 ^ 32. digits_val 16 0 ?s = Some v))"
    using ParseUint_val [of 16 ?s 32] by (cases "ParseUint ?s 16 32") auto
  finally show "fst (sendRaw ord k typ p cl) = [PInvalidType typ] \<longleftrightarrow>
       \<not> (?s \<noteq> [] \<and> (\<exists>v < 2 ^ 32. digits_val 16 0 ?s = Some v))" .
qed

end
