(* ===== verification/Transport.thy ===== *)
theory Transport
  imports Frame Web_Socket
begin

text \<open>
  The transport layer (\<open>pkg/transport/websocket.go\<close>): a listener that hands upgraded connections to
  \<open>Accept\<close> through a channel, and a connection with the interface of \<open>io.ReadWriteCloser\<close>. No other
  package uses it yet. The upgrade and the HTTP server are outside.
\<close>

section \<open>Connections\<close>

record WebSocketConn =
  wc_conn :: socket
  wc_remoteAddr :: string

text \<open>\<open>Read\<close> into a buffer of \<open>n\<close> bytes: \<open>None\<close> blocks, the inner \<open>None\<close> is an error.\<close>

definition Read :: "nat \<Rightarrow> WebSocketConn \<Rightarrow> (bytes option \<times> WebSocketConn) option" where
  "Read n c =
     (case ReadMessage (wc_conn c) of
        None \<Rightarrow> None
      | Some (None, s) \<Rightarrow> Some (None, c\<lparr>wc_conn := s\<rparr>)
      | Some (Some data, s) \<Rightarrow> Some (Some (take n data), c\<lparr>wc_conn := s\<rparr>))"

text \<open>\<open>Write\<close> returns the number of bytes written, or an error.\<close>

definition Write :: "bytes \<Rightarrow> WebSocketConn \<Rightarrow> nat option \<times> WebSocketConn" where
  "Write p c = (case WriteMessage p (wc_conn c) of (ok, s) \<Rightarrow> (if ok then Some (length p) else None, c\<lparr>wc_conn := s\<rparr>))"

definition conn_Close :: "WebSocketConn \<Rightarrow> WebSocketConn" where
  "conn_Close c = c\<lparr>wc_conn := CloseSocket (wc_conn c)\<rparr>"

section \<open>The listener\<close>

record WebSocketTransport =
  wt_addr :: string
  wt_listening :: bool
  wt_connCh :: "WebSocketConn chan"
  wt_doneCh :: "unit chan"

definition NewWebSocketTransport :: WebSocketTransport where
  "NewWebSocketTransport = \<lparr>wt_addr = '''', wt_listening = False, wt_connCh = make_chan 1000, wt_doneCh = make_chan 0\<rparr>"

definition Listen :: "string \<Rightarrow> WebSocketTransport \<Rightarrow> WebSocketTransport" where
  "Listen addr t = t\<lparr>wt_addr := addr, wt_listening := True\<rparr>"

text \<open>
  The two branches of the \<open>select\<close> in \<open>handleWebSocket\<close> and in \<open>Accept\<close>; \<open>None\<close> means that the branch
  is not ready. When both are, either may be taken; when none is, the call waits.
\<close>

definition hand_over :: "WebSocketConn \<Rightarrow> WebSocketTransport \<Rightarrow> WebSocketTransport option" where
  "hand_over c t =
     (if length (buf (wt_connCh t)) < cap (wt_connCh t)
      then Some (t\<lparr>wt_connCh := (wt_connCh t)\<lparr>buf := buf (wt_connCh t) @ [c]\<rparr>\<rparr>) else None)"

definition turn_away :: "WebSocketConn \<Rightarrow> WebSocketTransport \<Rightarrow> WebSocketConn option" where
  "turn_away c t = (if shut (wt_doneCh t) then Some (conn_Close c) else None)"

definition Accept_conn :: "WebSocketTransport \<Rightarrow> (WebSocketConn \<times> WebSocketTransport) option" where
  "Accept_conn t = (case buf (wt_connCh t) of [] \<Rightarrow> None | c # cs \<Rightarrow> Some (c, t\<lparr>wt_connCh := (wt_connCh t)\<lparr>buf := cs\<rparr>\<rparr>))"

definition Accept_closed :: "WebSocketTransport \<Rightarrow> bool" where
  "Accept_closed t \<longleftrightarrow> shut (wt_doneCh t)"

definition transport_Close :: "WebSocketTransport \<Rightarrow> WebSocketTransport go" where
  "transport_Close t = go_bind (close_chan (wt_doneCh t)) (\<lambda>ch. Inr (t\<lparr>wt_doneCh := ch, wt_listening := False\<rparr>))"

text \<open>The history: connections in the order they were handed over, accepted, and turned away.\<close>

record transport_run =
  tr_transport :: WebSocketTransport
  tr_handed :: "WebSocketConn list"
  tr_accepted :: "WebSocketConn list"
  tr_refused :: "WebSocketConn list"

inductive transport_step :: "transport_run \<Rightarrow> transport_run \<Rightarrow> bool"
where
  step_listen: "transport_step r (r\<lparr>tr_transport := Listen addr (tr_transport r)\<rparr>)"
| step_hand: "hand_over c (tr_transport r) = Some t \<Longrightarrow>
    transport_step r (r\<lparr>tr_transport := t, tr_handed := tr_handed r @ [c]\<rparr>)"
| step_refuse: "turn_away c (tr_transport r) = Some c' \<Longrightarrow> transport_step r (r\<lparr>tr_refused := tr_refused r @ [c']\<rparr>)"
| step_accept: "Accept_conn (tr_transport r) = Some (c, t) \<Longrightarrow>
    transport_step r (r\<lparr>tr_transport := t, tr_accepted := tr_accepted r @ [c]\<rparr>)"
| step_close: "transport_Close (tr_transport r) = Inr t \<Longrightarrow> transport_step r (r\<lparr>tr_transport := t\<rparr>)"

inductive_cases transport_stepE: "transport_step r q"

definition transport_init :: "transport_run \<Rightarrow> bool" where
  "transport_init r \<longleftrightarrow> r = \<lparr>tr_transport = NewWebSocketTransport, tr_handed = [], tr_accepted = [], tr_refused = []\<rparr>"

definition transport_ok :: "transport_run \<Rightarrow> bool" where
  "transport_ok r \<longleftrightarrow> tr_handed r = tr_accepted r @ buf (wt_connCh (tr_transport r))
     \<and> length (buf (wt_connCh (tr_transport r))) \<le> 1000 \<and> cap (wt_connCh (tr_transport r)) = 1000
     \<and> (tr_refused r \<noteq> [] \<longrightarrow> shut (wt_doneCh (tr_transport r)))
     \<and> (\<forall>c \<in> set (tr_refused r). \<not> writable (wc_conn c))"

interpretation tri: inductive_invariant transport_init transport_step transport_ok
proof
  fix r q assume "transport_ok r" and "transport_step r q"
  then show "transport_ok q"
    by (auto elim!: transport_stepE simp: transport_ok_def Listen_def hand_over_def turn_away_def Accept_conn_def conn_Close_def
        CloseSocket_def transport_Close_def go_bind_Inr_iff close_chan_def split: if_splits list.splits)
qed (simp add: transport_init_def transport_ok_def NewWebSocketTransport_def make_chan_def)

text \<open>
  The listener accepts connections in the order they arrived, holds at most 1000 of them, and turns
  a connection away, closing it, only after it was closed itself.
\<close>

lemma transport_accepts_in_order:
  assumes "reachable_by transport_init transport_step r"
  shows "\<exists>waiting. tr_handed r = tr_accepted r @ waiting \<and> length waiting \<le> 1000"
    and "c \<in> set (tr_refused r) \<Longrightarrow> shut (wt_doneCh (tr_transport r)) \<and> \<not> writable (wc_conn c)"
  using tri.inv_reachable [OF assms] unfolding transport_ok_def by auto

text \<open>Closing it twice panics, and connections that wait when it is closed need not be accepted.\<close>

lemma transport_Close_twice:
  "transport_Close t = Inr u \<Longrightarrow> \<exists>e. transport_Close u = Inl (Panic e)"
  by (auto simp: transport_Close_def close_chan_def go_bind_Inr_iff split: if_splits)

section \<open>Reading frames from a connection\<close>

text \<open>\<open>io.ReadFull\<close> on such a connection, and with it \<open>protocol.ReadFrame\<close>.\<close>

lemma Read_consumes: "Read n c = Some (r, c') \<Longrightarrow> length (incoming (wc_conn c')) < length (incoming (wc_conn c))"
  by (auto simp: Read_def ReadMessage_def split: list.splits option.splits)

function read_full :: "nat \<Rightarrow> WebSocketConn \<Rightarrow> (bytes option \<times> WebSocketConn) option" where
  "read_full n c =
     (if n = 0 then Some (Some [], c)
      else (case Read n c of
          None \<Rightarrow> None
        | Some (None, c') \<Rightarrow> Some (None, c')
        | Some (Some got, c') \<Rightarrow>
            (case read_full (n - length got) c' of
               None \<Rightarrow> None
             | Some (None, c'') \<Rightarrow> Some (None, c'')
             | Some (Some tail, c'') \<Rightarrow> Some (Some (got @ tail), c''))))"
  by pat_completeness auto
termination
  by (relation "measure (\<lambda>(n, c). length (incoming (wc_conn c)))") (auto dest: Read_consumes)

declare read_full.simps [simp del]

definition conn_ReadFrame :: "WebSocketConn \<Rightarrow> ((frame_error + Frame) option \<times> WebSocketConn) option" where
  "conn_ReadFrame c =
     (case read_full HeaderSize c of
        None \<Rightarrow> None
      | Some (None, c1) \<Rightarrow> Some (None, c1)
      | Some (Some header, c1) \<Rightarrow>
          let msgType = Uint32 (take 4 header);
              sq = Uint64 (take 8 (drop 4 header));
              payloadLen = Uint32 (take 4 (drop 12 header))
          in if payloadLen > MaxPayloadLen then Some (Some (Inl ErrPayloadTooLarge), c1)
             else if payloadLen > 0 then
               (case read_full (unat payloadLen) c1 of
                  None \<Rightarrow> None
                | Some (None, c2) \<Rightarrow> Some (None, c2)
                | Some (Some payload, c2) \<Rightarrow> Some (Some (Inr \<lparr>MsgType = msgType, Seq = sq, Payload = payload\<rparr>), c2))
             else Some (Some (Inr \<lparr>MsgType = msgType, Seq = sq, Payload = []\<rparr>), c1))"

lemma read_full_one:
  assumes "incoming (wc_conn c) = Some data # ms" and "0 < n" and "n \<le> length data"
  shows "read_full n c = Some (Some (take n data), c\<lparr>wc_conn := (wc_conn c)\<lparr>incoming := ms\<rparr>\<rparr>)"
  using assms by (subst read_full.simps) (simp add: Read_def ReadMessage_def read_full.simps [of 0])

text \<open>
  \<open>Read\<close> drops what does not fit into the buffer. A frame that arrives as one message is therefore cut
  after its header: reading it as a frame waits for a payload that has been thrown away, or takes
  the payload from the next message.
\<close>

lemma frame_loses_payload:
  assumes "frame_ok f" and "Payload f \<noteq> []" and "incoming (wc_conn c) = Some (EncodeFrame f) # ms"
  shows "conn_ReadFrame c =
    (case read_full (length (Payload f)) (c\<lparr>wc_conn := (wc_conn c)\<lparr>incoming := ms\<rparr>\<rparr>) of
       None \<Rightarrow> None
     | Some (None, c2) \<Rightarrow> Some (None, c2)
     | Some (Some payload, c2) \<Rightarrow> Some (Some (Inr (f\<lparr>Payload := payload\<rparr>)), c2))"
    and "ms = [] \<Longrightarrow> conn_ReadFrame c = None"
proof -
  define h where "h = PutUint32 (MsgType f) @ PutUint64 (Seq f) @ PutUint32 (of_nat (length (Payload f)))"
  have e: "EncodeFrame f = h @ Payload f" and lh: "length h = 16" by (simp_all add: h_def EncodeFrame_def)
  have hf: "take 4 h = PutUint32 (MsgType f)" "take 8 (drop 4 h) = PutUint64 (Seq f)"
      "take 4 (drop 12 h) = PutUint32 (of_nat (length (Payload f)))"
    by (simp_all add: h_def)
  have pos: "(0 :: uint32) < of_nat (length (Payload f))" using assms(1,2) by (auto simp: payload_positive)
  have small: "\<not> MaxPayloadLen < (of_nat (length (Payload f)) :: uint32)" by (rule frame_ok_len(2) [OF assms(1)])
  have upd: "f\<lparr>Payload := p\<rparr> = \<lparr>MsgType = MsgType f, Seq = Seq f, Payload = p\<rparr>" for p by (cases f) simp
  have "read_full HeaderSize c = Some (Some h, c\<lparr>wc_conn := (wc_conn c)\<lparr>incoming := ms\<rparr>\<rparr>)"
    using read_full_one [OF assms(3), of HeaderSize] by (simp add: e lh HeaderSize_def)
  then show r: "conn_ReadFrame c =
    (case read_full (length (Payload f)) (c\<lparr>wc_conn := (wc_conn c)\<lparr>incoming := ms\<rparr>\<rparr>) of
       None \<Rightarrow> None
     | Some (None, c2) \<Rightarrow> Some (None, c2)
     | Some (Some payload, c2) \<Rightarrow> Some (Some (Inr (f\<lparr>Payload := payload\<rparr>)), c2))"
    using pos small frame_ok_len [OF assms(1)]
    by (simp add: conn_ReadFrame_def Let_def hf upd cong: option.case_cong)
  show "conn_ReadFrame c = None" if "ms = []"
    using assms(2) unfolding r that by (subst read_full.simps) (simp add: Read_def ReadMessage_def)
qed

end
