(* ===== verification/Gateway_Conn.thy ===== *)
theory Gateway_Conn
  imports Frame Protocol
begin

text \<open>
  The framed connection of the roomserver to a gateway (\<open>internal/roomserver/gateway_conn.go\<close>): a
  bounded queue of frames with a close flag. The servers use the gRPC stream instead (theory
  \<open>Roomserver\<close>); this type is kept in the package without callers. A \<open>select\<close> with several ready
  cases takes any of them, so \<open>send\<close> takes the choice as an argument.
\<close>

record GatewayConn =
  gf_GatewayID :: gateway_id
  gf_Addr :: string
  gf_sendCh :: "Frame chan"
  gf_closed :: bool

definition NewGatewayConn :: "gateway_id \<Rightarrow> string \<Rightarrow> GatewayConn" where
  "NewGatewayConn gatewayID addr =
     \<lparr>gf_GatewayID = gatewayID, gf_Addr = addr, gf_sendCh = make_chan 10000, gf_closed = False\<rparr>"

text \<open>\<open>closeOnce\<close> closes the channel the first time only.\<close>

definition Close :: "GatewayConn \<Rightarrow> GatewayConn" where
  "Close c = c\<lparr>gf_closed := True\<rparr>"

text \<open>
  The cases of the \<open>select\<close>: the queue has room, the connection is closed, neither. When both of
  the first two are ready, \<open>prefer_queue\<close> says which is taken.
\<close>

definition send :: "bool \<Rightarrow> Frame \<Rightarrow> GatewayConn \<Rightarrow> GatewayConn" where
  "send prefer_queue frame c =
     (let room = length (buf (gf_sendCh c)) < cap (gf_sendCh c)
      in if room \<and> (prefer_queue \<or> \<not> gf_closed c)
         then c\<lparr>gf_sendCh := (gf_sendCh c)\<lparr>buf := buf (gf_sendCh c) @ [frame]\<rparr>\<rparr>
         else c)"

definition send_encoded :: "codec \<Rightarrow> bool \<Rightarrow> uint32 \<Rightarrow> wire \<Rightarrow> GatewayConn \<Rightarrow> GatewayConn" where
  "send_encoded c prefer_queue msgType msg gc =
     (case Marshal c msg of
        None \<Rightarrow> gc
      | Some payload \<Rightarrow> send prefer_queue \<lparr>MsgType = msgType, Seq = 0, Payload = payload\<rparr> gc)"

definition SendBroadcast :: "codec \<Rightarrow> bool \<Rightarrow> BroadcastMessage \<Rightarrow> GatewayConn \<Rightarrow> GatewayConn" where
  "SendBroadcast c pq msg = send_encoded c pq InternalMsgBroadcast (WBroadcastMessage msg)"

definition SendUnicast :: "codec \<Rightarrow> bool \<Rightarrow> UnicastMessage \<Rightarrow> GatewayConn \<Rightarrow> GatewayConn" where
  "SendUnicast c pq msg = send_encoded c pq InternalMsgUnicast (WUnicastMessage msg)"

definition SendMulticast :: "codec \<Rightarrow> bool \<Rightarrow> MulticastMessage \<Rightarrow> GatewayConn \<Rightarrow> GatewayConn" where
  "SendMulticast c pq msg = send_encoded c pq InternalMsgMulticast (WMulticastMessage msg)"

definition SendJoinRoomAck :: "codec \<Rightarrow> bool \<Rightarrow> JoinRoomAck \<Rightarrow> GatewayConn \<Rightarrow> GatewayConn" where
  "SendJoinRoomAck c pq ack = send_encoded c pq InternalMsgJoinRoomAck (WJoinRoomAck ack)"

definition SendEpochNotify :: "codec \<Rightarrow> bool \<Rightarrow> EpochNotify \<Rightarrow> GatewayConn \<Rightarrow> GatewayConn" where
  "SendEpochNotify c pq notify = send_encoded c pq InternalMsgEpochNotify (WEpochNotify notify)"

definition SendRoomClose :: "codec \<Rightarrow> bool \<Rightarrow> RoomCloseNotify \<Rightarrow> GatewayConn \<Rightarrow> GatewayConn" where
  "SendRoomClose c pq msg = send_encoded c pq InternalMsgRoomClose (WRoomCloseNotify msg)"

section \<open>Frames are queued in order\<close>

interpretation fq: bounded_queue "\<lambda>c. buf (gf_sendCh c)" "\<lambda>c. cap (gf_sendCh c)" "\<lambda>c f. send True f c"
  by unfold_locales (simp_all add: send_def Let_def)

text \<open>Before it is closed, the choice does not matter and every send goes through the queue's law.\<close>

lemma send_open: "\<not> gf_closed c \<Longrightarrow> send pq f c = send True f c"
  by (simp add: send_def Let_def)

lemma sends_open:
  assumes "\<not> gf_closed c"
  shows "buf (gf_sendCh (foldl (\<lambda>c f. send pq f c) c fs)) =
    buf (gf_sendCh c) @ take (cap (gf_sendCh c) - length (buf (gf_sendCh c))) fs"
proof -
  have "foldl (\<lambda>c f. send pq f c) c fs = foldl (\<lambda>c f. send True f c) c fs"
    using assms
  proof (induction fs arbitrary: c)
    case (Cons f fs)
    have "\<not> gf_closed (send True f c)" using Cons.prems by (simp add: send_def Let_def)
    from Cons.IH [OF this] show ?case by (simp only: foldl_Cons send_open [OF Cons.prems, of pq])
  qed simp
  then show ?thesis by (simp add: fq.content_sends)
qed

text \<open>A closed connection still accepts frames when the runtime picks the queue.\<close>

lemma send_after_close:
  "buf (gf_sendCh (send pq f (Close c))) =
     (if pq \<and> length (buf (gf_sendCh c)) < cap (gf_sendCh c) then buf (gf_sendCh c) @ [f] else buf (gf_sendCh c))"
  by (auto simp: send_def Close_def Let_def)

end
